theory Spec2Isabelle
  imports Main "HOL-Library.Log_Nat"
begin

section \<open>Python values, exceptions and procedures\<close>

text \<open>
  The tank agent is Python. An exception is a value of \<open>error\<close>; a method that
  mutates state and returns nothing is a procedure: a function from the state to the
  exception it raised (if any) and the state it left behind. The state a call had
  reached when it raised is kept, as in Python, where nothing is rolled back.
\<close>

datatype error = ZeroDivisionError | OverflowError | ValueError | IndexError | AttributeError

type_synonym 's proc = "'s \<Rightarrow> error option \<times> 's"

text \<open>A statement list: the statements run in order, the first exception ends the list.\<close>

fun block :: "'s proc list \<Rightarrow> 's proc" where
  "block [] s = (None, s)"
| "block (p # ps) s = (case p s of (None, s') \<Rightarrow> block ps s' | (Some e, s') \<Rightarrow> (Some e, s'))"

definition raise :: "error \<Rightarrow> 's proc" where
  "raise e s = (Some e, s)"

text \<open>\<^verbatim>\<open>if c: body\<close> with no \<^verbatim>\<open>else\<close>.\<close>

definition if_then :: "bool \<Rightarrow> 's proc \<Rightarrow> 's proc" where
  "if_then c body s = (if c then body s else (None, s))"

text \<open>
  A pin identifier, a speed, an angle or a duration is whatever the caller passes.
  Pin identifiers are modelled as a Python int or \<^verbatim>\<open>None\<close>; numbers (int or finite
  float) as the rational they denote. Python's truth test makes \<^verbatim>\<open>None\<close> and zero false.
\<close>

type_synonym pin = "int option"

definition truthy :: "int option \<Rightarrow> bool" where
  "truthy v = (case v of None \<Rightarrow> False | Some n \<Rightarrow> n \<noteq> 0)"

subsection \<open>Binary64 arithmetic\<close>

text \<open>
  Python's \<^verbatim>\<open>/\<close> and every operation with a float operand compute in IEEE binary64,
  rounding to nearest, ties to even. \<open>fl x\<close> is the double nearest to the rational \<open>x\<close>
  (53 significant bits, subnormals below \<open>2^-1022\<close>); \<open>to_double\<close> is \<open>None\<close> where
  the rounded value lies beyond the largest double.
\<close>

definition pow2 :: "int \<Rightarrow> rat" where
  "pow2 e = (if 0 \<le> e then 2 ^ nat e else 1 / 2 ^ nat (- e))"

definition ilog2 :: "rat \<Rightarrow> int" where
  "ilog2 x = (let (p, q) = quotient_of x; e = bitlen p - bitlen q
              in if pow2 e \<le> x then e else e - 1)"

definition round_half_even :: "rat \<Rightarrow> int" where
  "round_half_even q = (let n = \<lfloor>q\<rfloor>; r = q - of_int n
     in if r < 1 / 2 then n else if 1 / 2 < r then n + 1 else if even n then n else n + 1)"

definition ulp :: "rat \<Rightarrow> rat" where
  "ulp x = pow2 (max (ilog2 \<bar>x\<bar> - 52) (- 1074))"

definition fl :: "rat \<Rightarrow> rat" where
  "fl x = (if x = 0 then 0 else of_int (round_half_even (x / ulp x)) * ulp x)"

text \<open>\<open>2 ^ 1024\<close>, written out: every finite double is smaller in magnitude.\<close>

definition double_bound :: rat where
  "double_bound = 179769313486231590772930519078902473361797697894230657273430081157732675805500963132708477322407536021120113879871393357658789768814416622492847430639474124377767893424865485276302219601246094119453082952085005768838150682342462881473913110540827237163350510684586298239947245938479716304835356329624224137216"

definition to_double :: "rat \<Rightarrow> rat option" where
  "to_double x = (let r = fl x in if \<bar>r\<bar> < double_bound then Some r else None)"

text \<open>\<^verbatim>\<open>int(x)\<close> of a float truncates toward zero.\<close>

definition py_int :: "rat \<Rightarrow> int" where
  "py_int x = (if 0 \<le> x then \<lfloor>x\<rfloor> else \<lceil>x\<rceil>)"

text \<open>
  A float that may be infinite: \<^verbatim>\<open>1.0 / speed\<close> does not raise when the quotient
  overflows, it is \<^verbatim>\<open>inf\<close>.
\<close>

datatype pyfloat = Finite rat | PosInf | NegInf

section \<open>The backend: \<^verbatim>\<open>gpio_compat.py\<close>\<close>

text \<open>
  What the program does to the outside world is the list of calls it makes on the
  external libraries (\<^verbatim>\<open>lgpio\<close>, \<^verbatim>\<open>RPi.GPIO\<close>), on \<^verbatim>\<open>print\<close> and on \<^verbatim>\<open>time.sleep\<close>,
  newest first. The libraries are trusted as the drivers trust them: a call on them is
  recorded and returns.
\<close>

datatype message =
    No_GPIO_library
  | Setting_pin pin int
  | PWM_starting pin int rat
  | PWM_changed pin rat
  | PWM_stopping pin

datatype effect =
    gpiochip_open nat
  | gpio_claim_output nat pin
  | gpio_claim_input nat pin
  | gpio_write nat pin int
  | tx_pwm nat pin int int
  | gpiochip_close nat
  | RPI_setmode string
  | RPI_setwarnings bool
  | RPI_setup pin string
  | RPI_output pin int
  | RPI_cleanup
  | RPI_PWM nat pin int
  | RPI_PWM_start nat rat
  | RPI_PWM_ChangeDutyCycle nat rat
  | RPI_PWM_stop nat
  | print message
  | sleep rat

text \<open>
  The three PWM classes. \<^verbatim>\<open>RPi.GPIO.PWM\<close> is the external library's object; the
  model keeps the duty last commanded on it. PWM objects are shared by reference
  (a controller holds them, the backend's table is meant to), so they live in a store.
\<close>

datatype pwm =
    LgpioPWM "nat option" pin int rat bool
  | SimulatedPWM pin int rat
  | RPiPWM pin int rat

fun duty_cycle :: "pwm \<Rightarrow> rat" where
  "duty_cycle (LgpioPWM h p f d r) = d"
| "duty_cycle (SimulatedPWM p f d) = d"
| "duty_cycle (RPiPWM p f d) = d"

record world =
  PI5_AVAILABLE :: bool
  RPI_GPIO_AVAILABLE :: bool
  handle :: "nat option"
  pwm_instances :: "(int \<times> nat) list"
  heap :: "nat \<Rightarrow> pwm"
  next_ref :: nat
  opened :: nat
  max_sleep :: rat
  effects :: "effect list"

definition emit :: "effect \<Rightarrow> world proc" where
  "emit e w = (None, w\<lparr>effects := e # effects w\<rparr>)"

definition BCM :: string where "BCM = ''BCM''"
definition OUT :: string where "OUT = ''OUT''"
definition HIGH :: int where "HIGH = 1"
definition LOW :: int where "LOW = 0"

definition GPIO_setmode :: "string \<Rightarrow> world proc" where
  "GPIO_setmode mode w =
     (if PI5_AVAILABLE w then
        emit (gpiochip_open (opened w)) (w\<lparr>handle := Some (opened w), opened := Suc (opened w)\<rparr>)
      else if RPI_GPIO_AVAILABLE w then
        emit (RPI_setmode (if mode = ''BCM'' then ''BCM'' else ''BOARD'')) w
      else emit (print No_GPIO_library) w)"

definition GPIO_setwarnings :: "bool \<Rightarrow> world proc" where
  "GPIO_setwarnings flag = (\<lambda>w. if_then (RPI_GPIO_AVAILABLE w \<and> \<not> PI5_AVAILABLE w)
     (emit (RPI_setwarnings flag)) w)"

definition GPIO_setup :: "pin \<Rightarrow> string \<Rightarrow> world proc" where
  "GPIO_setup p direction w =
     (case (PI5_AVAILABLE w, handle w) of
        (True, Some h) \<Rightarrow>
          (if direction = ''OUT'' then emit (gpio_claim_output h p) w
           else emit (gpio_claim_input h p) w)
      | _ \<Rightarrow>
          (if RPI_GPIO_AVAILABLE w then
             emit (RPI_setup p (if direction = ''OUT'' then ''OUT'' else ''IN'')) w
           else (None, w)))"

definition GPIO_output :: "pin \<Rightarrow> int \<Rightarrow> world proc" where
  "GPIO_output p v w =
     (case (PI5_AVAILABLE w, handle w) of
        (True, Some h) \<Rightarrow> emit (gpio_write h p v) w
      | _ \<Rightarrow>
          (if RPI_GPIO_AVAILABLE w then emit (RPI_output p v) w
           else emit (print (Setting_pin p v)) w))"

text \<open>
  \<^verbatim>\<open>int((duty_cycle / 100.0) * 1000000)\<close>: the duty becomes a float (an int too large
  for one raises), is divided and multiplied in binary64, and an infinite product
  raises in \<^verbatim>\<open>int\<close>.
\<close>

definition duty_lgpio :: "rat \<Rightarrow> error + int" where
  "duty_lgpio d =
     (case to_double d of
        None \<Rightarrow> Inl OverflowError
      | Some f \<Rightarrow> (case to_double (fl (f / 100) * 1000000) of
                    None \<Rightarrow> Inl OverflowError
                  | Some x \<Rightarrow> Inr (py_int x)))"

definition pwm_start :: "nat \<Rightarrow> rat \<Rightarrow> world proc" where
  "pwm_start r d w =
     (case heap w r of
        LgpioPWM h p f _ run \<Rightarrow>
          (let w1 = w\<lparr>heap := (heap w)(r := LgpioPWM h p f d run)\<rparr> in
           case h of
             None \<Rightarrow> (None, w1\<lparr>heap := (heap w1)(r := LgpioPWM h p f d True)\<rparr>)
           | Some c \<Rightarrow>
               (case duty_lgpio d of
                  Inl e \<Rightarrow> (Some e, w1)
                | Inr x \<Rightarrow> emit (tx_pwm c p f x) (w1\<lparr>heap := (heap w1)(r := LgpioPWM h p f d True)\<rparr>)))
      | SimulatedPWM p f _ \<Rightarrow>
          emit (print (PWM_starting p f d)) (w\<lparr>heap := (heap w)(r := SimulatedPWM p f d)\<rparr>)
      | RPiPWM p f _ \<Rightarrow>
          emit (RPI_PWM_start r d) (w\<lparr>heap := (heap w)(r := RPiPWM p f d)\<rparr>))"

definition pwm_ChangeDutyCycle :: "nat \<Rightarrow> rat \<Rightarrow> world proc" where
  "pwm_ChangeDutyCycle r d w =
     (case heap w r of
        LgpioPWM h p f _ run \<Rightarrow>
          (let w1 = w\<lparr>heap := (heap w)(r := LgpioPWM h p f d run)\<rparr> in
           case (run, h) of
             (True, Some c) \<Rightarrow>
               (case duty_lgpio d of
                  Inl e \<Rightarrow> (Some e, w1)
                | Inr x \<Rightarrow> emit (tx_pwm c p f x) w1)
           | _ \<Rightarrow> (None, w1))
      | SimulatedPWM p f _ \<Rightarrow>
          emit (print (PWM_changed p d)) (w\<lparr>heap := (heap w)(r := SimulatedPWM p f d)\<rparr>)
      | RPiPWM p f _ \<Rightarrow>
          emit (RPI_PWM_ChangeDutyCycle r d) (w\<lparr>heap := (heap w)(r := RPiPWM p f d)\<rparr>))"

definition pwm_stop :: "nat \<Rightarrow> world proc" where
  "pwm_stop r w =
     (case heap w r of
        LgpioPWM h p f d run \<Rightarrow>
          (let w1 = w\<lparr>heap := (heap w)(r := LgpioPWM h p f d False)\<rparr> in
           case h of
             None \<Rightarrow> (None, w1)
           | Some c \<Rightarrow> emit (tx_pwm c p 0 0) w1)
      | SimulatedPWM p f d \<Rightarrow> emit (print (PWM_stopping p)) w
      | RPiPWM p f d \<Rightarrow> emit (RPI_PWM_stop r) w)"

text \<open>
  \<^verbatim>\<open>GPIO.PWM\<close> builds the object and returns it. Nothing is put into
  \<^verbatim>\<open>_pwm_instances\<close>.
\<close>

definition GPIO_PWM :: "pin \<Rightarrow> int \<Rightarrow> world \<Rightarrow> nat \<times> world" where
  "GPIO_PWM p frequency w =
     (let r = next_ref w; w1 = w\<lparr>next_ref := Suc r\<rparr> in
      if PI5_AVAILABLE w then
        (r, w1\<lparr>heap := (heap w)(r := LgpioPWM (handle w) p frequency 0 False)\<rparr>)
      else if RPI_GPIO_AVAILABLE w then
        (r, w1\<lparr>heap := (heap w)(r := RPiPWM p frequency 0),
                effects := RPI_PWM r p frequency # effects w\<rparr>)
      else
        (r, w1\<lparr>heap := (heap w)(r := SimulatedPWM p frequency 0)\<rparr>))"

definition GPIO_cleanup :: "world proc" where
  "GPIO_cleanup w =
     (case (PI5_AVAILABLE w, handle w) of
        (True, Some h) \<Rightarrow>
          (case block (map (\<lambda>(k, r). pwm_stop r) (pwm_instances w)) w of
             (Some e, w1) \<Rightarrow> (Some e, w1)
           | (None, w1) \<Rightarrow>
               emit (gpiochip_close h) (w1\<lparr>pwm_instances := [], handle := None\<rparr>))
      | _ \<Rightarrow> if_then (RPI_GPIO_AVAILABLE w) (emit RPI_cleanup) w)"

text \<open>
  \<^verbatim>\<open>time.sleep\<close> converts the duration to the platform's clock type first: one whose
  magnitude is beyond what that type holds (\<open>max_sleep\<close>, a parameter of the platform)
  raises \<^verbatim>\<open>OverflowError\<close>; then a negative one raises \<^verbatim>\<open>ValueError\<close>.
\<close>

definition time_sleep :: "pyfloat \<Rightarrow> world proc" where
  "time_sleep d w =
     (case d of
        Finite x \<Rightarrow>
          (if max_sleep w < \<bar>x\<bar> then (Some OverflowError, w)
           else if x < 0 then (Some ValueError, w)
           else emit (sleep x) w)
      | PosInf \<Rightarrow> (Some OverflowError, w)
      | NegInf \<Rightarrow> (Some OverflowError, w))"

subsection \<open>Reading the calls made so far\<close>

text \<open>The level a pin was last driven to, read off the calls made so far.\<close>

fun written :: "effect \<Rightarrow> (pin \<times> int) option" where
  "written (gpio_write h p v) = Some (p, v)"
| "written (RPI_output p v) = Some (p, v)"
| "written (print (Setting_pin p v)) = Some (p, v)"
| "written _ = None"

fun pin_level :: "effect list \<Rightarrow> pin \<Rightarrow> int option" where
  "pin_level [] p = None"
| "pin_level (e # es) p =
     (case written e of
        Some (q, v) \<Rightarrow> (if q = p then Some v else pin_level es p)
      | None \<Rightarrow> pin_level es p)"

text \<open>The call \<^verbatim>\<open>GPIO.output\<close> makes in a given world.\<close>

definition write_effect :: "world \<Rightarrow> pin \<Rightarrow> int \<Rightarrow> effect" where
  "write_effect w p v =
     (case (PI5_AVAILABLE w, handle w) of
        (True, Some h) \<Rightarrow> gpio_write h p v
      | _ \<Rightarrow> (if RPI_GPIO_AVAILABLE w then RPI_output p v else print (Setting_pin p v)))"

text \<open>The pin writes made so far, oldest first.\<close>

definition writes_of :: "world \<Rightarrow> (pin \<times> int) list" where
  "writes_of w = rev (List.map_filter written (effects w))"

text \<open>The pauses made so far, oldest first.\<close>

fun slept :: "effect \<Rightarrow> rat option" where
  "slept (sleep t) = Some t"
| "slept _ = None"

definition sleeps_of :: "world \<Rightarrow> rat list" where
  "sleeps_of w = rev (List.map_filter slept (effects w))"

text \<open>Calls that neither write a pin nor pause.\<close>

definition quiet :: "effect list \<Rightarrow> bool" where
  "quiet xs = (\<forall>x \<in> set xs. written x = None \<and> slept x = None)"

text \<open>The pins \<^verbatim>\<open>GPIO.setup\<close> was called on with a library behind it, oldest first.\<close>

fun set_up :: "effect \<Rightarrow> pin option" where
  "set_up (gpio_claim_output h p) = Some p"
| "set_up (gpio_claim_input h p) = Some p"
| "set_up (RPI_setup p d) = Some p"
| "set_up _ = None"

definition setups_of :: "world \<Rightarrow> pin list" where
  "setups_of w = rev (List.map_filter set_up (effects w))"

section \<open>The stepper driver\<close>

record stepper =
  pins :: "pin list"
  steps_per_rev :: int
  current_step :: int

definition step_sequence :: "int list list" where
  "step_sequence = [[1, 0, 0, 0], [0, 1, 0, 0], [0, 0, 1, 0], [0, 0, 0, 1]]"

text \<open>A procedure of the backend, run by a method of an object that owns other state.\<close>

definition on_world :: "world proc \<Rightarrow> ('a \<times> world) proc" where
  "on_world p = (\<lambda>(a, w). case p w of (e, w') \<Rightarrow> (e, (a, w')))"

definition StepperMotor_init :: "pin \<Rightarrow> pin \<Rightarrow> pin \<Rightarrow> pin \<Rightarrow> int \<Rightarrow> world \<Rightarrow> error option \<times> stepper \<times> world" where
  "StepperMotor_init in1 in2 in3 in4 spr w =
     (let self = \<lparr>pins = [in1, in2, in3, in4], steps_per_rev = spr, current_step = 0\<rparr> in
      case block ([GPIO_setmode BCM, GPIO_setwarnings False] @
                  concat (map (\<lambda>p. [GPIO_setup p OUT, GPIO_output p LOW]) (pins self))) w of
        (e, w') \<Rightarrow> (e, self, w'))"

text \<open>\<^verbatim>\<open>GPIO.output(pin, sequence[i])\<close>; an index past the end raises.\<close>

definition output_indexed :: "int list \<Rightarrow> nat \<times> pin \<Rightarrow> world proc" where
  "output_indexed sequence = (\<lambda>(i, p).
     if i < length sequence then GPIO_output p (sequence ! i) else raise IndexError)"

definition step_motor :: "int \<Rightarrow> pyfloat \<Rightarrow> (stepper \<times> world) proc" where
  "step_motor direction delay = (\<lambda>(self, w).
     let self' = (if direction > 0
                  then self\<lparr>current_step := (current_step self + 1) mod 4\<rparr>
                  else self\<lparr>current_step := (current_step self - 1) mod 4\<rparr>);
         sequence = step_sequence ! nat (current_step self')
     in on_world (block (map (output_indexed sequence) (enumerate 0 (pins self')) @
                         [time_sleep delay])) (self', w))"

definition stepper_stop :: "stepper \<Rightarrow> world proc" where
  "stepper_stop self = block (map (\<lambda>p. GPIO_output p LOW) (pins self))"

text \<open>
  \<^verbatim>\<open>int((abs(degrees) / 360) * self.steps_per_rev)\<close>: a true division (one rounding,
  \<^verbatim>\<open>OverflowError\<close> when the quotient of two ints is too large for a float), the
  product with \<^verbatim>\<open>steps_per_rev\<close> as a float, and the truncation of \<^verbatim>\<open>int\<close>.
\<close>

definition rotate_steps :: "rat \<Rightarrow> int \<Rightarrow> error + int" where
  "rotate_steps degrees spr =
     (case to_double (\<bar>degrees\<bar> / 360) of
        None \<Rightarrow> Inl OverflowError
      | Some q \<Rightarrow>
          (case to_double (of_int spr) of
             None \<Rightarrow> Inl OverflowError
           | Some s \<Rightarrow>
               (case to_double (q * s) of
                  None \<Rightarrow> Inl OverflowError
                | Some x \<Rightarrow> Inr (py_int x))))"

text \<open>\<^verbatim>\<open>1.0 / speed\<close>.\<close>

definition rotate_delay :: "rat \<Rightarrow> error + pyfloat" where
  "rotate_delay speed =
     (case to_double speed of
        None \<Rightarrow> Inl OverflowError
      | Some s \<Rightarrow>
          (if s = 0 then Inl ZeroDivisionError
           else case to_double (1 / s) of
                  Some x \<Rightarrow> Inr (Finite x)
                | None \<Rightarrow> Inr (if 0 < s then PosInf else NegInf)))"

definition rotate_degrees :: "rat \<Rightarrow> rat \<Rightarrow> (stepper \<times> world) proc" where
  "rotate_degrees degrees speed = (\<lambda>(self, w).
     case rotate_steps degrees (steps_per_rev self) of
       Inl e \<Rightarrow> (Some e, (self, w))
     | Inr steps \<Rightarrow>
         (let direction = (if degrees > 0 then 1 else - 1) in
          case rotate_delay speed of
            Inl e \<Rightarrow> (Some e, (self, w))
          | Inr delay \<Rightarrow> block (replicate (nat steps) (step_motor direction delay)) (self, w)))"

text \<open>
  The step count as the specification words it, in exact arithmetic:
  \<open>round(|degrees| / 360 * steps_per_revolution)\<close>.
\<close>

definition spec_step_count :: "rat \<Rightarrow> int \<Rightarrow> int" where
  "spec_step_count degrees spr = round (\<bar>degrees\<bar> / 360 * of_int spr)"

section \<open>The dual-channel motor driver\<close>

text \<open>
  \<^verbatim>\<open>motor_control.py\<close> imports \<^verbatim>\<open>RPi.GPIO\<close> under the name \<^verbatim>\<open>GPIO\<close>. The name is bound
  here to the class \<^verbatim>\<open>GPIO\<close> of \<^verbatim>\<open>gpio_compat.py\<close>, which has the same interface and hands
  every call to \<^verbatim>\<open>RPi.GPIO\<close> where that is the only library present: in a world with
  \<open>RPI_GPIO_AVAILABLE\<close> and without \<open>PI5_AVAILABLE\<close> the drivers below are the program
  as it is shipped, in every other world they are the same drivers run over the
  compatibility layer. \<open>pwm_b\<close> is \<open>None\<close> while the attribute does not exist.
\<close>

record controller =
  ena_pin :: pin
  in1_pin :: pin
  in2_pin :: pin
  in3_pin :: pin
  in4_pin :: pin
  enb_pin :: pin
  pwm_a :: nat
  pwm_b :: "nat option"

text \<open>A method call on \<^verbatim>\<open>self.pwm_b\<close>; a missing attribute raises.\<close>

definition on_pwm_b :: "controller \<Rightarrow> (nat \<Rightarrow> world proc) \<Rightarrow> world proc" where
  "on_pwm_b self m = (case pwm_b self of None \<Rightarrow> raise AttributeError | Some r \<Rightarrow> m r)"

definition motor_a_forward :: "controller \<Rightarrow> rat \<Rightarrow> world proc" where
  "motor_a_forward self speed = block
     [GPIO_output (in1_pin self) HIGH,
      GPIO_output (in2_pin self) LOW,
      pwm_ChangeDutyCycle (pwm_a self) speed]"

definition motor_a_backward :: "controller \<Rightarrow> rat \<Rightarrow> world proc" where
  "motor_a_backward self speed = block
     [GPIO_output (in1_pin self) LOW,
      GPIO_output (in2_pin self) HIGH,
      pwm_ChangeDutyCycle (pwm_a self) speed]"

definition motor_b_forward :: "controller \<Rightarrow> rat \<Rightarrow> world proc" where
  "motor_b_forward self speed =
     if_then (truthy (in3_pin self) \<and> truthy (in4_pin self) \<and> truthy (enb_pin self))
       (block
          [GPIO_output (in3_pin self) HIGH,
           GPIO_output (in4_pin self) LOW,
           on_pwm_b self (\<lambda>r. pwm_ChangeDutyCycle r speed)])"

definition motor_b_backward :: "controller \<Rightarrow> rat \<Rightarrow> world proc" where
  "motor_b_backward self speed =
     if_then (truthy (in3_pin self) \<and> truthy (in4_pin self) \<and> truthy (enb_pin self))
       (block
          [GPIO_output (in3_pin self) LOW,
           GPIO_output (in4_pin self) HIGH,
           on_pwm_b self (\<lambda>r. pwm_ChangeDutyCycle r speed)])"

definition stop_motor_a :: "controller \<Rightarrow> world proc" where
  "stop_motor_a self = block
     [GPIO_output (in1_pin self) LOW,
      GPIO_output (in2_pin self) LOW,
      pwm_ChangeDutyCycle (pwm_a self) 0]"

definition stop_motor_b :: "controller \<Rightarrow> world proc" where
  "stop_motor_b self =
     if_then (truthy (in3_pin self) \<and> truthy (in4_pin self))
       (block
          [GPIO_output (in3_pin self) LOW,
           GPIO_output (in4_pin self) LOW,
           if_then (truthy (enb_pin self)) (on_pwm_b self (\<lambda>r. pwm_ChangeDutyCycle r 0))])"

definition stop_all :: "controller \<Rightarrow> world proc" where
  "stop_all self = block [stop_motor_a self, stop_motor_b self]"

definition cleanup :: "controller \<Rightarrow> world proc" where
  "cleanup self = block
     [stop_all self,
      pwm_stop (pwm_a self),
      (case pwm_b self of None \<Rightarrow> block [] | Some r \<Rightarrow> pwm_stop r),
      GPIO_cleanup]"

definition L298NMotorController_init ::
  "pin \<Rightarrow> pin \<Rightarrow> pin \<Rightarrow> pin \<Rightarrow> pin \<Rightarrow> pin \<Rightarrow> world \<Rightarrow> (error + controller) \<times> world" where
  "L298NMotorController_init ena in1 in2 in3 in4 enb w =
     (case block
             [GPIO_setmode BCM,
              GPIO_setwarnings False,
              GPIO_setup ena OUT,
              GPIO_setup in1 OUT,
              GPIO_setup in2 OUT,
              if_then (truthy in3 \<and> truthy in4 \<and> truthy enb)
                (block [GPIO_setup in3 OUT, GPIO_setup in4 OUT, GPIO_setup enb OUT])] w of
        (Some e, w1) \<Rightarrow> (Inl e, w1)
      | (None, w1) \<Rightarrow>
          (case GPIO_PWM ena 1000 w1 of
             (a, w2) \<Rightarrow>
               (case pwm_start a 0 w2 of
                  (Some e, w3) \<Rightarrow> (Inl e, w3)
                | (None, w3) \<Rightarrow>
                    (case (if truthy enb
                           then (case GPIO_PWM enb 1000 w3 of
                                   (b, w4) \<Rightarrow> (case pwm_start b 0 w4 of (e, w5) \<Rightarrow> (e, Some b, w5)))
                           else (None, None, w3)) of
                       (Some e, b, w5) \<Rightarrow> (Inl e, w5)
                     | (None, b, w5) \<Rightarrow>
                         (let self = \<lparr>ena_pin = ena, in1_pin = in1, in2_pin = in2,
                                      in3_pin = in3, in4_pin = in4, enb_pin = enb,
                                      pwm_a = a, pwm_b = b\<rparr> in
                          case stop_all self w5 of
                            (Some e, w6) \<Rightarrow> (Inl e, w6)
                          | (None, w6) \<Rightarrow> (Inr self, w6))))))"

section \<open>The drive coordinator\<close>

text \<open>
  The constructor of \<^verbatim>\<open>TankController\<close> reads the pin maps from YAML files; the model
  takes them as already loaded: the six pins of each bank (\<^verbatim>\<open>ena, in1, in2, in3, in4,
  enb\<close>), the four of the gimbal and its \<^verbatim>\<open>steps_per_revolution\<close>.
\<close>

record tank =
  left_controller :: controller
  right_controller :: controller
  gimbal :: stepper

type_synonym bank_pins = "pin \<times> pin \<times> pin \<times> pin \<times> pin \<times> pin"

definition TankController_init ::
  "bank_pins \<Rightarrow> bank_pins \<Rightarrow> pin \<times> pin \<times> pin \<times> pin \<Rightarrow> int \<Rightarrow> world \<Rightarrow> (error + tank) \<times> world" where
  "TankController_init left_config right_config gimbal_config spr w =
     (case left_config of (lena, lin1, lin2, lin3, lin4, lenb) \<Rightarrow>
      case right_config of (rena, rin1, rin2, rin3, rin4, renb) \<Rightarrow>
      case gimbal_config of (g1, g2, g3, g4) \<Rightarrow>
      case L298NMotorController_init lena lin1 lin2 lin3 lin4 lenb w of
        (Inl e, w1) \<Rightarrow> (Inl e, w1)
      | (Inr l, w1) \<Rightarrow>
          (case L298NMotorController_init rena rin1 rin2 rin3 rin4 renb w1 of
             (Inl e, w2) \<Rightarrow> (Inl e, w2)
           | (Inr r, w2) \<Rightarrow>
               (case StepperMotor_init g1 g2 g3 g4 spr w2 of
                  (Some e, g, w3) \<Rightarrow> (Inl e, w3)
                | (None, g, w3) \<Rightarrow>
                    (Inr \<lparr>left_controller = l, right_controller = r, gimbal = g\<rparr>, w3))))"

definition tank_stop_all :: "tank \<Rightarrow> world proc" where
  "tank_stop_all self = block [stop_all (left_controller self), stop_all (right_controller self)]"

definition move_forward :: "tank \<Rightarrow> rat \<Rightarrow> rat option \<Rightarrow> world proc" where
  "move_forward self speed duration = block
     [motor_a_forward (left_controller self) speed,
      motor_b_forward (left_controller self) speed,
      motor_a_forward (right_controller self) speed,
      motor_b_forward (right_controller self) speed,
      (case duration of
         None \<Rightarrow> block []
       | Some d \<Rightarrow> if_then (d \<noteq> 0) (block [time_sleep (Finite d), tank_stop_all self]))]"

definition move_backward :: "tank \<Rightarrow> rat \<Rightarrow> rat option \<Rightarrow> world proc" where
  "move_backward self speed duration = block
     [motor_a_backward (left_controller self) speed,
      motor_b_backward (left_controller self) speed,
      motor_a_backward (right_controller self) speed,
      motor_b_backward (right_controller self) speed,
      (case duration of
         None \<Rightarrow> block []
       | Some d \<Rightarrow> if_then (d \<noteq> 0) (block [time_sleep (Finite d), tank_stop_all self]))]"

definition turn_left :: "tank \<Rightarrow> rat \<Rightarrow> rat option \<Rightarrow> world proc" where
  "turn_left self speed duration = block
     [motor_a_backward (left_controller self) speed,
      motor_b_backward (left_controller self) speed,
      motor_a_forward (right_controller self) speed,
      motor_b_forward (right_controller self) speed,
      (case duration of
         None \<Rightarrow> block []
       | Some d \<Rightarrow> if_then (d \<noteq> 0) (block [time_sleep (Finite d), tank_stop_all self]))]"

definition turn_right :: "tank \<Rightarrow> rat \<Rightarrow> rat option \<Rightarrow> world proc" where
  "turn_right self speed duration = block
     [motor_a_forward (left_controller self) speed,
      motor_b_forward (left_controller self) speed,
      motor_a_backward (right_controller self) speed,
      motor_b_backward (right_controller self) speed,
      (case duration of
         None \<Rightarrow> block []
       | Some d \<Rightarrow> if_then (d \<noteq> 0) (block [time_sleep (Finite d), tank_stop_all self]))]"

definition pan_camera :: "rat \<Rightarrow> (tank \<times> world) proc" where
  "pan_camera degrees = (\<lambda>(self, w).
     case rotate_degrees degrees 500 (gimbal self, w) of
       (e, (g, w')) \<Rightarrow> (e, (self\<lparr>gimbal := g\<rparr>, w')))"

definition tank_cleanup :: "tank \<Rightarrow> world proc" where
  "tank_cleanup self = block
     [cleanup (left_controller self),
      cleanup (right_controller self),
      stepper_stop (gimbal self),
      GPIO_cleanup]"

section \<open>Calls on one channel and the history of its direction pins\<close>

text \<open>
  A call on one motor channel; \<open>call_a\<close> and \<open>call_b\<close> send it to the method of
  channel A or of channel B.
\<close>

datatype channel_call = Call_forward rat | Call_backward rat | Call_stop

fun call_a :: "controller \<Rightarrow> channel_call \<Rightarrow> world proc" where
  "call_a self (Call_forward speed) = motor_a_forward self speed"
| "call_a self (Call_backward speed) = motor_a_backward self speed"
| "call_a self Call_stop = stop_motor_a self"

fun call_b :: "controller \<Rightarrow> channel_call \<Rightarrow> world proc" where
  "call_b self (Call_forward speed) = motor_b_forward self speed"
| "call_b self (Call_backward speed) = motor_b_backward self speed"
| "call_b self Call_stop = stop_motor_b self"

text \<open>
  An observable instant is a point in the list of calls made on the backend: a suffix
  of the newest-first list. Two pins are asserted together at an instant when both
  were last driven \<^verbatim>\<open>HIGH\<close>.
\<close>

definition asserted_together :: "pin \<Rightarrow> pin \<Rightarrow> effect list \<Rightarrow> bool" where
  "asserted_together p q es = (pin_level es p = Some HIGH \<and> pin_level es q = Some HIGH)"

text \<open>
  At every instant of the history at which \<open>p\<close> and \<open>q\<close> are asserted together, the
  call just made is a write of \<^verbatim>\<open>HIGH\<close> to \<open>p\<close> while \<open>q\<close> was still \<^verbatim>\<open>HIGH\<close>.
\<close>

fun reversal_glitch_only :: "pin \<Rightarrow> pin \<Rightarrow> effect list \<Rightarrow> bool" where
  "reversal_glitch_only p q [] = True"
| "reversal_glitch_only p q (e # es) =
     ((asserted_together p q (e # es) \<longrightarrow>
         written e = Some (p, HIGH) \<and> pin_level es q = Some HIGH)
      \<and> reversal_glitch_only p q es)"

text \<open>
  A valid history: the two pins are not asserted together now, and were so in the
  past only at such instants.
\<close>

definition valid_history :: "pin \<Rightarrow> pin \<Rightarrow> effect list \<Rightarrow> bool" where
  "valid_history p q es = (\<not> asserted_together p q es \<and> reversal_glitch_only p q es)"

text \<open>A procedure that writes no pin.\<close>

definition silent :: "world proc \<Rightarrow> bool" where
  "silent m = (\<forall>w e w'. m w = (e, w') \<longrightarrow>
     (\<exists>xs. effects w' = xs @ effects w \<and> (\<forall>x \<in> set xs. written x = None)))"

section \<open>The state of a motor channel\<close>

text \<open>
  The state of a channel as the specification's data model has it: a direction, read
  off the levels its two direction pins were last driven to, and the duty stored in
  its PWM object. Two pins both \<^verbatim>\<open>HIGH\<close>, or a pin never written, give no direction;
  a channel B without a PWM object has no duty.
\<close>

datatype direction = Forward | Backward | Stopped

definition direction_of :: "world \<Rightarrow> pin \<Rightarrow> pin \<Rightarrow> direction option" where
  "direction_of w p q =
     (case (pin_level (effects w) p, pin_level (effects w) q) of
        (Some a, Some b) \<Rightarrow>
          (if a = HIGH \<and> b = LOW then Some Forward
           else if a = LOW \<and> b = HIGH then Some Backward
           else if a = LOW \<and> b = LOW then Some Stopped
           else None)
      | _ \<Rightarrow> None)"

definition channel_a :: "controller \<Rightarrow> world \<Rightarrow> direction option \<times> rat option" where
  "channel_a c w =
     (direction_of w (in1_pin c) (in2_pin c), Some (duty_cycle (heap w (pwm_a c))))"

definition channel_b :: "controller \<Rightarrow> world \<Rightarrow> direction option \<times> rat option" where
  "channel_b c w =
     (direction_of w (in3_pin c) (in4_pin c),
      map_option (\<lambda>r. duty_cycle (heap w r)) (pwm_b c))"

text \<open>Two pin writes and a duty change, the body of every channel method of a wired channel.\<close>

definition drive :: "pin \<Rightarrow> pin \<Rightarrow> int \<Rightarrow> int \<Rightarrow> nat \<Rightarrow> rat \<Rightarrow> world proc" where
  "drive p q u v r d = block [GPIO_output p u, GPIO_output q v, pwm_ChangeDutyCycle r d]"

text \<open>The four motion calls of the coordinator.\<close>

datatype motion = Move_forward | Move_backward | Turn_left | Turn_right

fun motion_call :: "tank \<Rightarrow> motion \<Rightarrow> rat \<Rightarrow> rat option \<Rightarrow> world proc" where
  "motion_call self Move_forward speed duration = move_forward self speed duration"
| "motion_call self Move_backward speed duration = move_backward self speed duration"
| "motion_call self Turn_left speed duration = turn_left self speed duration"
| "motion_call self Turn_right speed duration = turn_right self speed duration"

text \<open>The levels a motion call writes to the direction pins of the left and of the right bank.\<close>

fun motion_levels :: "motion \<Rightarrow> (int \<times> int) \<times> (int \<times> int)" where
  "motion_levels Move_forward = ((HIGH, LOW), (HIGH, LOW))"
| "motion_levels Move_backward = ((LOW, HIGH), (LOW, HIGH))"
| "motion_levels Turn_left = ((LOW, HIGH), (HIGH, LOW))"
| "motion_levels Turn_right = ((HIGH, LOW), (LOW, HIGH))"

text \<open>The direction a pair of levels on the two direction pins stands for.\<close>

definition level_direction :: "int \<times> int \<Rightarrow> direction option" where
  "level_direction uv =
     (if uv = (HIGH, LOW) then Some Forward
      else if uv = (LOW, HIGH) then Some Backward
      else if uv = (LOW, LOW) then Some Stopped
      else None)"

text \<open>A channel B that is wired, with its PWM object.\<close>

definition wired :: "controller \<Rightarrow> nat \<Rightarrow> bool" where
  "wired c rb = (truthy (in3_pin c) \<and> truthy (in4_pin c) \<and> truthy (enb_pin c) \<and> pwm_b c = Some rb)"

text \<open>
  A tank with both channels of both banks wired, eight different direction pins and
  four different PWM objects.
\<close>

definition tank_wired :: "tank \<Rightarrow> nat \<Rightarrow> nat \<Rightarrow> bool" where
  "tank_wired t rl rr =
     (wired (left_controller t) rl \<and> wired (right_controller t) rr \<and>
      distinct [in1_pin (left_controller t), in2_pin (left_controller t),
                in3_pin (left_controller t), in4_pin (left_controller t),
                in1_pin (right_controller t), in2_pin (right_controller t),
                in3_pin (right_controller t), in4_pin (right_controller t)] \<and>
      distinct [pwm_a (left_controller t), rl, pwm_a (right_controller t), rr])"

section \<open>Release\<close>

text \<open>A PWM object of the external \<^verbatim>\<open>RPi.GPIO\<close> library.\<close>

fun is_legacy :: "pwm \<Rightarrow> bool" where
  "is_legacy (RPiPWM p f d) = True"
| "is_legacy _ = False"

text \<open>
  A PWM object whose \<^verbatim>\<open>ChangeDutyCycle\<close> makes no call on \<^verbatim>\<open>lgpio\<close>: every one but an
  \<^verbatim>\<open>LgpioPWM\<close> that is running.
\<close>

fun stopped :: "pwm \<Rightarrow> bool" where
  "stopped (LgpioPWM h p f d run) = (\<not> run)"
| "stopped (SimulatedPWM p f d) = True"
| "stopped (RPiPWM p f d) = True"

text \<open>The PWM objects a tank holds.\<close>

definition controller_pwms :: "controller \<Rightarrow> nat list" where
  "controller_pwms c = pwm_a c # (case pwm_b c of None \<Rightarrow> [] | Some r \<Rightarrow> [r])"

definition tank_pwms :: "tank \<Rightarrow> nat list" where
  "tank_pwms t = controller_pwms (left_controller t) @ controller_pwms (right_controller t)"

text \<open>
  The state \<^verbatim>\<open>cleanup\<close> leaves: where \<^verbatim>\<open>lgpio\<close> is present its handle is closed, and the
  tank's PWM objects are stopped.
\<close>

definition released :: "tank \<Rightarrow> world \<Rightarrow> bool" where
  "released t w =
     ((PI5_AVAILABLE w \<longrightarrow> handle w = None) \<and>
      list_all (\<lambda>r. stopped (heap w r)) (tank_pwms t))"

text \<open>
  \<^verbatim>\<open>RPi.GPIO\<close> is behind the tank: the backend hands pin writes to it, or one of the
  tank's PWM objects is that library's.
\<close>

definition legacy_backend :: "tank \<Rightarrow> world \<Rightarrow> bool" where
  "legacy_backend t w =
     (RPI_GPIO_AVAILABLE w \<or> list_ex (\<lambda>r. is_legacy (heap w r)) (tank_pwms t))"

text \<open>
  What a call after release may still do in the outside world. It may print a line or
  pause; and with \<^verbatim>\<open>RPi.GPIO\<close> behind the tank it may hand a pin write or a duty change
  to that library, as it does before release. Every other call on a library, and so
  every call on \<^verbatim>\<open>lgpio\<close>, is excluded.
\<close>

fun benign :: "effect \<Rightarrow> bool" where
  "benign (print m) = True"
| "benign (sleep t) = True"
| "benign _ = False"

fun handed_on :: "effect \<Rightarrow> bool" where
  "handed_on (RPI_output p v) = True"
| "handed_on (RPI_PWM_ChangeDutyCycle r d) = True"
| "handed_on _ = False"

definition after_release_effect :: "bool \<Rightarrow> effect \<Rightarrow> bool" where
  "after_release_effect legacy x = (benign x \<or> (legacy \<and> handed_on x))"

text \<open>
  A method of the coordinator that assigns none of its attributes, and a method of the
  stepper run on the coordinator's gimbal.
\<close>

definition on_self :: "(tank \<Rightarrow> world proc) \<Rightarrow> (tank \<times> world) proc" where
  "on_self m = (\<lambda>(self, w). case m self w of (e, w') \<Rightarrow> (e, (self, w')))"

definition on_gimbal :: "(stepper \<times> world) proc \<Rightarrow> (tank \<times> world) proc" where
  "on_gimbal m = (\<lambda>(self, w).
     case m (gimbal self, w) of (e, (g, w')) \<Rightarrow> (e, (self\<lparr>gimbal := g\<rparr>, w')))"

text \<open>
  The public calls on a tank: the four motions with their optional duration, stop, pan,
  the channel methods of each bank, and the methods of the gimbal's stepper.
\<close>

datatype tank_call =
    Motion motion rat "rat option"
  | Tank_stop_all
  | Pan rat
  | Left_a channel_call
  | Left_b channel_call
  | Right_a channel_call
  | Right_b channel_call
  | Gimbal_step int rat
  | Gimbal_rotate rat rat
  | Gimbal_stop

fun perform :: "tank_call \<Rightarrow> (tank \<times> world) proc" where
  "perform (Motion m speed duration) = on_self (\<lambda>self. motion_call self m speed duration)"
| "perform Tank_stop_all = on_self tank_stop_all"
| "perform (Pan degrees) = pan_camera degrees"
| "perform (Left_a call) = on_self (\<lambda>self. call_a (left_controller self) call)"
| "perform (Left_b call) = on_self (\<lambda>self. call_b (left_controller self) call)"
| "perform (Right_a call) = on_self (\<lambda>self. call_a (right_controller self) call)"
| "perform (Right_b call) = on_self (\<lambda>self. call_b (right_controller self) call)"
| "perform (Gimbal_step direction delay) = on_gimbal (step_motor direction (Finite delay))"
| "perform (Gimbal_rotate degrees speed) = on_gimbal (rotate_degrees degrees speed)"
| "perform Gimbal_stop = on_self (\<lambda>self. stepper_stop (gimbal self))"

text \<open>
  Arguments with which a call raises whether or not the tank was released are left
  aside: a pause that is negative or longer than the platform can sleep, and an angle or
  a stepping speed whose step count or pause cannot be computed.
\<close>

definition can_rotate :: "stepper \<Rightarrow> world \<Rightarrow> rat \<Rightarrow> rat \<Rightarrow> bool" where
  "can_rotate s w degrees speed =
     (0 < speed \<and>
      (case rotate_steps degrees (steps_per_rev s) of
         Inl e \<Rightarrow> False
       | Inr n \<Rightarrow>
           (case rotate_delay speed of
              Inr (Finite t) \<Rightarrow> t \<le> max_sleep w
            | _ \<Rightarrow> False)))"

fun admissible :: "tank \<Rightarrow> world \<Rightarrow> tank_call \<Rightarrow> bool" where
  "admissible t w (Motion m speed duration) =
     (case duration of None \<Rightarrow> True | Some d \<Rightarrow> 0 \<le> d \<and> d \<le> max_sleep w)"
| "admissible t w (Pan degrees) = can_rotate (gimbal t) w degrees 500"
| "admissible t w (Gimbal_step direction delay) = (0 \<le> delay \<and> delay \<le> max_sleep w)"
| "admissible t w (Gimbal_rotate degrees speed) = can_rotate (gimbal t) w degrees speed"
| "admissible t w _ = True"

text \<open>
  A world after release in which the platform can sleep for \<open>b\<close>, and in which
  \<^verbatim>\<open>RPi.GPIO\<close> is behind the tank only if \<open>legacy\<close> says so.
\<close>

definition kept :: "tank \<Rightarrow> bool \<Rightarrow> rat \<Rightarrow> world \<Rightarrow> bool" where
  "kept t legacy b w =
     (released t w \<and> (legacy_backend t w \<longrightarrow> legacy) \<and> max_sleep w = b)"

text \<open>
  A procedure that, run in such a world, returns without raising, leaves such a world
  and has made no call but those a call after release may make.
\<close>

definition harmless :: "tank \<Rightarrow> bool \<Rightarrow> rat \<Rightarrow> world proc \<Rightarrow> bool" where
  "harmless t legacy b m =
     (\<forall>w. kept t legacy b w \<longrightarrow>
        (\<exists>w' xs. m w = (None, w') \<and> kept t legacy b w' \<and> effects w' = xs @ effects w \<and>
           list_all (after_release_effect legacy) xs))"

text \<open>The same for a method of the stepper, which keeps its pins and its step count.\<close>

definition harmless_stepper :: "tank \<Rightarrow> bool \<Rightarrow> rat \<Rightarrow> stepper \<Rightarrow> (stepper \<times> world) proc \<Rightarrow> bool" where
  "harmless_stepper t legacy b s m =
     (\<forall>w. kept t legacy b w \<longrightarrow>
        (\<exists>s' w' xs. m (s, w) = (None, (s', w')) \<and> pins s' = pins s \<and>
           steps_per_rev s' = steps_per_rev s \<and> kept t legacy b w' \<and>
           effects w' = xs @ effects w \<and> list_all (after_release_effect legacy) xs))"

text \<open>
  One world follows another with the platform unchanged, no handle opened, and no PWM
  object set running.
\<close>

definition settled :: "world \<Rightarrow> world \<Rightarrow> bool" where
  "settled w w' =
     (PI5_AVAILABLE w' = PI5_AVAILABLE w \<and> RPI_GPIO_AVAILABLE w' = RPI_GPIO_AVAILABLE w \<and>
      (handle w' = handle w \<or> handle w' = None) \<and>
      (\<forall>r. stopped (heap w r) \<longrightarrow> stopped (heap w' r)))"

definition settles :: "world proc \<Rightarrow> bool" where
  "settles m = (\<forall>w. settled w (snd (m w)))"

definition returns :: "world proc \<Rightarrow> bool" where
  "returns m = (\<forall>w. fst (m w) = None)"

text \<open>A controller as the constructor builds it: \<open>pwm_b\<close> exists when \<^verbatim>\<open>enb\<close> is true.\<close>

definition built :: "controller \<Rightarrow> bool" where
  "built c = (truthy (enb_pin c) \<longrightarrow> pwm_b c \<noteq> None)"

text \<open>A tank as the constructor builds it, in such a world after release.\<close>

definition after_release :: "tank \<Rightarrow> bool \<Rightarrow> rat \<Rightarrow> world \<Rightarrow> bool" where
  "after_release t legacy b w =
     (built (left_controller t) \<and> built (right_controller t) \<and>
      length (pins (gimbal t)) = 4 \<and> kept t legacy b w)"

section \<open>Module state at import\<close>

text \<open>
  The class attributes of \<^verbatim>\<open>GPIO\<close> as the module body sets them, for a platform given
  by the two import probes and its sleep limit. No PWM object exists yet; the store is
  filled with a placeholder.
\<close>

definition fresh_world :: "bool \<Rightarrow> bool \<Rightarrow> rat \<Rightarrow> world" where
  "fresh_world pi5 rpi limit =
     \<lparr>PI5_AVAILABLE = pi5, RPI_GPIO_AVAILABLE = rpi, handle = None, pwm_instances = [],
      heap = (\<lambda>r. SimulatedPWM None 0 0), next_ref = 0, opened = 0, max_sleep = limit,
      effects = []\<rparr>"

section \<open>Binary64 arithmetic\<close>

lemma double_bound_power: "double_bound = 2 ^ 1024"
  by (simp add: double_bound_def)

lemma round_half_even_nonneg: "0 \<le> q \<Longrightarrow> 0 \<le> round_half_even q"
  by (auto simp: round_half_even_def Let_def)

lemma pow2_pos: "0 < pow2 e"
  by (simp add: pow2_def)

lemma fl_nonneg: "0 \<le> x \<Longrightarrow> 0 \<le> fl x"
  by (simp add: fl_def ulp_def round_half_even_nonneg pow2_pos less_imp_le)

text \<open>The rounding error is at most half the spacing, so small values stay finite.\<close>

lemma pow2_powi: "pow2 e = 2 powi e"
  by (simp add: pow2_def power_int_def inverse_eq_divide power_one_over [symmetric] del: power_one_over)

lemma pow2_mono: "a \<le> b \<Longrightarrow> pow2 a \<le> pow2 b"
  unfolding pow2_powi by (rule power_int_increasing) simp_all

lemma ilog2_le:
  assumes "0 < x"
  shows "pow2 (ilog2 x) \<le> x"
proof -
  obtain p q where pq: "quotient_of x = (p, q)" by (cases "quotient_of x")
  then have q: "0 < q" and x: "x = of_int p / of_int q"
    by (auto simp: quotient_of_denom_pos quotient_of_div)
  with assms have p: "0 < p" by (simp add: zero_less_divide_iff)
  define e where "e = bitlen p - bitlen q"
  show ?thesis
  proof (cases "pow2 e \<le> x")
    case True
    then show ?thesis by (simp add: ilog2_def pq e_def Let_def)
  next
    case False
    have "bitlen p \<noteq> 0" using p by (simp add: bitlen_eq_zero_iff)
    with bitlen_nonneg [of p] have b1: "0 \<le> bitlen p - 1" by simp
    from bitlen_bounds [OF p] have "2 ^ nat (bitlen p - 1) \<le> p" by simp
    then have "(of_int (2 ^ nat (bitlen p - 1)) :: rat) \<le> of_int p" by (simp only: of_int_le_iff)
    then have lp: "(2::rat) powi (bitlen p - 1) \<le> of_int p"
      using b1 by (simp add: power_int_def)
    from bitlen_bounds [OF q] have "q < 2 ^ nat (bitlen q)" by simp
    then have "(of_int q :: rat) < of_int (2 ^ nat (bitlen q))" by (simp only: of_int_less_iff)
    then have lq: "(of_int q :: rat) \<le> 2 powi (bitlen q)"
      by (simp add: power_int_def bitlen_nonneg)
    have "e - 1 = (bitlen p - 1) - bitlen q" by (simp add: e_def)
    then have "pow2 (e - 1) = 2 powi ((bitlen p - 1) - bitlen q)" by (simp only: pow2_powi)
    also have "\<dots> = 2 powi (bitlen p - 1) / 2 powi (bitlen q)"
      by (rule power_int_diff) simp
    finally have "pow2 (e - 1) = 2 powi (bitlen p - 1) / 2 powi (bitlen q)" .
    moreover have "2 powi (bitlen p - 1) / 2 powi (bitlen q) \<le> (of_int p :: rat) / of_int q"
      using lp lq q p by (intro frac_le) simp_all
    ultimately have "pow2 (e - 1) \<le> x" by (simp add: x)
    with False show ?thesis by (simp add: ilog2_def pq e_def Let_def)
  qed
qed


lemma round_half_even_error: "\<bar>of_int (round_half_even q) - q\<bar> \<le> 1 / 2"
proof -
  have "of_int \<lfloor>q\<rfloor> \<le> q" "q < of_int \<lfloor>q\<rfloor> + 1" by linarith+
  then show ?thesis
    by (auto simp: round_half_even_def Let_def abs_le_iff)
qed

lemma ulp_le: assumes "x \<noteq> 0" shows "ulp x \<le> max \<bar>x\<bar> 1"
proof -
  have a: "0 < \<bar>x\<bar>" using assms by simp
  have "pow2 (ilog2 \<bar>x\<bar> - 52) \<le> pow2 (ilog2 \<bar>x\<bar>)" by (rule pow2_mono) simp
  also have "\<dots> \<le> \<bar>x\<bar>" by (rule ilog2_le [OF a])
  finally have 1: "pow2 (ilog2 \<bar>x\<bar> - 52) \<le> max \<bar>x\<bar> 1" by simp
  have "pow2 (- 1074) \<le> pow2 0" by (rule pow2_mono) simp
  then have 2: "pow2 (- 1074) \<le> max \<bar>x\<bar> 1" by (simp add: pow2_def)
  have "ulp x = pow2 (ilog2 \<bar>x\<bar> - 52) \<or> ulp x = pow2 (- 1074)"
    by (simp add: ulp_def max_def)
  with 1 2 show ?thesis by auto
qed

lemma fl_error: "\<bar>fl x - x\<bar> \<le> max \<bar>x\<bar> 1 / 2"
proof (cases "x = 0")
  case True
  then show ?thesis by (simp add: fl_def)
next
  case False
  let ?u = "ulp x"
  have u: "0 < ?u" by (simp add: ulp_def pow2_pos)
  have "fl x - x = (of_int (round_half_even (x / ?u)) - x / ?u) * ?u"
    using False u by (simp add: fl_def algebra_simps)
  then have "\<bar>fl x - x\<bar> = \<bar>of_int (round_half_even (x / ?u)) - x / ?u\<bar> * ?u"
    using u by (simp add: abs_mult)
  also have "\<dots> \<le> 1 / 2 * ?u"
    using u round_half_even_error [of "x / ?u"] by (intro mult_right_mono) simp_all
  also have "\<dots> \<le> 1 / 2 * max \<bar>x\<bar> 1"
    using ulp_le [OF False] by (intro mult_left_mono) simp_all
  finally show ?thesis by simp
qed

lemma fl_bound:
  assumes "\<bar>x\<bar> \<le> b" and "1 \<le> b"
  shows "\<bar>fl x\<bar> \<le> 3 / 2 * b"
proof -
  have "\<bar>fl x\<bar> \<le> \<bar>x\<bar> + \<bar>fl x - x\<bar>" by linarith
  also have "\<dots> \<le> b + max \<bar>x\<bar> 1 / 2" using assms(1) fl_error [of x] by linarith
  also have "\<dots> \<le> b + b / 2" using assms by simp
  finally show ?thesis by simp
qed

lemma to_double_small:
  assumes "\<bar>x\<bar> \<le> 2 ^ 1000"
  shows "to_double x = Some (fl x)"
proof -
  from fl_bound [OF assms] have "\<bar>fl x\<bar> \<le> 3 / 2 * 2 ^ 1000" by simp
  also have "\<dots> < 2 ^ 1024" by simp
  finally show ?thesis by (simp add: to_double_def Let_def double_bound_power)
qed

lemma duty_lgpio_total:
  assumes "0 \<le> d" and "d \<le> 100"
  shows "\<exists>x. duty_lgpio d = Inr x"
proof -
  from assms have "\<bar>d\<bar> \<le> 100" by simp
  from fl_bound [OF this] have f: "\<bar>fl d\<bar> \<le> 150" by simp
  have "(100 :: rat) \<le> 2 ^ 1000" by simp
  with assms have 1: "to_double d = Some (fl d)" by (intro to_double_small) simp
  from f have "\<bar>fl d / 100\<bar> \<le> 3 / 2" by simp
  from fl_bound [OF this] have "\<bar>fl (fl d / 100)\<bar> \<le> 9 / 4" by simp
  then have "\<bar>fl (fl d / 100) * 1000000\<bar> \<le> 2250000" by (simp add: abs_mult)
  also have "\<dots> \<le> 2 ^ 1000" by simp
  finally have "\<bar>fl (fl d / 100) * 1000000\<bar> \<le> 2 ^ 1000" .
  from to_double_small [OF this] 1 show ?thesis by (simp add: duty_lgpio_def)
qed

section \<open>Procedures\<close>

lemma block_append:
  "block (ps @ qs) s = (case block ps s of (None, s') \<Rightarrow> block qs s' | (Some e, s') \<Rightarrow> (Some e, s'))"
  by (induction ps arbitrary: s) (auto split: prod.splits option.splits)

lemma block_single: "block [m] s = m s"
  by (cases "m s") (auto split: option.splits)

lemma GPIO_output_emit: "GPIO_output p v w = emit (write_effect w p v) w"
  by (simp add: GPIO_output_def write_effect_def split: option.splits bool.splits)

lemma written_write_effect: "written (write_effect w p v) = Some (p, v)"
  by (simp add: write_effect_def split: option.splits bool.splits)

lemma write_effect_effects: "write_effect (w\<lparr>effects := es\<rparr>) p v = write_effect w p v"
  by (simp add: write_effect_def)

lemma slept_write_effect: "slept (write_effect w p v) = None"
  by (simp add: write_effect_def split: option.splits bool.splits)

lemma sleeps_of_emit:
  "sleeps_of (w\<lparr>effects := e # es\<rparr>) =
     sleeps_of (w\<lparr>effects := es\<rparr>) @ (case slept e of None \<Rightarrow> [] | Some t \<Rightarrow> [t])"
  by (simp add: sleeps_of_def List.map_filter_simps split: option.splits)

lemma writes_of_emit:
  "writes_of (w\<lparr>effects := e # effects w\<rparr>) =
     writes_of w @ (case written e of None \<Rightarrow> [] | Some x \<Rightarrow> [x])"
  by (simp add: writes_of_def List.map_filter_simps split: option.splits)

section \<open>The stepper driver: full-step sequencing\<close>

lemma time_sleep_writes: "time_sleep d w = (e, w') \<Longrightarrow> writes_of w' = writes_of w"
  by (auto simp: time_sleep_def emit_def writes_of_emit split: pyfloat.splits if_splits)

lemma output_pattern:
  "n + length ps \<le> length sq \<Longrightarrow>
   \<exists>w'. block (map (output_indexed sq) (enumerate n ps)) w = (None, w')
      \<and> writes_of w' = writes_of w @ zip ps (drop n sq)"
proof (induction ps arbitrary: n w)
  case Nil
  then show ?case by simp
next
  case (Cons p ps)
  let ?w1 = "w\<lparr>effects := write_effect w p (sq ! n) # effects w\<rparr>"
  from Cons.prems have n: "n < length sq" and "Suc n + length ps \<le> length sq" by simp_all
  from Cons.IH [OF this(2), of ?w1] obtain w' where
    w': "block (map (output_indexed sq) (enumerate (Suc n) ps)) ?w1 = (None, w')"
    "writes_of w' = writes_of ?w1 @ zip ps (drop (Suc n) sq)" by blast
  have "drop n sq = sq ! n # drop (Suc n) sq"
    using n by (simp add: Cons_nth_drop_Suc)
  with w' n show ?case
    by (simp add: output_indexed_def GPIO_output_emit emit_def writes_of_emit written_write_effect)
qed

lemma step_motor_step:
  assumes "length (pins s) = 4" and "step_motor d delay (s, w) = (e, (s', w'))"
  shows "current_step s' = (if d > 0 then (current_step s + 1) mod 4 else (current_step s - 1) mod 4)
     \<and> pins s' = pins s \<and> steps_per_rev s' = steps_per_rev s
     \<and> writes_of w' = writes_of w @ zip (pins s) (step_sequence ! nat (current_step s'))"
proof -
  define k where "k = (if d > 0 then (current_step s + 1) mod 4 else (current_step s - 1) mod 4)"
  define s1 where "s1 = s\<lparr>current_step := k\<rparr>"
  have "0 \<le> k" "k < 4" unfolding k_def by auto
  then have "nat k \<in> {0, 1, 2, 3}" by auto
  then have len: "length (step_sequence ! nat k) = 4"
    by (auto simp: step_sequence_def)
  with assms(1) have "0 + length (pins s) \<le> length (step_sequence ! nat k)" by simp
  from output_pattern [OF this, of w] obtain w1 where
    w1: "block (map (output_indexed (step_sequence ! nat k)) (enumerate 0 (pins s))) w = (None, w1)"
    "writes_of w1 = writes_of w @ zip (pins s) (step_sequence ! nat k)" by auto
  have run: "step_motor d delay (s, w) = (case time_sleep delay w1 of (e, w2) \<Rightarrow> (e, (s1, w2)))"
    using w1(1) by (auto simp: step_motor_def Let_def on_world_def block_append k_def s1_def
        split: prod.splits option.splits)
  obtain e2 w2 where t: "time_sleep delay w1 = (e2, w2)" by (cases "time_sleep delay w1")
  with run assms(2) have "s' = s1" "w' = w2" by simp_all
  with time_sleep_writes [OF t] w1(2) show ?thesis
    by (simp add: s1_def k_def)
qed

lemma StepperMotor_init_stepper:
  "StepperMotor_init in1 in2 in3 in4 spr w = (e, s, w') \<Longrightarrow>
   s = \<lparr>pins = [in1, in2, in3, in4], steps_per_rev = spr, current_step = 0\<rparr>"
  by (auto simp: StepperMotor_init_def Let_def split: prod.splits)

lemma run_steps_invariant:
  "length (pins s) = 4 \<Longrightarrow> current_step s \<in> {0, 1, 2, 3} \<Longrightarrow>
   block (map (\<lambda>(d, t). step_motor d t) calls) (s, w) = (e, (s', w')) \<Longrightarrow>
   pins s' = pins s \<and> current_step s' \<in> {0, 1, 2, 3}"
proof (induction calls arbitrary: s w)
  case Nil
  then show ?case by simp
next
  case (Cons c calls)
  obtain d t where c: "c = (d, t)" by (cases c)
  obtain e1 s1 w1 where s1: "step_motor d t (s, w) = (e1, (s1, w1))"
    by (metis surj_pair)
  from step_motor_step [OF Cons.prems(1) s1]
  have p: "pins s1 = pins s" and k: "current_step s1 \<in> {0, 1, 2, 3}"
    by (auto split: if_splits) 
  show ?case
  proof (cases e1)
    case None
    with Cons.prems(3) c s1 have "block (map (\<lambda>(d, t). step_motor d t) calls) (s1, w1) = (e, (s', w'))"
      by simp
    from Cons.IH [OF _ k this] p Cons.prems(1) show ?thesis by simp
  next
    case (Some x)
    with Cons.prems(3) c s1 have "s' = s1" by simp
    with p k show ?thesis by simp
  qed
qed

text \<open>
  C5. A stepper is built by its constructor and then stepped by any sequence of
  \<^verbatim>\<open>step_motor\<close> calls. In the state reached, \<open>current_step\<close> is one of 0, 1, 2, 3; a
  further step in direction \<open>+1\<close> or \<open>-1\<close> moves it by that amount modulo 4, to a value
  that is again one of 0, 1, 2, 3, and writes to the four pins, in order, the row of
  the fixed table for the new value: \<open>[1,0,0,0]\<close>, \<open>[0,1,0,0]\<close>, \<open>[0,0,1,0]\<close>,
  \<open>[0,0,0,1]\<close>, each with exactly one coil energised. This holds whatever the pause does
  (the state is advanced and the coils are written before the pause).
\<close>

theorem stepper_full_step_cycle:
  assumes "d = 1 \<or> d = - 1"
  shows "case StepperMotor_init in1 in2 in3 in4 spr w0 of (e0, s0, w1) \<Rightarrow>
         case block (map (\<lambda>(d, t). step_motor d t) calls) (s0, w1) of (e1, (s, w)) \<Rightarrow>
         case step_motor d delay (s, w) of (e2, (s', w')) \<Rightarrow>
           current_step s \<in> {0, 1, 2, 3} \<and>
           current_step s' \<in> {0, 1, 2, 3} \<and>
           current_step s' = (current_step s + d) mod 4 \<and>
           writes_of w' = writes_of w @
             zip [in1, in2, in3, in4]
               ([[1, 0, 0, 0], [0, 1, 0, 0], [0, 0, 1, 0], [0, 0, 0, 1]] ! nat (current_step s'))"
proof -
  obtain e0 s0 w1 where i: "StepperMotor_init in1 in2 in3 in4 spr w0 = (e0, s0, w1)"
    by (metis surj_pair)
  obtain e1 s w where r: "block (map (\<lambda>(d, t). step_motor d t) calls) (s0, w1) = (e1, (s, w))"
    by (metis surj_pair)
  obtain e2 s' w' where st: "step_motor d delay (s, w) = (e2, (s', w'))"
    by (metis surj_pair)
  from StepperMotor_init_stepper [OF i]
  have s0: "pins s0 = [in1, in2, in3, in4]" "current_step s0 = 0" by simp_all
  from run_steps_invariant [OF _ _ r] s0
  have s: "pins s = [in1, in2, in3, in4]" "current_step s \<in> {0, 1, 2, 3}" by simp_all
  from step_motor_step [OF _ st] s(1) assms
  have "current_step s' = (current_step s + d) mod 4"
    "writes_of w' = writes_of w @ zip [in1, in2, in3, in4] (step_sequence ! nat (current_step s'))"
    by auto
  moreover from this(1) have "current_step s' \<in> {0, 1, 2, 3}" by auto
  ultimately show ?thesis using i r st s(2) by (simp add: step_sequence_def)
qed

theorem stepper_full_step_cycle_witness:
  "((- 1 :: int) = 1 \<or> (- 1 :: int) = - 1) \<and>
   (case StepperMotor_init (Some 17) (Some 18) (Some 27) (Some 22) 200
           (fresh_world False False 1000) of (e0, s0, w1) \<Rightarrow>
    case block (map (\<lambda>(d, t). step_motor d t) [(1, Finite (1 / 500)), (1, Finite (1 / 500))])
           (s0, w1) of (e1, (s, w)) \<Rightarrow>
    case step_motor (- 1) (Finite (1 / 500)) (s, w) of (e2, (s', w')) \<Rightarrow>
      current_step s \<in> {0, 1, 2, 3} \<and>
      current_step s' \<in> {0, 1, 2, 3} \<and>
      current_step s' = (current_step s + - 1) mod 4 \<and>
      writes_of w' = writes_of w @
        zip [Some 17, Some 18, Some 27, Some 22]
          ([[1, 0, 0, 0], [0, 1, 0, 0], [0, 0, 1, 0], [0, 0, 0, 1]] ! nat (current_step s')))"
proof -
  have h: "(- 1 :: int) = 1 \<or> (- 1 :: int) = - 1" by simp
  show ?thesis by (rule conjI [OF h stepper_full_step_cycle [OF h]])
qed

section \<open>The stepper driver: rotation by an angle\<close>

lemma output_pattern_frame:
  "block (map (output_indexed sq) (enumerate n ps)) w = (e, w') \<Longrightarrow>
   max_sleep w' = max_sleep w \<and> sleeps_of w' = sleeps_of w"
proof (induction ps arbitrary: n w)
  case Nil
  then show ?case by simp
next
  case (Cons p ps)
  show ?case
  proof (cases "n < length sq")
    case True
    let ?w1 = "w\<lparr>effects := write_effect w p (sq ! n) # effects w\<rparr>"
    from Cons.prems True have "block (map (output_indexed sq) (enumerate (Suc n) ps)) ?w1 = (e, w')"
      by (simp add: output_indexed_def GPIO_output_emit emit_def)
    from Cons.IH [OF this] show ?thesis
      by (simp add: sleeps_of_emit slept_write_effect)
  next
    case False
    with Cons.prems show ?thesis by (simp add: output_indexed_def raise_def)
  qed
qed

lemma step_motor_pause:
  assumes "length (pins s) = 4" and "0 \<le> t" and "t \<le> max_sleep w"
  shows "\<exists>s' w'. step_motor d (Finite t) (s, w) = (None, (s', w'))
     \<and> max_sleep w' = max_sleep w \<and> sleeps_of w' = sleeps_of w @ [t]"
proof -
  define k where "k = (if d > 0 then (current_step s + 1) mod 4 else (current_step s - 1) mod 4)"
  define s1 where "s1 = s\<lparr>current_step := k\<rparr>"
  have "0 \<le> k" "k < 4" unfolding k_def by auto
  then have "nat k \<in> {0, 1, 2, 3}" by auto
  then have len: "length (step_sequence ! nat k) = 4"
    by (auto simp: step_sequence_def)
  with assms(1) have "0 + length (pins s) \<le> length (step_sequence ! nat k)" by simp
  from output_pattern [OF this, of w] obtain w1 where
    w1: "block (map (output_indexed (step_sequence ! nat k)) (enumerate 0 (pins s))) w = (None, w1)"
    by auto
  from output_pattern_frame [OF w1] assms
  have f: "max_sleep w1 = max_sleep w" "sleeps_of w1 = sleeps_of w" by simp_all
  have run: "step_motor d (Finite t) (s, w) = (case time_sleep (Finite t) w1 of (e, w2) \<Rightarrow> (e, (s1, w2)))"
    using w1(1) by (auto simp: step_motor_def Let_def on_world_def block_append k_def s1_def
        split: prod.splits option.splits)
  have "time_sleep (Finite t) w1 = (None, w1\<lparr>effects := sleep t # effects w1\<rparr>)"
    using f assms by (simp add: time_sleep_def emit_def)
  with run f show ?thesis
    by (simp add: sleeps_of_emit)
qed

lemma repeat_step_motor:
  assumes "length (pins s) = 4" and "0 \<le> t" and "t \<le> max_sleep w"
  shows "\<exists>s' w'. block (replicate n (step_motor d (Finite t))) (s, w) = (None, (s', w'))
     \<and> current_step s' = (if n = 0 then current_step s
                            else (current_step s + (if d > 0 then 1 else - 1) * int n) mod 4)
     \<and> writes_of w' = writes_of w @
          concat (map (\<lambda>k. zip (pins s) (step_sequence !
             nat ((current_step s + (if d > 0 then 1 else - 1) * int k) mod 4))) [1..<Suc n])
     \<and> sleeps_of w' = sleeps_of w @ replicate n t"
  using assms
proof (induction n arbitrary: s w)
  case 0
  then show ?case by simp
next
  case (Suc n)
  from step_motor_pause [OF Suc.prems, of d] obtain s1 w1 where
    s1: "step_motor d (Finite t) (s, w) = (None, (s1, w1))"
    "max_sleep w1 = max_sleep w" "sleeps_of w1 = sleeps_of w @ [t]" by blast
  from step_motor_step [OF Suc.prems(1) s1(1)]
  have c1: "current_step s1 = (current_step s + (if d > 0 then 1 else - 1)) mod 4"
    and p1: "pins s1 = pins s"
    and wr1: "writes_of w1 = writes_of w @ zip (pins s) (step_sequence ! nat (current_step s1))"
    by (auto split: if_splits)
  from Suc.prems p1 s1(2) have pre: "length (pins s1) = 4" "0 \<le> t" "t \<le> max_sleep w1" by simp_all
  from Suc.IH [OF pre] obtain s' w' where
    r: "block (replicate n (step_motor d (Finite t))) (s1, w1) = (None, (s', w'))"
    "current_step s' = (if n = 0 then current_step s1
                            else (current_step s1 + (if d > 0 then 1 else - 1) * int n) mod 4)"
    "writes_of w' = writes_of w1 @
          concat (map (\<lambda>k. zip (pins s1) (step_sequence !
             nat ((current_step s1 + (if d > 0 then 1 else - 1) * int k) mod 4))) [1..<Suc n])"
    "sleeps_of w' = sleeps_of w1 @ replicate n t" by blast
  let ?dir = "if d > 0 then 1 else - 1 :: int"
  have shift: "\<And>k. (current_step s1 + ?dir * int k) mod 4 = (current_step s + ?dir * int (Suc k)) mod 4"
    unfolding c1 by (simp add: algebra_simps mod_simps)
  have cs: "current_step s' = (current_step s + ?dir * int (Suc n)) mod 4"
    using r(2) shift [of n] c1 by (cases "n = 0") simp_all
  have "map (\<lambda>k. zip (pins s) (step_sequence ! nat ((current_step s + ?dir * int k) mod 4))) [1..<Suc (Suc n)]
      = zip (pins s) (step_sequence ! nat (current_step s1)) #
        map (\<lambda>k. zip (pins s1) (step_sequence ! nat ((current_step s1 + ?dir * int k) mod 4))) [1..<Suc n]"
    unfolding shift p1 
    by (simp only: upt_conv_Cons [of 1 "Suc (Suc n)"] map_Suc_upt [symmetric] c1) (simp add: )
  then have wr: "writes_of w' = writes_of w @
          concat (map (\<lambda>k. zip (pins s) (step_sequence !
             nat ((current_step s + ?dir * int k) mod 4))) [1..<Suc (Suc n)])"
    using r(3) wr1 by simp
  from s1(1) r(1) cs wr r(4) s1(3) show ?case
    by (simp add: replicate_append_same)
qed


lemma rotate_delay_nonneg:
  assumes "0 < speed" and "rotate_delay speed = Inr (Finite t)"
  shows "0 \<le> t"
proof -
  from assms(2) obtain s where s: "to_double speed = Some s" "s \<noteq> 0" "to_double (1 / s) = Some t"
    by (auto simp: rotate_delay_def split: option.splits if_splits)
  from s(1) have "s = fl speed" by (auto simp: to_double_def Let_def split: if_splits)
  with assms(1) fl_nonneg [of speed] have "0 \<le> 1 / s" by simp
  from fl_nonneg [OF this] s(3) show ?thesis
    by (auto simp: to_double_def Let_def split: if_splits)
qed

text \<open>
  C3, as the code has it. The step count is \<^verbatim>\<open>int((abs(degrees) / 360) * steps_per_rev)\<close>:
  the binary64 product truncated toward zero, not rounded. Whenever that count \<open>n\<close> and
  the pause \<open>t = 1.0 / speed\<close> can be computed for a positive speed, and the platform
  can sleep for \<open>t\<close>, \<^verbatim>\<open>rotate_degrees\<close> returns after exactly \<open>n\<close> sequential steps: \<open>n\<close>
  pauses of \<open>t\<close>, and the coil rows of the \<open>n\<close> successive states, all in direction
  \<open>+1\<close> when \<open>degrees > 0\<close> and \<open>-1\<close> otherwise. On a 200-step turret 360 degrees are
  200 steps and -90 degrees are 50 steps.
\<close>

theorem rotate_degrees_truncated_step_count:
  assumes "length (pins s) = 4"
    and "0 < speed"
    and "rotate_steps degrees (steps_per_rev s) = Inr n"
    and "rotate_delay speed = Inr (Finite t)"
    and "t \<le> max_sleep w"
  shows "(\<exists>s' w'. rotate_degrees degrees speed (s, w) = (None, (s', w')) \<and>
            sleeps_of w' = sleeps_of w @ replicate (nat n) t \<and>
            writes_of w' = writes_of w @
              concat (map (\<lambda>k. zip (pins s) (step_sequence !
                nat ((current_step s + (if degrees > 0 then 1 else - 1) * int k) mod 4)))
                [1..<Suc (nat n)])) \<and>
         rotate_steps 360 200 = Inr 200 \<and> rotate_steps (- 90) 200 = Inr 50"
proof -
  let ?d = "if degrees > 0 then 1 else - 1 :: int"
  from rotate_delay_nonneg [OF assms(2,4)] have t: "0 \<le> t" .
  from repeat_step_motor [OF assms(1) t assms(5), of "nat n" ?d] obtain s' w' where
    r: "block (replicate (nat n) (step_motor ?d (Finite t))) (s, w) = (None, (s', w'))"
    "writes_of w' = writes_of w @
          concat (map (\<lambda>k. zip (pins s) (step_sequence !
             nat ((current_step s + (if ?d > 0 then 1 else - 1) * int k) mod 4))) [1..<Suc (nat n)])"
    "sleeps_of w' = sleeps_of w @ replicate (nat n) t" by blast
  have d: "(if ?d > 0 then 1 else - 1 :: int) = ?d" by simp
  have run: "rotate_degrees degrees speed (s, w) = (None, (s', w'))"
    using assms(3,4) r(1) by (simp add: rotate_degrees_def Let_def)
  have "rotate_steps 360 200 = Inr 200" by code_simp
  moreover have "rotate_steps (- 90) 200 = Inr 50" by code_simp
  ultimately show ?thesis using run r(2,3) unfolding d by blast
qed

theorem rotate_degrees_truncated_step_count_witness:
  "length (pins \<lparr>pins = [Some 17, Some 18, Some 27, Some 22], steps_per_rev = 200,
      current_step = 0\<rparr>) = 4 \<and>
   (0 :: rat) < 500 \<and>
   rotate_steps (- 90) (steps_per_rev \<lparr>pins = [Some 17, Some 18, Some 27, Some 22],
      steps_per_rev = 200, current_step = 0\<rparr>) = Inr 50 \<and>
   rotate_delay 500 = Inr (Finite (1152921504606847 / 576460752303423488)) \<and>
   1152921504606847 / 576460752303423488 \<le> max_sleep (fresh_world False False 1000) \<and>
   (\<exists>s' w'. rotate_degrees (- 90) 500
        (\<lparr>pins = [Some 17, Some 18, Some 27, Some 22], steps_per_rev = 200, current_step = 0\<rparr>,
         fresh_world False False 1000) = (None, (s', w')) \<and>
      sleeps_of w' = replicate 50 (1152921504606847 / 576460752303423488))"
proof -
  let ?s = "\<lparr>pins = [Some 17, Some 18, Some 27, Some 22], steps_per_rev = 200, current_step = 0\<rparr>"
  let ?t = "1152921504606847 / 576460752303423488 :: rat"
  have h1: "length (pins ?s) = 4" by simp
  have h2: "(0 :: rat) < 500" by simp
  have "rotate_steps (- 90) 200 = Inr 50" by code_simp
  then have h3: "rotate_steps (- 90) (steps_per_rev ?s) = Inr 50" by simp
  have h4: "rotate_delay 500 = Inr (Finite ?t)" by code_simp
  have h5: "?t \<le> max_sleep (fresh_world False False 1000)" by (simp add: fresh_world_def)
  have e: "sleeps_of (fresh_world False False 1000) = []"
    by (simp add: sleeps_of_def fresh_world_def)
  from rotate_degrees_truncated_step_count [OF h1 h2 h3 h4 h5]
  have "\<exists>s' w'. rotate_degrees (- 90) 500 (?s, fresh_world False False 1000) = (None, (s', w')) \<and>
      sleeps_of w' = replicate 50 ?t"
    unfolding e by auto
  with h1 h2 h3 h4 h5 show ?thesis by blast
qed

text \<open>
  The claim's formula, \<open>round(|degrees| / 360 * steps_per_revolution)\<close>, gives one step
  for one degree on a 200-step turret; the code makes none and leaves the stepper and
  the backend as they were.
\<close>

theorem rotate_degrees_rounding_counterexample:
  "rotate_degrees 1 500
     (snd (StepperMotor_init (Some 17) (Some 18) (Some 27) (Some 22) 200 (fresh_world False False 1000)))
   = (None, snd (StepperMotor_init (Some 17) (Some 18) (Some 27) (Some 22) 200 (fresh_world False False 1000)))
   \<and> spec_step_count 1 200 = 1"
proof -
  have s: "rotate_steps 1 200 = Inr 0" by code_simp
  have d: "case rotate_delay 500 of Inl e \<Rightarrow> False | Inr t \<Rightarrow> True" by code_simp
  have i: "steps_per_rev (fst (snd (StepperMotor_init (Some 17) (Some 18) (Some 27) (Some 22) 200 (fresh_world False False 1000)))) = 200"
    by (simp add: StepperMotor_init_def Let_def split: prod.splits)
  have "spec_step_count 1 200 = 1" by code_simp
  then show ?thesis using s d i
    by (auto simp: rotate_degrees_def Let_def split: prod.splits sum.splits)
qed

section \<open>The motor driver: the two direction pins of a channel\<close>

lemma silent_pwm_ChangeDutyCycle: "silent (pwm_ChangeDutyCycle r d)"
  unfolding silent_def
  by (auto simp: pwm_ChangeDutyCycle_def emit_def Let_def
      split: pwm.splits option.splits bool.splits sum.splits)

lemma silent_raise: "silent (raise x)"
  by (simp add: silent_def raise_def)

lemma silent_if_then: "silent m \<Longrightarrow> silent (if_then c m)"
  by (auto simp: silent_def if_then_def)

lemma silent_on_pwm_b: "silent (on_pwm_b self (\<lambda>r. pwm_ChangeDutyCycle r d))"
  by (simp add: on_pwm_b_def silent_raise silent_pwm_ChangeDutyCycle split: option.splits)

lemma valid_history_silent:
  "\<forall>x \<in> set xs. written x = None \<Longrightarrow> valid_history p q (xs @ es) = valid_history p q es"
  by (induction xs) (auto simp: valid_history_def asserted_together_def)

lemma valid_history_forward:
  "p \<noteq> q \<Longrightarrow> written a = Some (p, HIGH) \<Longrightarrow> written b = Some (q, LOW) \<Longrightarrow>
   valid_history p q es \<Longrightarrow> valid_history p q (b # a # es)"
  by (auto simp: valid_history_def asserted_together_def HIGH_def LOW_def)

lemma valid_history_backward:
  "p \<noteq> q \<Longrightarrow> written a = Some (p, LOW) \<Longrightarrow> written b = Some (q, HIGH) \<Longrightarrow>
   valid_history p q es \<Longrightarrow> valid_history p q (b # a # es)"
  by (auto simp: valid_history_def asserted_together_def HIGH_def LOW_def)

lemma valid_history_stop:
  "written a = Some (p, LOW) \<Longrightarrow> written b = Some (q, LOW) \<Longrightarrow>
   valid_history p q es \<Longrightarrow> valid_history p q (b # a # es)"
  by (auto simp: valid_history_def asserted_together_def HIGH_def LOW_def)

text \<open>Two pin writes and then a call that writes no pin: the shape of every channel method.\<close>

lemma channel_method_log:
  assumes "silent m" and "block [GPIO_output p u, GPIO_output q v, m] w = (e, w')"
  shows "\<exists>xs a b. effects w' = xs @ b # a # effects w \<and> (\<forall>x \<in> set xs. written x = None)
     \<and> written a = Some (p, u) \<and> written b = Some (q, v)"
proof -
  let ?a = "write_effect w p u" and ?b = "write_effect w q v"
  let ?w2 = "w\<lparr>effects := ?b # ?a # effects w\<rparr>"
  obtain e3 w3 where c: "m ?w2 = (e3, w3)" by (metis surj_pair)
  with assms(2) have "w' = w3"
    by (auto simp: GPIO_output_emit emit_def write_effect_effects split: option.splits)
  moreover from assms(1) c obtain xs where "effects w3 = xs @ effects ?w2" "\<forall>x \<in> set xs. written x = None"
    unfolding silent_def by blast
  ultimately show ?thesis
    by (auto simp: written_write_effect)
qed

lemma channel_method_valid:
  assumes "silent m" and "block [GPIO_output p u, GPIO_output q v, m] w = (e, w')"
    and "valid_history p q (effects w)"
    and "p \<noteq> q \<and> (u, v) = (HIGH, LOW) \<or> p \<noteq> q \<and> (u, v) = (LOW, HIGH) \<or> (u, v) = (LOW, LOW)"
  shows "valid_history p q (effects w')"
proof -
  from channel_method_log [OF assms(1,2)] obtain xs a b where
    l: "effects w' = xs @ b # a # effects w" "\<forall>x \<in> set xs. written x = None"
    "written a = Some (p, u)" "written b = Some (q, v)" by blast
  from assms(3,4) l(3,4) have "valid_history p q (b # a # effects w)"
    by (auto intro: valid_history_forward valid_history_backward valid_history_stop)
  with l(1,2) show ?thesis by (simp add: valid_history_silent)
qed

lemma call_a_valid:
  assumes "in1_pin c \<noteq> in2_pin c" and "valid_history (in1_pin c) (in2_pin c) (effects w)"
    and "call_a c x w = (e, w')"
  shows "valid_history (in1_pin c) (in2_pin c) (effects w')"
proof (cases x)
  case (Call_forward s)
  with assms(3) have "block [GPIO_output (in1_pin c) HIGH, GPIO_output (in2_pin c) LOW,
      pwm_ChangeDutyCycle (pwm_a c) s] w = (e, w')" by (simp add: motor_a_forward_def)
  from channel_method_valid [OF silent_pwm_ChangeDutyCycle this assms(2)] assms(1)
  show ?thesis by simp
next
  case (Call_backward s)
  with assms(3) have "block [GPIO_output (in1_pin c) LOW, GPIO_output (in2_pin c) HIGH,
      pwm_ChangeDutyCycle (pwm_a c) s] w = (e, w')" by (simp add: motor_a_backward_def)
  from channel_method_valid [OF silent_pwm_ChangeDutyCycle this assms(2)] assms(1)
  show ?thesis by simp
next
  case Call_stop
  with assms(3) have "block [GPIO_output (in1_pin c) LOW, GPIO_output (in2_pin c) LOW,
      pwm_ChangeDutyCycle (pwm_a c) 0] w = (e, w')" by (simp add: stop_motor_a_def)
  from channel_method_valid [OF silent_pwm_ChangeDutyCycle this assms(2)]
  show ?thesis by simp
qed

lemma call_b_valid:
  assumes "in3_pin c \<noteq> in4_pin c \<or> \<not> truthy (in3_pin c)" and "valid_history (in3_pin c) (in4_pin c) (effects w)"
    and "call_b c x w = (e, w')"
  shows "valid_history (in3_pin c) (in4_pin c) (effects w')"
proof (cases x)
  case (Call_forward s)
  show ?thesis
  proof (cases "truthy (in3_pin c) \<and> truthy (in4_pin c) \<and> truthy (enb_pin c)")
    case True
    with Call_forward assms(3) have "block [GPIO_output (in3_pin c) HIGH, GPIO_output (in4_pin c) LOW,
      on_pwm_b c (\<lambda>r. pwm_ChangeDutyCycle r s)] w = (e, w')"
      by (simp add: motor_b_forward_def if_then_def)
    from channel_method_valid [OF silent_on_pwm_b this assms(2)] assms(1) True
    show ?thesis by simp
  next
    case False
    with Call_forward assms(2,3) show ?thesis by (auto simp: motor_b_forward_def if_then_def)
  qed
next
  case (Call_backward s)
  show ?thesis
  proof (cases "truthy (in3_pin c) \<and> truthy (in4_pin c) \<and> truthy (enb_pin c)")
    case True
    with Call_backward assms(3) have "block [GPIO_output (in3_pin c) LOW, GPIO_output (in4_pin c) HIGH,
      on_pwm_b c (\<lambda>r. pwm_ChangeDutyCycle r s)] w = (e, w')"
      by (simp add: motor_b_backward_def if_then_def)
    from channel_method_valid [OF silent_on_pwm_b this assms(2)] assms(1) True
    show ?thesis by simp
  next
    case False
    with Call_backward assms(2,3) show ?thesis by (auto simp: motor_b_backward_def if_then_def)
  qed
next
  case Call_stop
  show ?thesis
  proof (cases "truthy (in3_pin c) \<and> truthy (in4_pin c)")
    case True
    with Call_stop assms(3) have "block [GPIO_output (in3_pin c) LOW, GPIO_output (in4_pin c) LOW,
      if_then (truthy (enb_pin c)) (on_pwm_b c (\<lambda>r. pwm_ChangeDutyCycle r 0))] w = (e, w')"
      by (simp add: stop_motor_b_def if_then_def)
    from channel_method_valid [OF silent_if_then [OF silent_on_pwm_b] this assms(2)]
    show ?thesis by simp
  next
    case False
    with Call_stop assms(2,3) show ?thesis by (auto simp: stop_motor_b_def if_then_def)
  qed
qed

lemma run_valid:
  assumes step: "\<And>x w e w'. valid_history p q (effects w) \<Longrightarrow> f x w = (e, w') \<Longrightarrow>
      valid_history p q (effects w')"
  shows "valid_history p q (effects w) \<Longrightarrow> valid_history p q (effects (snd (block (map f calls) w)))"
proof (induction calls arbitrary: w)
  case Nil
  then show ?case by simp
next
  case (Cons x calls)
  obtain e1 w1 where x: "f x w = (e1, w1)" by (metis surj_pair)
  from step [OF Cons.prems x] have v: "valid_history p q (effects w1)" .
  show ?case
  proof (cases e1)
    case None
    with x Cons.IH [OF v] show ?thesis by simp
  next
    case (Some err)
    with x v show ?thesis by simp
  qed
qed

text \<open>
  C1, as the code has it. On a channel whose two direction pins are distinct, every
  sequence of forward, backward and stop calls keeps the history of the two pins valid:
  once a call has returned the pins are never asserted together, and inside a call they
  are asserted together at one kind of instant only, between the two pin writes of a
  forward call made while the second direction pin is still \<^verbatim>\<open>HIGH\<close> (a reversal from
  backward to forward: \<^verbatim>\<open>motor_a_forward\<close> raises the first pin before it lowers the
  second). A channel B that is not wired takes the calls as no-ops.
\<close>

theorem direction_pins_asserted_together_only_in_reversal:
  assumes "in1_pin c \<noteq> in2_pin c"
    and "in3_pin c \<noteq> in4_pin c \<or> \<not> truthy (in3_pin c)"
    and "valid_history (in1_pin c) (in2_pin c) (effects w)"
    and "valid_history (in3_pin c) (in4_pin c) (effects w)"
  shows "valid_history (in1_pin c) (in2_pin c) (effects (snd (block (map (call_a c) calls) w))) \<and>
         valid_history (in3_pin c) (in4_pin c) (effects (snd (block (map (call_b c) calls) w)))"
proof
  show "valid_history (in1_pin c) (in2_pin c) (effects (snd (block (map (call_a c) calls) w)))"
    by (rule run_valid [OF call_a_valid [OF assms(1)] assms(3)])
  show "valid_history (in3_pin c) (in4_pin c) (effects (snd (block (map (call_b c) calls) w)))"
    by (rule run_valid [OF call_b_valid [OF assms(2)] assms(4)])
qed

theorem direction_pins_asserted_together_only_in_reversal_witness:
  "in1_pin \<lparr>ena_pin = Some 12, in1_pin = Some 5, in2_pin = Some 6, in3_pin = Some 13,
      in4_pin = Some 19, enb_pin = Some 26, pwm_a = 0, pwm_b = Some 1\<rparr> \<noteq>
   in2_pin \<lparr>ena_pin = Some 12, in1_pin = Some 5, in2_pin = Some 6, in3_pin = Some 13,
      in4_pin = Some 19, enb_pin = Some 26, pwm_a = 0, pwm_b = Some 1\<rparr> \<and>
   in3_pin \<lparr>ena_pin = Some 12, in1_pin = Some 5, in2_pin = Some 6, in3_pin = Some 13,
      in4_pin = Some 19, enb_pin = Some 26, pwm_a = 0, pwm_b = Some 1\<rparr> \<noteq>
   in4_pin \<lparr>ena_pin = Some 12, in1_pin = Some 5, in2_pin = Some 6, in3_pin = Some 13,
      in4_pin = Some 19, enb_pin = Some 26, pwm_a = 0, pwm_b = Some 1\<rparr> \<and>
   fst (L298NMotorController_init (Some 12) (Some 5) (Some 6) (Some 13) (Some 19) (Some 26)
          (fresh_world True False 1000)) =
     Inr \<lparr>ena_pin = Some 12, in1_pin = Some 5, in2_pin = Some 6, in3_pin = Some 13,
          in4_pin = Some 19, enb_pin = Some 26, pwm_a = 0, pwm_b = Some 1\<rparr> \<and>
   valid_history (Some 5) (Some 6)
     (effects (snd (L298NMotorController_init (Some 12) (Some 5) (Some 6) (Some 13) (Some 19)
        (Some 26) (fresh_world True False 1000)))) \<and>
   valid_history (Some 13) (Some 19)
     (effects (snd (L298NMotorController_init (Some 12) (Some 5) (Some 6) (Some 13) (Some 19)
        (Some 26) (fresh_world True False 1000)))) \<and>
   valid_history (Some 5) (Some 6)
     (effects (snd (block (map (call_a \<lparr>ena_pin = Some 12, in1_pin = Some 5, in2_pin = Some 6,
          in3_pin = Some 13, in4_pin = Some 19, enb_pin = Some 26, pwm_a = 0, pwm_b = Some 1\<rparr>)
        [Call_forward 50, Call_backward 30, Call_forward 70, Call_stop])
        (snd (L298NMotorController_init (Some 12) (Some 5) (Some 6) (Some 13) (Some 19)
           (Some 26) (fresh_world True False 1000)))))) \<and>
   valid_history (Some 13) (Some 19)
     (effects (snd (block (map (call_b \<lparr>ena_pin = Some 12, in1_pin = Some 5, in2_pin = Some 6,
          in3_pin = Some 13, in4_pin = Some 19, enb_pin = Some 26, pwm_a = 0, pwm_b = Some 1\<rparr>)
        [Call_forward 50, Call_backward 30, Call_forward 70, Call_stop])
        (snd (L298NMotorController_init (Some 12) (Some 5) (Some 6) (Some 13) (Some 19)
           (Some 26) (fresh_world True False 1000))))))"
proof -
  let ?c = "\<lparr>ena_pin = Some 12, in1_pin = Some 5, in2_pin = Some 6, in3_pin = Some 13,
      in4_pin = Some 19, enb_pin = Some 26, pwm_a = 0, pwm_b = Some 1\<rparr>"
  let ?w = "snd (L298NMotorController_init (Some 12) (Some 5) (Some 6) (Some 13) (Some 19)
        (Some 26) (fresh_world True False 1000))"
  have h1: "in1_pin ?c \<noteq> in2_pin ?c" by simp
  have h2: "in3_pin ?c \<noteq> in4_pin ?c" by simp
  then have h2': "in3_pin ?c \<noteq> in4_pin ?c \<or> \<not> truthy (in3_pin ?c)" ..
  have i: "fst (L298NMotorController_init (Some 12) (Some 5) (Some 6) (Some 13) (Some 19) (Some 26)
          (fresh_world True False 1000)) = Inr ?c" by code_simp
  have "valid_history (Some 5) (Some 6) (effects ?w)" by code_simp
  then have h3: "valid_history (in1_pin ?c) (in2_pin ?c) (effects ?w)" by simp
  have "valid_history (Some 13) (Some 19) (effects ?w)" by code_simp
  then have h4: "valid_history (in3_pin ?c) (in4_pin ?c) (effects ?w)" by simp
  from direction_pins_asserted_together_only_in_reversal [OF h1 h2' h3 h4,
      of "[Call_forward 50, Call_backward 30, Call_forward 70, Call_stop]"]
  have "valid_history (Some 5) (Some 6)
          (effects (snd (block (map (call_a ?c) [Call_forward 50, Call_backward 30, Call_forward 70, Call_stop]) ?w))) \<and>
        valid_history (Some 13) (Some 19)
          (effects (snd (block (map (call_b ?c) [Call_forward 50, Call_backward 30, Call_forward 70, Call_stop]) ?w)))"
    by simp
  with h1 h2 i h3 h4 show ?thesis by simp
qed

text \<open>
  The claim fails inside a reversal from backward to forward: after the first pin write
  of \<^verbatim>\<open>motor_a_forward\<close> both direction pins of the channel are \<^verbatim>\<open>HIGH\<close>. The controller
  is the one the constructor returns on the simulation backend.
\<close>

theorem direction_pins_reversal_counterexample:
  "fst (L298NMotorController_init (Some 12) (Some 5) (Some 6) None None None
          (fresh_world False False 1000)) =
     Inr \<lparr>ena_pin = Some 12, in1_pin = Some 5, in2_pin = Some 6, in3_pin = None,
          in4_pin = None, enb_pin = None, pwm_a = 0, pwm_b = None\<rparr> \<and>
   asserted_together (Some 5) (Some 6)
     (drop 2 (effects (snd (block (map (call_a \<lparr>ena_pin = Some 12, in1_pin = Some 5,
          in2_pin = Some 6, in3_pin = None, in4_pin = None, enb_pin = None, pwm_a = 0,
          pwm_b = None\<rparr>) [Call_backward 50, Call_forward 50])
        (snd (L298NMotorController_init (Some 12) (Some 5) (Some 6) None None None
           (fresh_world False False 1000)))))))"
  by code_simp

section \<open>The motor driver: construction and the effect of a channel method\<close>

lemma duty_lgpio_zero: "duty_lgpio 0 = Inr 0"
  by code_simp

lemmas backend_defs = GPIO_setmode_def GPIO_setwarnings_def GPIO_setup_def GPIO_output_def
  GPIO_PWM_def pwm_start_def pwm_ChangeDutyCycle_def emit_def if_then_def raise_def on_pwm_b_def
  BCM_def OUT_def HIGH_def LOW_def

lemma L298NMotorController_init_result:
  "\<exists>w1. L298NMotorController_init ena in1 in2 in3 in4 enb w =
     (Inr \<lparr>ena_pin = ena, in1_pin = in1, in2_pin = in2, in3_pin = in3, in4_pin = in4,
           enb_pin = enb, pwm_a = next_ref w,
           pwm_b = (if truthy enb then Some (Suc (next_ref w)) else None)\<rparr>, w1) \<and>
     next_ref w1 = (if truthy enb then Suc (Suc (next_ref w)) else Suc (next_ref w)) \<and>
     max_sleep w1 = max_sleep w"
  by (cases "PI5_AVAILABLE w"; cases "RPI_GPIO_AVAILABLE w"; cases "truthy enb";
      cases "truthy in3"; cases "truthy in4")
     (simp_all add: L298NMotorController_init_def stop_all_def stop_motor_a_def stop_motor_b_def
        backend_defs Let_def duty_lgpio_zero)

lemma pwm_ChangeDutyCycle_shape:
  assumes "pwm_ChangeDutyCycle r d w = (e, w')"
  shows "\<exists>obj xs. w' = w\<lparr>heap := (heap w)(r := obj), effects := xs @ effects w\<rparr>
           \<and> duty_cycle obj = d \<and> quiet xs"
proof (cases "heap w r")
  case (LgpioPWM h p f d0 run)
  show ?thesis
  proof (cases "run \<and> h \<noteq> None")
    case True
    then obtain c where h: "h = Some c" and run: "run" by auto
    show ?thesis
    proof (cases "duty_lgpio d")
      case (Inl err)
      with assms LgpioPWM h run
      have "w' = w\<lparr>heap := (heap w)(r := LgpioPWM h p f d run), effects := [] @ effects w\<rparr>"
        by (auto simp: pwm_ChangeDutyCycle_def Let_def)
      then show ?thesis by (intro exI conjI) (assumption, simp_all add: quiet_def)
    next
      case (Inr y)
      with assms LgpioPWM h run
      have "w' = w\<lparr>heap := (heap w)(r := LgpioPWM h p f d run),
                     effects := [tx_pwm c p f y] @ effects w\<rparr>"
        by (auto simp: pwm_ChangeDutyCycle_def Let_def emit_def)
      then show ?thesis by (intro exI conjI) (assumption, simp_all add: quiet_def)
    qed
  next
    case False
    with assms LgpioPWM
    have "w' = w\<lparr>heap := (heap w)(r := LgpioPWM h p f d run), effects := [] @ effects w\<rparr>"
      by (auto simp: pwm_ChangeDutyCycle_def Let_def split: bool.splits option.splits)
    then show ?thesis by (intro exI conjI) (assumption, simp_all add: quiet_def)
  qed
next
  case (SimulatedPWM p f d0)
  with assms
  have "w' = w\<lparr>heap := (heap w)(r := SimulatedPWM p f d),
                 effects := [print (PWM_changed p d)] @ effects w\<rparr>"
    by (auto simp: pwm_ChangeDutyCycle_def emit_def)
  then show ?thesis by (intro exI conjI) (assumption, simp_all add: quiet_def)
next
  case (RPiPWM p f d0)
  with assms
  have "w' = w\<lparr>heap := (heap w)(r := RPiPWM p f d),
                 effects := [RPI_PWM_ChangeDutyCycle r d] @ effects w\<rparr>"
    by (auto simp: pwm_ChangeDutyCycle_def emit_def)
  then show ?thesis by (intro exI conjI) (assumption, simp_all add: quiet_def)
qed

lemma pwm_ChangeDutyCycle_returns:
  assumes "pwm_ChangeDutyCycle r d w = (e, w')" and "duty_lgpio d = Inr y"
  shows "e = None"
  using assms
  by (cases "heap w r")
     (auto simp: pwm_ChangeDutyCycle_def Let_def emit_def split: bool.splits option.splits)

lemma pin_level_quiet: "quiet xs \<Longrightarrow> pin_level (xs @ es) p = pin_level es p"
  by (induction xs) (simp_all add: quiet_def)

lemma sleeps_of_quiet:
  "quiet xs \<Longrightarrow> sleeps_of (w\<lparr>effects := xs @ es\<rparr>) = sleeps_of (w\<lparr>effects := es\<rparr>)"
  by (induction xs) (simp_all add: quiet_def sleeps_of_emit)

lemma sleeps_of_heap [simp]: "sleeps_of (w\<lparr>heap := h\<rparr>) = sleeps_of w"
  by (simp add: sleeps_of_def)

text \<open>Two pin writes and a duty change: what every wired channel method leaves behind.\<close>

lemma drive_post:
  assumes "block [GPIO_output p u, GPIO_output q v, pwm_ChangeDutyCycle r d] w = (e, w')"
  shows "pin_level (effects w') x =
           (if x = q then Some v else if x = p then Some u else pin_level (effects w) x)"
    and "duty_cycle (heap w' r') = (if r' = r then d else duty_cycle (heap w r'))"
    and "duty_lgpio d = Inr y \<Longrightarrow> e = None"
    and "sleeps_of w' = sleeps_of w"
proof -
  let ?w2 = "w\<lparr>effects := write_effect w q v # write_effect w p u # effects w\<rparr>"
  from assms have c: "pwm_ChangeDutyCycle r d ?w2 = (e, w')"
    by (cases "pwm_ChangeDutyCycle r d ?w2")
       (auto simp: GPIO_output_emit emit_def write_effect_effects split: option.splits)
  from pwm_ChangeDutyCycle_shape [OF c] obtain obj xs where
    s: "w' = ?w2\<lparr>heap := (heap ?w2)(r := obj), effects := xs @ effects ?w2\<rparr>"
    "duty_cycle obj = d" "quiet xs" by blast
  show "pin_level (effects w') x =
           (if x = q then Some v else if x = p then Some u else pin_level (effects w) x)"
    unfolding s(1) using s(3) by (simp add: pin_level_quiet written_write_effect)
  show "duty_cycle (heap w' r') = (if r' = r then d else duty_cycle (heap w r'))"
    unfolding s(1) using s(2) by simp
  show "duty_lgpio d = Inr y \<Longrightarrow> e = None" by (rule pwm_ChangeDutyCycle_returns [OF c])
  show "sleeps_of w' = sleeps_of w"
    unfolding s(1) using s(3) by (simp add: sleeps_of_quiet sleeps_of_emit slept_write_effect)
qed

section \<open>The motor driver: stopping, and a channel B that is not wired\<close>

lemma LOW_neq_HIGH [simp]: "LOW \<noteq> HIGH" "HIGH \<noteq> LOW"
  by (simp_all add: LOW_def HIGH_def)

lemma if_then_True: "if_then True m = m"
  by (rule ext) (simp add: if_then_def)

lemma direction_of_levels:
  "pin_level (effects w) p = Some u \<Longrightarrow> pin_level (effects w) q = Some v \<Longrightarrow>
   direction_of w p q =
     (if u = HIGH \<and> v = LOW then Some Forward
      else if u = LOW \<and> v = HIGH then Some Backward
      else if u = LOW \<and> v = LOW then Some Stopped else None)"
  by (simp add: direction_of_def)

lemma stop_motor_a_post:
  "\<exists>w'. stop_motor_a c w = (None, w') \<and> channel_a c w' = (Some Stopped, Some 0) \<and>
     (\<forall>x. pin_level (effects w') x =
        (if x = in2_pin c \<or> x = in1_pin c then Some LOW else pin_level (effects w) x)) \<and>
     (\<forall>r. duty_cycle (heap w' r) = (if r = pwm_a c then 0 else duty_cycle (heap w r)))"
proof -
  obtain e w' where s: "block [GPIO_output (in1_pin c) LOW, GPIO_output (in2_pin c) LOW,
      pwm_ChangeDutyCycle (pwm_a c) 0] w = (e, w')" by (metis surj_pair)
  note post = drive_post [OF s]
  from post(3) [OF duty_lgpio_zero] have e: "e = None" .
  have l: "pin_level (effects w') (in1_pin c) = Some LOW" "pin_level (effects w') (in2_pin c) = Some LOW"
    by (simp_all add: post(1))
  have "channel_a c w' = (Some Stopped, Some 0)"
    by (simp add: channel_a_def direction_of_levels [OF l] post(2))
  with s e post(1,2) show ?thesis by (auto simp: stop_motor_a_def)
qed

lemma stop_motor_b_wired:
  assumes "truthy (in3_pin c)" and "truthy (in4_pin c)" and "truthy (enb_pin c)"
    and "pwm_b c = Some rb"
  shows "\<exists>w'. stop_motor_b c w = (None, w') \<and> channel_b c w' = (Some Stopped, Some 0) \<and>
     (\<forall>x. pin_level (effects w') x =
        (if x = in4_pin c \<or> x = in3_pin c then Some LOW else pin_level (effects w) x)) \<and>
     (\<forall>r. duty_cycle (heap w' r) = (if r = rb then 0 else duty_cycle (heap w r)))"
proof -
  obtain e w' where s: "block [GPIO_output (in3_pin c) LOW, GPIO_output (in4_pin c) LOW,
      pwm_ChangeDutyCycle rb 0] w = (e, w')" by (metis surj_pair)
  note post = drive_post [OF s]
  from post(3) [OF duty_lgpio_zero] have e: "e = None" .
  have l: "pin_level (effects w') (in3_pin c) = Some LOW" "pin_level (effects w') (in4_pin c) = Some LOW"
    by (simp_all add: post(1))
  have "channel_b c w' = (Some Stopped, Some 0)"
    by (simp add: channel_b_def direction_of_levels [OF l] post(2) assms(4))
  moreover have "stop_motor_b c w = (e, w')"
    using assms s by (simp add: stop_motor_b_def if_then_True on_pwm_b_def)
  ultimately show ?thesis using e post(1,2) by auto
qed

text \<open>
  Channel B's stop on any controller the constructor can return: it never raises, it
  drives no pin \<^verbatim>\<open>HIGH\<close>, and it sets no duty other than to zero.
\<close>

lemma stop_motor_b_harmless:
  assumes "truthy (enb_pin c) \<longrightarrow> pwm_b c \<noteq> None"
  shows "\<exists>w'. stop_motor_b c w = (None, w') \<and>
     (\<forall>x. pin_level (effects w') x = Some LOW \<or> pin_level (effects w') x = pin_level (effects w) x) \<and>
     (\<forall>r. duty_cycle (heap w' r) = 0 \<or> duty_cycle (heap w' r) = duty_cycle (heap w r))"
proof (cases "truthy (in3_pin c) \<and> truthy (in4_pin c)")
  case False
  then have "stop_motor_b c w = (None, w)" by (auto simp: stop_motor_b_def if_then_def)
  then show ?thesis by simp
next
  case True
  show ?thesis
  proof (cases "truthy (enb_pin c)")
    case enb: True
    with assms obtain rb where "pwm_b c = Some rb" by auto
    from stop_motor_b_wired [OF _ _ enb this, of w] True show ?thesis by auto
  next
    case False
    with True have "stop_motor_b c w = (None, w\<lparr>effects := write_effect w (in4_pin c) LOW #
        write_effect w (in3_pin c) LOW # effects w\<rparr>)"
      by (simp add: stop_motor_b_def if_then_def GPIO_output_emit emit_def write_effect_effects)
    then show ?thesis by (simp add: written_write_effect)
  qed
qed

lemma stop_all_post:
  assumes "truthy (enb_pin c) \<longrightarrow> pwm_b c \<noteq> None"
  shows "\<exists>w'. stop_all c w = (None, w') \<and> channel_a c w' = (Some Stopped, Some 0) \<and>
     (truthy (in3_pin c) \<and> truthy (in4_pin c) \<and> truthy (enb_pin c) \<longrightarrow>
        channel_b c w' = (Some Stopped, Some 0))"
proof -
  from stop_motor_a_post [of c w] obtain w1 where
    a: "stop_motor_a c w = (None, w1)"
    "pin_level (effects w1) (in1_pin c) = Some LOW" "pin_level (effects w1) (in2_pin c) = Some LOW"
    "duty_cycle (heap w1 (pwm_a c)) = 0" by auto
  from stop_motor_b_harmless [OF assms, of w1] obtain w' where
    b: "stop_motor_b c w1 = (None, w')"
    "\<forall>x. pin_level (effects w') x = Some LOW \<or> pin_level (effects w') x = pin_level (effects w1) x"
    "\<forall>r. duty_cycle (heap w' r) = 0 \<or> duty_cycle (heap w' r) = duty_cycle (heap w1 r)" by blast
  from a(2) b(2) have l1: "pin_level (effects w') (in1_pin c) = Some LOW" by metis
  from a(3) b(2) have l2: "pin_level (effects w') (in2_pin c) = Some LOW" by metis
  from a(4) b(3) have d: "duty_cycle (heap w' (pwm_a c)) = 0" by metis
  have ca: "channel_a c w' = (Some Stopped, Some 0)"
    by (simp add: channel_a_def direction_of_levels [OF l1 l2] d)
  have cb: "channel_b c w' = (Some Stopped, Some 0)"
    if "truthy (in3_pin c) \<and> truthy (in4_pin c) \<and> truthy (enb_pin c)"
  proof -
    from that assms obtain rb where "pwm_b c = Some rb" by auto
    from stop_motor_b_wired [OF _ _ _ this, of w1] that b(1) show ?thesis by auto
  qed
  from a(1) b(1) have "stop_all c w = (None, w')" by (simp add: stop_all_def)
  with ca cb show ?thesis by blast
qed

text \<open>
  C7. Whatever the state before, on a controller the constructor returned:
  \<^verbatim>\<open>stop_motor_a\<close> returns and leaves channel A stopped, both direction pins \<^verbatim>\<open>LOW\<close> and
  duty 0; \<^verbatim>\<open>stop_motor_b\<close> does the same for a channel B that is wired; \<^verbatim>\<open>stop_all\<close>
  returns and leaves both in that state.
\<close>

theorem stop_leaves_channel_stopped:
  assumes "L298NMotorController_init ena in1 in2 in3 in4 enb w0 = (Inr c, w1)"
  shows "(\<exists>w'. stop_motor_a c w = (None, w') \<and> channel_a c w' = (Some Stopped, Some 0)) \<and>
         (truthy in3 \<and> truthy in4 \<and> truthy enb \<longrightarrow>
            (\<exists>w'. stop_motor_b c w = (None, w') \<and> channel_b c w' = (Some Stopped, Some 0))) \<and>
         (\<exists>w'. stop_all c w = (None, w') \<and> channel_a c w' = (Some Stopped, Some 0) \<and>
            (truthy in3 \<and> truthy in4 \<and> truthy enb \<longrightarrow>
               channel_b c w' = (Some Stopped, Some 0)))"
proof -
  from L298NMotorController_init_result [of ena in1 in2 in3 in4 enb w0] assms
  have c: "in3_pin c = in3" "in4_pin c = in4" "enb_pin c = enb"
    "pwm_b c = (if truthy enb then Some (Suc (next_ref w0)) else None)" by auto
  then have wf: "truthy (enb_pin c) \<longrightarrow> pwm_b c \<noteq> None" by simp
  have a: "\<exists>w'. stop_motor_a c w = (None, w') \<and> channel_a c w' = (Some Stopped, Some 0)"
    using stop_motor_a_post [of c w] by blast
  have b: "\<exists>w'. stop_motor_b c w = (None, w') \<and> channel_b c w' = (Some Stopped, Some 0)"
    if "truthy in3 \<and> truthy in4 \<and> truthy enb"
    using stop_motor_b_wired [of c "Suc (next_ref w0)" w] that c by auto
  from stop_all_post [OF wf, of w] a b c(1-3) show ?thesis by simp
qed

theorem stop_leaves_channel_stopped_witness:
  "L298NMotorController_init (Some 12) (Some 5) (Some 6) (Some 13) (Some 19) (Some 26)
      (fresh_world True False 1000) =
     (Inr \<lparr>ena_pin = Some 12, in1_pin = Some 5, in2_pin = Some 6, in3_pin = Some 13,
           in4_pin = Some 19, enb_pin = Some 26, pwm_a = 0, pwm_b = Some 1\<rparr>,
      snd (L298NMotorController_init (Some 12) (Some 5) (Some 6) (Some 13) (Some 19) (Some 26)
        (fresh_world True False 1000))) \<and>
   (truthy (Some 13) \<and> truthy (Some 19) \<and> truthy (Some 26)) \<and>
   (\<exists>w'. stop_all \<lparr>ena_pin = Some 12, in1_pin = Some 5, in2_pin = Some 6, in3_pin = Some 13,
           in4_pin = Some 19, enb_pin = Some 26, pwm_a = 0, pwm_b = Some 1\<rparr>
         (snd (motor_a_forward \<lparr>ena_pin = Some 12, in1_pin = Some 5, in2_pin = Some 6,
            in3_pin = Some 13, in4_pin = Some 19, enb_pin = Some 26, pwm_a = 0, pwm_b = Some 1\<rparr> 70
            (fresh_world True False 1000))) = (None, w') \<and>
      channel_a \<lparr>ena_pin = Some 12, in1_pin = Some 5, in2_pin = Some 6, in3_pin = Some 13,
           in4_pin = Some 19, enb_pin = Some 26, pwm_a = 0, pwm_b = Some 1\<rparr> w' =
        (Some Stopped, Some 0) \<and>
      channel_b \<lparr>ena_pin = Some 12, in1_pin = Some 5, in2_pin = Some 6, in3_pin = Some 13,
           in4_pin = Some 19, enb_pin = Some 26, pwm_a = 0, pwm_b = Some 1\<rparr> w' =
        (Some Stopped, Some 0))"
proof -
  let ?c = "\<lparr>ena_pin = Some 12, in1_pin = Some 5, in2_pin = Some 6, in3_pin = Some 13,
           in4_pin = Some 19, enb_pin = Some 26, pwm_a = 0, pwm_b = Some 1\<rparr>"
  let ?i = "L298NMotorController_init (Some 12) (Some 5) (Some 6) (Some 13) (Some 19) (Some 26)
      (fresh_world True False 1000)"
  have "fst ?i = Inr ?c" by code_simp
  then have h: "?i = (Inr ?c, snd ?i)" by (simp add: prod_eq_iff)
  have t: "truthy (Some 13) \<and> truthy (Some 19) \<and> truthy (Some 26)" by (simp add: truthy_def)
  from stop_leaves_channel_stopped [OF h, of "snd (motor_a_forward ?c 70 (fresh_world True False 1000))"] t
  have "\<exists>w'. stop_all ?c (snd (motor_a_forward ?c 70 (fresh_world True False 1000))) = (None, w') \<and>
      channel_a ?c w' = (Some Stopped, Some 0) \<and> channel_b ?c w' = (Some Stopped, Some 0)"
    by blast
  with h t show ?thesis by blast
qed

lemma L298NMotorController_init_setups:
  assumes "\<not> (truthy in3 \<and> truthy in4 \<and> truthy enb)"
  shows "setups_of (snd (L298NMotorController_init ena in1 in2 in3 in4 enb w)) =
     setups_of w @ (if PI5_AVAILABLE w \<or> RPI_GPIO_AVAILABLE w then [ena, in1, in2] else [])"
  using assms
  by (cases "PI5_AVAILABLE w"; cases "RPI_GPIO_AVAILABLE w"; cases "truthy enb";
      cases "truthy in3"; cases "truthy in4")
     (simp_all add: L298NMotorController_init_def stop_all_def stop_motor_a_def stop_motor_b_def
        backend_defs Let_def duty_lgpio_zero setups_of_def List.map_filter_simps)

text \<open>
  C6. A bank built without channel B pins: the constructor returns the controller
  (it does not raise), and from then on every forward, backward and stop call on
  channel B returns without raising and leaves everything as it was.
\<close>

theorem channel_b_absent_is_no_op:
  "\<exists>c w1. L298NMotorController_init ena in1 in2 None None None w0 = (Inr c, w1) \<and>
     (\<forall>call w. call_b c call w = (None, w))"
proof -
  from L298NMotorController_init_result [of ena in1 in2 None None None w0] obtain c w1 where
    i: "L298NMotorController_init ena in1 in2 None None None w0 = (Inr c, w1)"
    and c: "in3_pin c = None" by (auto simp: truthy_def)
  have "call_b c call w = (None, w)" for call w
    using c by (cases call)
      (simp_all add: motor_b_forward_def motor_b_backward_def stop_motor_b_def if_then_def truthy_def)
  with i show ?thesis by blast
qed

text \<open>
  C10, as the code has it. Presence is a truth test, so a channel B pin that is 0 counts
  as absent like \<^verbatim>\<open>None\<close>. If any of \<^verbatim>\<open>in3\<close>, \<^verbatim>\<open>in4\<close>, \<^verbatim>\<open>enb\<close> is 0 or \<^verbatim>\<open>None\<close>, the
  constructor returns, calls \<^verbatim>\<open>GPIO.setup\<close> on \<^verbatim>\<open>ena\<close>, \<^verbatim>\<open>in1\<close>, \<^verbatim>\<open>in2\<close> and on no
  channel B pin, and \<^verbatim>\<open>motor_b_forward\<close> and \<^verbatim>\<open>motor_b_backward\<close> are no-ops;
  \<^verbatim>\<open>stop_motor_b\<close> is a no-op when \<^verbatim>\<open>in3\<close> or \<^verbatim>\<open>in4\<close> is 0 or \<^verbatim>\<open>None\<close>.
\<close>

theorem channel_b_pin_zero_is_absent:
  assumes "in3 \<in> {None, Some 0} \<or> in4 \<in> {None, Some 0} \<or> enb \<in> {None, Some 0}"
  shows "\<exists>c w1. L298NMotorController_init ena in1 in2 in3 in4 enb w0 = (Inr c, w1) \<and>
     setups_of w1 = setups_of w0 @
       (if PI5_AVAILABLE w0 \<or> RPI_GPIO_AVAILABLE w0 then [ena, in1, in2] else []) \<and>
     (\<forall>speed w. motor_b_forward c speed w = (None, w) \<and> motor_b_backward c speed w = (None, w)) \<and>
     (in3 \<in> {None, Some 0} \<or> in4 \<in> {None, Some 0} \<longrightarrow> (\<forall>w. stop_motor_b c w = (None, w)))"
proof -
  from assms have f: "\<not> (truthy in3 \<and> truthy in4 \<and> truthy enb)"
    by (auto simp: truthy_def)
  from L298NMotorController_init_result [of ena in1 in2 in3 in4 enb w0] obtain c w1 where
    i: "L298NMotorController_init ena in1 in2 in3 in4 enb w0 = (Inr c, w1)"
    and c: "in3_pin c = in3" "in4_pin c = in4" "enb_pin c = enb" by auto
  from L298NMotorController_init_setups [OF f, of ena in1 in2 w0] i
  have s: "setups_of w1 = setups_of w0 @
       (if PI5_AVAILABLE w0 \<or> RPI_GPIO_AVAILABLE w0 then [ena, in1, in2] else [])" by simp
  have m: "motor_b_forward c speed w = (None, w) \<and> motor_b_backward c speed w = (None, w)" for speed w
    using f c by (auto simp: motor_b_forward_def motor_b_backward_def if_then_def)
  have st: "stop_motor_b c w = (None, w)" if "in3 \<in> {None, Some 0} \<or> in4 \<in> {None, Some 0}" for w
    using that c by (auto simp: stop_motor_b_def if_then_def truthy_def)
  from i s m st show ?thesis by blast
qed

theorem channel_b_pin_zero_is_absent_witness:
  "(Some 13 \<in> {None, Some (0 :: int)} \<or> Some 19 \<in> {None, Some (0 :: int)} \<or>
      Some 0 \<in> {None, Some (0 :: int)}) \<and>
   (\<exists>c w1. L298NMotorController_init (Some 12) (Some 5) (Some 6) (Some 13) (Some 19) (Some 0)
        (fresh_world True False 1000) = (Inr c, w1) \<and>
      setups_of w1 = [Some 12, Some 5, Some 6] \<and>
      (\<forall>speed w. motor_b_forward c speed w = (None, w) \<and> motor_b_backward c speed w = (None, w)))"
proof -
  have h: "Some 13 \<in> {None, Some (0 :: int)} \<or> Some 19 \<in> {None, Some (0 :: int)} \<or>
      Some 0 \<in> {None, Some (0 :: int)}" by simp
  have e: "setups_of (fresh_world True False 1000) = []"
    by (simp add: setups_of_def fresh_world_def)
  from channel_b_pin_zero_is_absent [OF h, of "Some 12" "Some 5" "Some 6" "fresh_world True False 1000"]
  have "\<exists>c w1. L298NMotorController_init (Some 12) (Some 5) (Some 6) (Some 13) (Some 19) (Some 0)
        (fresh_world True False 1000) = (Inr c, w1) \<and>
      setups_of w1 = [Some 12, Some 5, Some 6] \<and>
      (\<forall>speed w. motor_b_forward c speed w = (None, w) \<and> motor_b_backward c speed w = (None, w))"
    unfolding e by (simp add: fresh_world_def)
  with h show ?thesis by blast
qed

text \<open>
  With \<^verbatim>\<open>enb = 0\<close> and \<^verbatim>\<open>in3\<close>, \<^verbatim>\<open>in4\<close> given, \<^verbatim>\<open>stop_motor_b\<close> is not a no-op: its guard
  tests \<^verbatim>\<open>in3\<close> and \<^verbatim>\<open>in4\<close> only, and it writes \<^verbatim>\<open>LOW\<close> to both.
\<close>

theorem stop_motor_b_pin_zero_counterexample:
  "fst (L298NMotorController_init (Some 12) (Some 5) (Some 6) (Some 13) (Some 19) (Some 0)
          (fresh_world False False 1000)) =
     Inr \<lparr>ena_pin = Some 12, in1_pin = Some 5, in2_pin = Some 6, in3_pin = Some 13,
          in4_pin = Some 19, enb_pin = Some 0, pwm_a = 0, pwm_b = None\<rparr> \<and>
   writes_of (snd (stop_motor_b \<lparr>ena_pin = Some 12, in1_pin = Some 5, in2_pin = Some 6,
          in3_pin = Some 13, in4_pin = Some 19, enb_pin = Some 0, pwm_a = 0, pwm_b = None\<rparr>
        (snd (L298NMotorController_init (Some 12) (Some 5) (Some 6) (Some 13) (Some 19) (Some 0)
           (fresh_world False False 1000))))) =
     writes_of (snd (L298NMotorController_init (Some 12) (Some 5) (Some 6) (Some 13) (Some 19)
        (Some 0) (fresh_world False False 1000))) @ [(Some 13, 0), (Some 19, 0)]"
  by code_simp

section \<open>The backend: PWM channels and release\<close>

text \<open>
  C4 fails on the code. \<^verbatim>\<open>GPIO.PWM\<close> never puts the object it builds into
  \<^verbatim>\<open>_pwm_instances\<close>, so the loop of \<^verbatim>\<open>GPIO.cleanup\<close> has nothing to stop. On the lgpio
  backend: open the chip, create a PWM channel on pin 18 and start it at 50 percent,
  then clean up. The table is empty after the creation; after the cleanup the handle
  is released, the channel is still marked running, and the only calls made on the
  library are the open, the one \<^verbatim>\<open>tx_pwm\<close> of the start and the close: no \<^verbatim>\<open>tx_pwm\<close> with
  zero duty was sent to stop it.
\<close>

theorem pwm_channel_not_tracked_by_backend:
  "pwm_instances (snd (GPIO_PWM (Some 18) 1000 (snd (GPIO_setmode BCM (fresh_world True False 1000))))) = [] \<and>
   fst (GPIO_PWM (Some 18) 1000 (snd (GPIO_setmode BCM (fresh_world True False 1000)))) = 0 \<and>
   fst (block [pwm_start 0 50, GPIO_cleanup]
     (snd (GPIO_PWM (Some 18) 1000 (snd (GPIO_setmode BCM (fresh_world True False 1000)))))) = None \<and>
   handle (snd (block [pwm_start 0 50, GPIO_cleanup]
     (snd (GPIO_PWM (Some 18) 1000 (snd (GPIO_setmode BCM (fresh_world True False 1000))))))) = None \<and>
   heap (snd (block [pwm_start 0 50, GPIO_cleanup]
     (snd (GPIO_PWM (Some 18) 1000 (snd (GPIO_setmode BCM (fresh_world True False 1000))))))) 0 =
     LgpioPWM (Some 0) (Some 18) 1000 50 True \<and>
   effects (snd (block [pwm_start 0 50, GPIO_cleanup]
     (snd (GPIO_PWM (Some 18) 1000 (snd (GPIO_setmode BCM (fresh_world True False 1000))))))) =
     [gpiochip_close 0, tx_pwm 0 (Some 18) 1000 500000, gpiochip_open 0]"
  by code_simp

section \<open>The drive coordinator: construction and a sequence of channel methods\<close>

lemma StepperMotor_init_returns:
  "\<exists>w1. StepperMotor_init in1 in2 in3 in4 spr w =
     (None, \<lparr>pins = [in1, in2, in3, in4], steps_per_rev = spr, current_step = 0\<rparr>, w1) \<and>
     max_sleep w1 = max_sleep w"
  by (cases "PI5_AVAILABLE w"; cases "RPI_GPIO_AVAILABLE w")
     (simp_all add: StepperMotor_init_def backend_defs Let_def)

lemma TankController_init_result:
  "\<exists>w1. TankController_init (lena, lin1, lin2, lin3, lin4, lenb)
       (rena, rin1, rin2, rin3, rin4, renb) (g1, g2, g3, g4) spr w =
     (Inr \<lparr>left_controller =
            \<lparr>ena_pin = lena, in1_pin = lin1, in2_pin = lin2, in3_pin = lin3, in4_pin = lin4,
             enb_pin = lenb, pwm_a = next_ref w,
             pwm_b = (if truthy lenb then Some (Suc (next_ref w)) else None)\<rparr>,
          right_controller =
            \<lparr>ena_pin = rena, in1_pin = rin1, in2_pin = rin2, in3_pin = rin3, in4_pin = rin4,
             enb_pin = renb,
             pwm_a = (if truthy lenb then Suc (Suc (next_ref w)) else Suc (next_ref w)),
             pwm_b = (if truthy renb
                      then Some (Suc (if truthy lenb then Suc (Suc (next_ref w)) else Suc (next_ref w)))
                      else None)\<rparr>,
          gimbal = \<lparr>pins = [g1, g2, g3, g4], steps_per_rev = spr, current_step = 0\<rparr>\<rparr>, w1) \<and>
     max_sleep w1 = max_sleep w"
proof -
  from L298NMotorController_init_result [of lena lin1 lin2 lin3 lin4 lenb w] obtain w1 where
    l: "L298NMotorController_init lena lin1 lin2 lin3 lin4 lenb w =
     (Inr \<lparr>ena_pin = lena, in1_pin = lin1, in2_pin = lin2, in3_pin = lin3, in4_pin = lin4,
           enb_pin = lenb, pwm_a = next_ref w,
           pwm_b = (if truthy lenb then Some (Suc (next_ref w)) else None)\<rparr>, w1)"
    and n1: "next_ref w1 = (if truthy lenb then Suc (Suc (next_ref w)) else Suc (next_ref w))"
    and m1: "max_sleep w1 = max_sleep w"
    by blast
  from L298NMotorController_init_result [of rena rin1 rin2 rin3 rin4 renb w1] obtain w2 where
    r: "L298NMotorController_init rena rin1 rin2 rin3 rin4 renb w1 =
     (Inr \<lparr>ena_pin = rena, in1_pin = rin1, in2_pin = rin2, in3_pin = rin3, in4_pin = rin4,
           enb_pin = renb, pwm_a = next_ref w1,
           pwm_b = (if truthy renb then Some (Suc (next_ref w1)) else None)\<rparr>, w2)"
    and m2: "max_sleep w2 = max_sleep w1"
    by blast
  from StepperMotor_init_returns [of g1 g2 g3 g4 spr w2] obtain w3 where
    g: "StepperMotor_init g1 g2 g3 g4 spr w2 =
     (None, \<lparr>pins = [g1, g2, g3, g4], steps_per_rev = spr, current_step = 0\<rparr>, w3)"
    and m3: "max_sleep w3 = max_sleep w2" by blast
  show ?thesis
    by (simp add: TankController_init_def l r g n1 m1 m2 m3)
qed

lemma pwm_ChangeDutyCycle_max_sleep:
  "pwm_ChangeDutyCycle r d w = (e, w') \<Longrightarrow> max_sleep w' = max_sleep w"
  by (drule pwm_ChangeDutyCycle_shape) auto

lemma drive_max_sleep:
  assumes "drive p q u v r d w = (e, w')"
  shows "max_sleep w' = max_sleep w"
proof -
  let ?w2 = "w\<lparr>effects := write_effect w q v # write_effect w p u # effects w\<rparr>"
  from assms have c: "pwm_ChangeDutyCycle r d ?w2 = (e, w')"
    unfolding drive_def
    by (cases "pwm_ChangeDutyCycle r d ?w2")
       (auto simp: GPIO_output_emit emit_def write_effect_effects split: option.splits)
  from pwm_ChangeDutyCycle_max_sleep [OF c] show ?thesis by simp
qed

lemma block_Cons_None:
  "m s = (None, s1) \<Longrightarrow> block (m # ms) s = block ms s1"
  by simp

lemma four_drives:
  assumes dp: "distinct [p1, q1, p2, q2, p3, q3, p4, q4]"
    and dr: "distinct [r1, r2, r3, r4]"
    and dy: "duty_lgpio d = Inr y"
  shows "\<exists>w'. block [drive p1 q1 u1 v1 r1 d, drive p2 q2 u2 v2 r2 d,
                     drive p3 q3 u3 v3 r3 d, drive p4 q4 u4 v4 r4 d] w = (None, w') \<and>
     pin_level (effects w') p1 = Some u1 \<and> pin_level (effects w') q1 = Some v1 \<and>
     pin_level (effects w') p2 = Some u2 \<and> pin_level (effects w') q2 = Some v2 \<and>
     pin_level (effects w') p3 = Some u3 \<and> pin_level (effects w') q3 = Some v3 \<and>
     pin_level (effects w') p4 = Some u4 \<and> pin_level (effects w') q4 = Some v4 \<and>
     duty_cycle (heap w' r1) = d \<and> duty_cycle (heap w' r2) = d \<and>
     duty_cycle (heap w' r3) = d \<and> duty_cycle (heap w' r4) = d \<and>
     sleeps_of w' = sleeps_of w \<and> max_sleep w' = max_sleep w"
proof -
  obtain e1 w1 where 1: "drive p1 q1 u1 v1 r1 d w = (e1, w1)" by (metis surj_pair)
  obtain e2 w2 where 2: "drive p2 q2 u2 v2 r2 d w1 = (e2, w2)" by (metis surj_pair)
  obtain e3 w3 where 3: "drive p3 q3 u3 v3 r3 d w2 = (e3, w3)" by (metis surj_pair)
  obtain e4 w4 where 4: "drive p4 q4 u4 v4 r4 d w3 = (e4, w4)" by (metis surj_pair)
  note a = drive_post [OF 1 [unfolded drive_def]]
  note b = drive_post [OF 2 [unfolded drive_def]]
  note c = drive_post [OF 3 [unfolded drive_def]]
  note f = drive_post [OF 4 [unfolded drive_def]]
  have e: "e1 = None" "e2 = None" "e3 = None" "e4 = None"
    using a(3) b(3) c(3) f(3) dy by simp_all
  have run: "block [drive p1 q1 u1 v1 r1 d, drive p2 q2 u2 v2 r2 d,
                     drive p3 q3 u3 v3 r3 d, drive p4 q4 u4 v4 r4 d] w = (None, w4)"
    using 1 2 3 4 e by simp
  have lv: "pin_level (effects w4) x =
      (if x = q4 then Some v4 else if x = p4 then Some u4
       else if x = q3 then Some v3 else if x = p3 then Some u3
       else if x = q2 then Some v2 else if x = p2 then Some u2
       else if x = q1 then Some v1 else if x = p1 then Some u1
       else pin_level (effects w) x)" for x
    by (simp only: a(1) b(1) c(1) f(1))
  have du: "duty_cycle (heap w4 r) =
      (if r = r4 then d else if r = r3 then d else if r = r2 then d else if r = r1 then d
       else duty_cycle (heap w r))" for r
    by (simp only: a(2) b(2) c(2) f(2))
  have sl: "sleeps_of w4 = sleeps_of w" by (simp only: a(4) b(4) c(4) f(4))
  have ms: "max_sleep w4 = max_sleep w"
    by (simp only: drive_max_sleep [OF 1] drive_max_sleep [OF 2] drive_max_sleep [OF 3]
        drive_max_sleep [OF 4])
  from dp have
    "pin_level (effects w4) p1 = Some u1" "pin_level (effects w4) q1 = Some v1"
    "pin_level (effects w4) p2 = Some u2" "pin_level (effects w4) q2 = Some v2"
    "pin_level (effects w4) p3 = Some u3" "pin_level (effects w4) q3 = Some v3"
    "pin_level (effects w4) p4 = Some u4" "pin_level (effects w4) q4 = Some v4"
    unfolding lv by auto
  moreover from dr have "duty_cycle (heap w4 r1) = d" "duty_cycle (heap w4 r2) = d"
    "duty_cycle (heap w4 r3) = d" "duty_cycle (heap w4 r4) = d"
    unfolding du by auto
  ultimately show ?thesis using run sl ms by blast
qed

section \<open>The drive coordinator: motion calls\<close>

lemma block_end [simp]:
  "(case m s of (None, s') \<Rightarrow> (None, s') | (Some e, s') \<Rightarrow> (Some e, s')) = m s"
  by (cases "m s") (auto split: option.splits)

lemma if_then_False: "if_then False m = block []"
  by (rule ext) (simp add: if_then_def)

lemma block_snoc:
  "block (ms @ [m]) s = (case block ms s of (None, s') \<Rightarrow> m s' | (Some e, s') \<Rightarrow> (Some e, s'))"
  by (simp add: block_append split: prod.splits option.splits)

lemma block_flatten: "block (ms @ block ns # rest) s = block (ms @ ns @ rest) s"
  by (simp add: block_append split: prod.splits option.splits)

lemma motor_a_drive:
  "motor_a_forward c s = drive (in1_pin c) (in2_pin c) HIGH LOW (pwm_a c) s"
  "motor_a_backward c s = drive (in1_pin c) (in2_pin c) LOW HIGH (pwm_a c) s"
  "stop_motor_a c = drive (in1_pin c) (in2_pin c) LOW LOW (pwm_a c) 0"
  by (simp_all add: motor_a_forward_def motor_a_backward_def stop_motor_a_def drive_def)

lemma motor_b_drive:
  assumes "wired c rb"
  shows "motor_b_forward c s = drive (in3_pin c) (in4_pin c) HIGH LOW rb s"
    and "motor_b_backward c s = drive (in3_pin c) (in4_pin c) LOW HIGH rb s"
    and "stop_motor_b c = drive (in3_pin c) (in4_pin c) LOW LOW rb 0"
  using assms
  by (simp_all add: motor_b_forward_def motor_b_backward_def stop_motor_b_def drive_def
      wired_def if_then_True on_pwm_b_def)

lemma motion_call_drives:
  assumes "tank_wired t rl rr"
  shows "motion_call t m s duration =
     block [drive (in1_pin (left_controller t)) (in2_pin (left_controller t))
              (fst (fst (motion_levels m))) (snd (fst (motion_levels m))) (pwm_a (left_controller t)) s,
            drive (in3_pin (left_controller t)) (in4_pin (left_controller t))
              (fst (fst (motion_levels m))) (snd (fst (motion_levels m))) rl s,
            drive (in1_pin (right_controller t)) (in2_pin (right_controller t))
              (fst (snd (motion_levels m))) (snd (snd (motion_levels m))) (pwm_a (right_controller t)) s,
            drive (in3_pin (right_controller t)) (in4_pin (right_controller t))
              (fst (snd (motion_levels m))) (snd (snd (motion_levels m))) rr s,
            (case duration of
               None \<Rightarrow> block []
             | Some d \<Rightarrow> if_then (d \<noteq> 0) (block [time_sleep (Finite d), tank_stop_all t]))]"
proof -
  from assms have l: "wired (left_controller t) rl" and r: "wired (right_controller t) rr"
    by (simp_all add: tank_wired_def)
  show ?thesis
    by (cases m)
       (simp_all add: move_forward_def move_backward_def turn_left_def turn_right_def
          motor_a_drive motor_b_drive [OF l] motor_b_drive [OF r])
qed

lemma tank_stop_all_drives:
  assumes "tank_wired t rl rr"
  shows "tank_stop_all t w =
     block [drive (in1_pin (left_controller t)) (in2_pin (left_controller t)) LOW LOW
              (pwm_a (left_controller t)) 0,
            drive (in3_pin (left_controller t)) (in4_pin (left_controller t)) LOW LOW rl 0,
            drive (in1_pin (right_controller t)) (in2_pin (right_controller t)) LOW LOW
              (pwm_a (right_controller t)) 0,
            drive (in3_pin (right_controller t)) (in4_pin (right_controller t)) LOW LOW rr 0] w"
proof -
  from assms have l: "wired (left_controller t) rl" and r: "wired (right_controller t) rr"
    by (simp_all add: tank_wired_def)
  show ?thesis
    unfolding tank_stop_all_def stop_all_def motor_a_drive motor_b_drive [OF l] motor_b_drive [OF r]
    using block_flatten [of "[]" "[drive (in1_pin (left_controller t)) (in2_pin (left_controller t)) LOW LOW
              (pwm_a (left_controller t)) 0,
            drive (in3_pin (left_controller t)) (in4_pin (left_controller t)) LOW LOW rl 0]"
          "[block [drive (in1_pin (right_controller t)) (in2_pin (right_controller t)) LOW LOW
              (pwm_a (right_controller t)) 0,
            drive (in3_pin (right_controller t)) (in4_pin (right_controller t)) LOW LOW rr 0]]" w]
      block_flatten [of "[drive (in1_pin (left_controller t)) (in2_pin (left_controller t)) LOW LOW
              (pwm_a (left_controller t)) 0,
            drive (in3_pin (left_controller t)) (in4_pin (left_controller t)) LOW LOW rl 0]"
          "[drive (in1_pin (right_controller t)) (in2_pin (right_controller t)) LOW LOW
              (pwm_a (right_controller t)) 0,
            drive (in3_pin (right_controller t)) (in4_pin (right_controller t)) LOW LOW rr 0]" "[]" w]
    by (simp only: append_Cons append_Nil)
qed

lemma direction_of_level_direction:
  "pin_level (effects w) p = Some u \<Longrightarrow> pin_level (effects w) q = Some v \<Longrightarrow>
   direction_of w p q = level_direction (u, v)"
  by (simp add: direction_of_def level_direction_def)

lemma tank_drives_post:
  assumes tw: "tank_wired t rl rr" and dy: "duty_lgpio d = Inr y"
  shows "\<exists>w'. block [drive (in1_pin (left_controller t)) (in2_pin (left_controller t))
                      (fst lv) (snd lv) (pwm_a (left_controller t)) d,
                    drive (in3_pin (left_controller t)) (in4_pin (left_controller t))
                      (fst lv) (snd lv) rl d,
                    drive (in1_pin (right_controller t)) (in2_pin (right_controller t))
                      (fst rv) (snd rv) (pwm_a (right_controller t)) d,
                    drive (in3_pin (right_controller t)) (in4_pin (right_controller t))
                      (fst rv) (snd rv) rr d] w = (None, w') \<and>
     channel_a (left_controller t) w' = (level_direction lv, Some d) \<and>
     channel_b (left_controller t) w' = (level_direction lv, Some d) \<and>
     channel_a (right_controller t) w' = (level_direction rv, Some d) \<and>
     channel_b (right_controller t) w' = (level_direction rv, Some d) \<and>
     sleeps_of w' = sleeps_of w \<and> max_sleep w' = max_sleep w"
proof -
  from tw have dp: "distinct [in1_pin (left_controller t), in2_pin (left_controller t),
                in3_pin (left_controller t), in4_pin (left_controller t),
                in1_pin (right_controller t), in2_pin (right_controller t),
                in3_pin (right_controller t), in4_pin (right_controller t)]"
    and dr: "distinct [pwm_a (left_controller t), rl, pwm_a (right_controller t), rr]"
    and bl: "pwm_b (left_controller t) = Some rl" and br: "pwm_b (right_controller t) = Some rr"
    by (simp_all add: tank_wired_def wired_def)
  from four_drives [OF dp dr dy, of "fst lv" "snd lv" "fst lv" "snd lv" "fst rv" "snd rv"
      "fst rv" "snd rv" w]
  obtain w' where r: "block [drive (in1_pin (left_controller t)) (in2_pin (left_controller t))
                      (fst lv) (snd lv) (pwm_a (left_controller t)) d,
                    drive (in3_pin (left_controller t)) (in4_pin (left_controller t))
                      (fst lv) (snd lv) rl d,
                    drive (in1_pin (right_controller t)) (in2_pin (right_controller t))
                      (fst rv) (snd rv) (pwm_a (right_controller t)) d,
                    drive (in3_pin (right_controller t)) (in4_pin (right_controller t))
                      (fst rv) (snd rv) rr d] w = (None, w')"
    and l1: "pin_level (effects w') (in1_pin (left_controller t)) = Some (fst lv)"
      "pin_level (effects w') (in2_pin (left_controller t)) = Some (snd lv)"
    and l2: "pin_level (effects w') (in3_pin (left_controller t)) = Some (fst lv)"
      "pin_level (effects w') (in4_pin (left_controller t)) = Some (snd lv)"
    and l3: "pin_level (effects w') (in1_pin (right_controller t)) = Some (fst rv)"
      "pin_level (effects w') (in2_pin (right_controller t)) = Some (snd rv)"
    and l4: "pin_level (effects w') (in3_pin (right_controller t)) = Some (fst rv)"
      "pin_level (effects w') (in4_pin (right_controller t)) = Some (snd rv)"
    and d: "duty_cycle (heap w' (pwm_a (left_controller t))) = d" "duty_cycle (heap w' rl) = d"
      "duty_cycle (heap w' (pwm_a (right_controller t))) = d" "duty_cycle (heap w' rr) = d"
    and f: "sleeps_of w' = sleeps_of w" "max_sleep w' = max_sleep w"
    by blast
  have "channel_a (left_controller t) w' = (level_direction lv, Some d)"
    by (simp add: channel_a_def direction_of_level_direction [OF l1] d)
  moreover have "channel_b (left_controller t) w' = (level_direction lv, Some d)"
    by (simp add: channel_b_def direction_of_level_direction [OF l2] d bl)
  moreover have "channel_a (right_controller t) w' = (level_direction rv, Some d)"
    by (simp add: channel_a_def direction_of_level_direction [OF l3] d)
  moreover have "channel_b (right_controller t) w' = (level_direction rv, Some d)"
    by (simp add: channel_b_def direction_of_level_direction [OF l4] d br)
  ultimately show ?thesis using r f by blast
qed

lemma motion_call_untimed:
  assumes tw: "tank_wired t rl rr" and dy: "duty_lgpio s = Inr y"
  shows "\<exists>w'. motion_call t m s None w = (None, w') \<and>
     channel_a (left_controller t) w' = (level_direction (fst (motion_levels m)), Some s) \<and>
     channel_b (left_controller t) w' = (level_direction (fst (motion_levels m)), Some s) \<and>
     channel_a (right_controller t) w' = (level_direction (snd (motion_levels m)), Some s) \<and>
     channel_b (right_controller t) w' = (level_direction (snd (motion_levels m)), Some s) \<and>
     sleeps_of w' = sleeps_of w \<and> max_sleep w' = max_sleep w"
proof -
  from tank_drives_post [OF tw dy, of "fst (motion_levels m)" "snd (motion_levels m)" w]
  obtain w' where r: "block [drive (in1_pin (left_controller t)) (in2_pin (left_controller t))
              (fst (fst (motion_levels m))) (snd (fst (motion_levels m))) (pwm_a (left_controller t)) s,
            drive (in3_pin (left_controller t)) (in4_pin (left_controller t))
              (fst (fst (motion_levels m))) (snd (fst (motion_levels m))) rl s,
            drive (in1_pin (right_controller t)) (in2_pin (right_controller t))
              (fst (snd (motion_levels m))) (snd (snd (motion_levels m))) (pwm_a (right_controller t)) s,
            drive (in3_pin (right_controller t)) (in4_pin (right_controller t))
              (fst (snd (motion_levels m))) (snd (snd (motion_levels m))) rr s] w = (None, w')"
    and post: "channel_a (left_controller t) w' = (level_direction (fst (motion_levels m)), Some s)"
     "channel_b (left_controller t) w' = (level_direction (fst (motion_levels m)), Some s)"
     "channel_a (right_controller t) w' = (level_direction (snd (motion_levels m)), Some s)"
     "channel_b (right_controller t) w' = (level_direction (snd (motion_levels m)), Some s)"
     "sleeps_of w' = sleeps_of w" "max_sleep w' = max_sleep w" by blast
  have "motion_call t m s None w = (None, w')"
    unfolding motion_call_drives [OF tw]
    using block_snoc [of "[drive (in1_pin (left_controller t)) (in2_pin (left_controller t))
              (fst (fst (motion_levels m))) (snd (fst (motion_levels m))) (pwm_a (left_controller t)) s,
            drive (in3_pin (left_controller t)) (in4_pin (left_controller t))
              (fst (fst (motion_levels m))) (snd (fst (motion_levels m))) rl s,
            drive (in1_pin (right_controller t)) (in2_pin (right_controller t))
              (fst (snd (motion_levels m))) (snd (snd (motion_levels m))) (pwm_a (right_controller t)) s,
            drive (in3_pin (right_controller t)) (in4_pin (right_controller t))
              (fst (snd (motion_levels m))) (snd (snd (motion_levels m))) rr s]" "block []" w] r
    by (simp del: block.simps(2) add: )
  with post show ?thesis by blast
qed

lemma timed_tail:
  "block (ms @ [block [sl, st]]) w = block [block (ms @ [block []]), sl, st] w"
  by (simp add: block_append split: prod.splits option.splits)

lemma motion_call_timed_unfold:
  assumes "d \<noteq> 0"
  shows "motion_call t m s (Some d) w =
     block [motion_call t m s None, time_sleep (Finite d), tank_stop_all t] w"
  using assms
    timed_tail [of "[motor_a_forward (left_controller t) s, motor_b_forward (left_controller t) s,
      motor_a_forward (right_controller t) s, motor_b_forward (right_controller t) s]"
      "time_sleep (Finite d)" "tank_stop_all t" w]
    timed_tail [of "[motor_a_backward (left_controller t) s, motor_b_backward (left_controller t) s,
      motor_a_backward (right_controller t) s, motor_b_backward (right_controller t) s]"
      "time_sleep (Finite d)" "tank_stop_all t" w]
    timed_tail [of "[motor_a_backward (left_controller t) s, motor_b_backward (left_controller t) s,
      motor_a_forward (right_controller t) s, motor_b_forward (right_controller t) s]"
      "time_sleep (Finite d)" "tank_stop_all t" w]
    timed_tail [of "[motor_a_forward (left_controller t) s, motor_b_forward (left_controller t) s,
      motor_a_backward (right_controller t) s, motor_b_backward (right_controller t) s]"
      "time_sleep (Finite d)" "tank_stop_all t" w]
  by (cases m)
     (simp_all only: motion_call.simps move_forward_def move_backward_def turn_left_def
        turn_right_def option.case if_then_True append_Cons append_Nil simp_thms)

lemma time_sleep_post:
  assumes "0 \<le> d" and "d \<le> max_sleep w"
  shows "time_sleep (Finite d) w = (None, w\<lparr>effects := sleep d # effects w\<rparr>)"
  using assms by (simp add: time_sleep_def emit_def)

lemma tank_stop_all_post:
  assumes tw: "tank_wired t rl rr"
  shows "\<exists>w'. tank_stop_all t w = (None, w') \<and>
     channel_a (left_controller t) w' = (Some Stopped, Some 0) \<and>
     channel_b (left_controller t) w' = (Some Stopped, Some 0) \<and>
     channel_a (right_controller t) w' = (Some Stopped, Some 0) \<and>
     channel_b (right_controller t) w' = (Some Stopped, Some 0) \<and>
     sleeps_of w' = sleeps_of w"
  using tank_drives_post [OF tw duty_lgpio_zero, of "(LOW, LOW)" "(LOW, LOW)" w]
  unfolding tank_stop_all_drives [OF tw] fst_conv snd_conv
  by (simp only: level_direction_def) (simp del: block.simps, blast)

lemma motion_call_timed:
  assumes tw: "tank_wired t rl rr" and dy: "duty_lgpio s = Inr y"
    and d: "0 < d" "d \<le> max_sleep w"
  shows "\<exists>w'. motion_call t m s (Some d) w = (None, w') \<and>
     channel_a (left_controller t) w' = (Some Stopped, Some 0) \<and>
     channel_b (left_controller t) w' = (Some Stopped, Some 0) \<and>
     channel_a (right_controller t) w' = (Some Stopped, Some 0) \<and>
     channel_b (right_controller t) w' = (Some Stopped, Some 0) \<and>
     sleeps_of w' = sleeps_of w @ [d]"
proof -
  from motion_call_untimed [OF tw dy, of m w] obtain w1 where
    1: "motion_call t m s None w = (None, w1)" "sleeps_of w1 = sleeps_of w"
    "max_sleep w1 = max_sleep w" by blast
  let ?w2 = "w1\<lparr>effects := sleep d # effects w1\<rparr>"
  from d 1(3) have 2: "time_sleep (Finite d) w1 = (None, ?w2)"
    by (intro time_sleep_post) simp_all
  have s2: "sleeps_of ?w2 = sleeps_of w @ [d]"
    using 1(2) by (simp add: sleeps_of_emit)
  from tank_stop_all_post [OF tw, of ?w2] obtain w' where
    3: "tank_stop_all t ?w2 = (None, w')"
    "channel_a (left_controller t) w' = (Some Stopped, Some 0)"
    "channel_b (left_controller t) w' = (Some Stopped, Some 0)"
    "channel_a (right_controller t) w' = (Some Stopped, Some 0)"
    "channel_b (right_controller t) w' = (Some Stopped, Some 0)"
    "sleeps_of w' = sleeps_of ?w2" by blast
  from d have "d \<noteq> 0" by simp
  from motion_call_timed_unfold [OF this, of t m s w] 1(1) 2 3(1)
  have "motion_call t m s (Some d) w = (None, w')" by simp
  with 3 s2 show ?thesis by simp
qed

text \<open>What the constructor of the coordinator gives when every pin of both banks is wired.\<close>

lemma TankController_init_wired:
  assumes "TankController_init (lena, lin1, lin2, lin3, lin4, lenb)
       (rena, rin1, rin2, rin3, rin4, renb) (g1, g2, g3, g4) spr w0 = (Inr t, w1)"
    and "truthy lin3 \<and> truthy lin4 \<and> truthy lenb \<and> truthy rin3 \<and> truthy rin4 \<and> truthy renb"
    and "distinct [lin1, lin2, lin3, lin4, rin1, rin2, rin3, rin4]"
  shows "tank_wired t (Suc (next_ref w0)) (Suc (Suc (Suc (next_ref w0))))"
  using TankController_init_result [of lena lin1 lin2 lin3 lin4 lenb rena rin1 rin2 rin3 rin4
      renb g1 g2 g3 g4 spr w0] assms
  by (auto simp: tank_wired_def wired_def)

text \<open>
  C9. On a tank the constructor returned, with every pin of both banks wired and the
  eight direction pins different, and at any speed from 0 to 100: \<^verbatim>\<open>turn_left\<close> returns
  with both channels of the left bank backward and both channels of the right bank
  forward; \<^verbatim>\<open>turn_right\<close> returns with the mirrored assignment, left forward and right
  backward; the duty of all four channels is the speed in both.
\<close>

theorem turn_left_turn_right_mirrored:
  assumes "TankController_init (lena, lin1, lin2, lin3, lin4, lenb)
       (rena, rin1, rin2, rin3, rin4, renb) (g1, g2, g3, g4) spr w0 = (Inr t, w1)"
    and "truthy lin3 \<and> truthy lin4 \<and> truthy lenb \<and> truthy rin3 \<and> truthy rin4 \<and> truthy renb"
    and "distinct [lin1, lin2, lin3, lin4, rin1, rin2, rin3, rin4]"
    and "0 \<le> speed" and "speed \<le> 100"
  shows "(\<exists>w'. turn_left t speed None w = (None, w') \<and>
            channel_a (left_controller t) w' = (Some Backward, Some speed) \<and>
            channel_b (left_controller t) w' = (Some Backward, Some speed) \<and>
            channel_a (right_controller t) w' = (Some Forward, Some speed) \<and>
            channel_b (right_controller t) w' = (Some Forward, Some speed)) \<and>
         (\<exists>w'. turn_right t speed None w = (None, w') \<and>
            channel_a (left_controller t) w' = (Some Forward, Some speed) \<and>
            channel_b (left_controller t) w' = (Some Forward, Some speed) \<and>
            channel_a (right_controller t) w' = (Some Backward, Some speed) \<and>
            channel_b (right_controller t) w' = (Some Backward, Some speed))"
proof -
  note tw = TankController_init_wired [OF assms(1-3)]
  from duty_lgpio_total [OF assms(4,5)] obtain y where dy: "duty_lgpio speed = Inr y" ..
  from motion_call_untimed [OF tw dy, of Turn_left w] motion_call_untimed [OF tw dy, of Turn_right w]
  show ?thesis by (simp add: level_direction_def) blast
qed

text \<open>
  C8, as the code has it. The test is \<^verbatim>\<open>if duration:\<close>, so a duration of 0 counts as
  omitted. On a tank the constructor returned, with every pin of both banks wired, the
  eight direction pins different and a speed from 0 to 100, for each of the four motion
  calls: with the duration omitted or 0 the call returns without pausing, all four
  channels still driven in the direction of the motion at the duty given; with a
  positive duration that the platform can sleep, the call is the same drive, then
  \<^verbatim>\<open>time.sleep(duration)\<close>, then \<^verbatim>\<open>stop_all\<close>, and it returns having paused once for that
  duration with all four channels stopped.
\<close>

theorem motion_call_duration:
  assumes "TankController_init (lena, lin1, lin2, lin3, lin4, lenb)
       (rena, rin1, rin2, rin3, rin4, renb) (g1, g2, g3, g4) spr w0 = (Inr t, w1)"
    and "truthy lin3 \<and> truthy lin4 \<and> truthy lenb \<and> truthy rin3 \<and> truthy rin4 \<and> truthy renb"
    and "distinct [lin1, lin2, lin3, lin4, rin1, rin2, rin3, rin4]"
    and "0 \<le> speed" and "speed \<le> 100"
    and "0 < d" and "d \<le> max_sleep w"
  shows "motion_call t m speed (Some 0) w = motion_call t m speed None w \<and>
         (\<exists>w'. motion_call t m speed None w = (None, w') \<and>
            sleeps_of w' = sleeps_of w \<and>
            (\<forall>ch \<in> {channel_a (left_controller t) w', channel_b (left_controller t) w',
                      channel_a (right_controller t) w', channel_b (right_controller t) w'}.
               fst ch \<in> {Some Forward, Some Backward} \<and> snd ch = Some speed)) \<and>
         motion_call t m speed (Some d) w =
           block [motion_call t m speed None, time_sleep (Finite d), tank_stop_all t] w \<and>
         (\<exists>w'. motion_call t m speed (Some d) w = (None, w') \<and>
            sleeps_of w' = sleeps_of w @ [d] \<and>
            (\<forall>ch \<in> {channel_a (left_controller t) w', channel_b (left_controller t) w',
                      channel_a (right_controller t) w', channel_b (right_controller t) w'}.
               ch = (Some Stopped, Some 0)))"
proof -
  note tw = TankController_init_wired [OF assms(1-3)]
  from duty_lgpio_total [OF assms(4,5)] obtain y where dy: "duty_lgpio speed = Inr y" ..
  have zero: "motion_call t m speed (Some 0) w = motion_call t m speed None w"
    by (cases m)
       (simp_all only: motion_call.simps move_forward_def move_backward_def turn_left_def
          turn_right_def option.case if_then_False simp_thms)
  have lv: "level_direction (fst (motion_levels m)) \<in> {Some Forward, Some Backward}"
    "level_direction (snd (motion_levels m)) \<in> {Some Forward, Some Backward}"
    by (cases m; simp add: level_direction_def)+
  from motion_call_untimed [OF tw dy, of m w] lv
  have untimed: "\<exists>w'. motion_call t m speed None w = (None, w') \<and>
            sleeps_of w' = sleeps_of w \<and>
            (\<forall>ch \<in> {channel_a (left_controller t) w', channel_b (left_controller t) w',
                      channel_a (right_controller t) w', channel_b (right_controller t) w'}.
               fst ch \<in> {Some Forward, Some Backward} \<and> snd ch = Some speed)"
    by auto
  from assms(6) have "d \<noteq> 0" by simp
  note unfold = motion_call_timed_unfold [OF this, of t m speed w]
  from motion_call_timed [OF tw dy assms(6,7), of m]
  have timed: "\<exists>w'. motion_call t m speed (Some d) w = (None, w') \<and>
            sleeps_of w' = sleeps_of w @ [d] \<and>
            (\<forall>ch \<in> {channel_a (left_controller t) w', channel_b (left_controller t) w',
                      channel_a (right_controller t) w', channel_b (right_controller t) w'}.
               ch = (Some Stopped, Some 0))"
    by auto
  from zero untimed unfold timed show ?thesis by blast
qed

theorem turn_left_turn_right_mirrored_witness:
  "\<exists>t w1. TankController_init (Some 12, Some 5, Some 6, Some 13, Some 19, Some 26)
       (Some 16, Some 20, Some 21, Some 23, Some 24, Some 25) (Some 17, Some 18, Some 27, Some 22)
       200 (fresh_world True False 1000) = (Inr t, w1) \<and>
     (truthy (Some 13) \<and> truthy (Some 19) \<and> truthy (Some 26) \<and>
      truthy (Some 23) \<and> truthy (Some 24) \<and> truthy (Some 25)) \<and>
     distinct [Some 5, Some 6, Some 13, Some 19, Some 20, Some 21, Some 23, Some (24 :: int)] \<and>
     (0 :: rat) \<le> 50 \<and> (50 :: rat) \<le> 100 \<and>
     (\<exists>w'. turn_left t 50 None w1 = (None, w') \<and>
            channel_a (left_controller t) w' = (Some Backward, Some 50) \<and>
            channel_b (left_controller t) w' = (Some Backward, Some 50) \<and>
            channel_a (right_controller t) w' = (Some Forward, Some 50) \<and>
            channel_b (right_controller t) w' = (Some Forward, Some 50)) \<and>
     (\<exists>w'. turn_right t 50 None w1 = (None, w') \<and>
            channel_a (left_controller t) w' = (Some Forward, Some 50) \<and>
            channel_b (left_controller t) w' = (Some Forward, Some 50) \<and>
            channel_a (right_controller t) w' = (Some Backward, Some 50) \<and>
            channel_b (right_controller t) w' = (Some Backward, Some 50))"
proof -
  from TankController_init_result [of "Some 12" "Some 5" "Some 6" "Some 13" "Some 19" "Some 26"
      "Some 16" "Some 20" "Some 21" "Some 23" "Some 24" "Some 25" "Some 17" "Some 18" "Some 27"
      "Some 22" 200 "fresh_world True False 1000"]
  obtain t w1 where i: "TankController_init (Some 12, Some 5, Some 6, Some 13, Some 19, Some 26)
       (Some 16, Some 20, Some 21, Some 23, Some 24, Some 25) (Some 17, Some 18, Some 27, Some 22)
       200 (fresh_world True False 1000) = (Inr t, w1)" by blast
  have h2: "truthy (Some 13) \<and> truthy (Some 19) \<and> truthy (Some 26) \<and>
      truthy (Some 23) \<and> truthy (Some 24) \<and> truthy (Some 25)" by (simp add: truthy_def)
  have h3: "distinct [Some 5, Some 6, Some 13, Some 19, Some 20, Some 21, Some 23, Some (24 :: int)]"
    by simp
  have h4: "(0 :: rat) \<le> 50" and h5: "(50 :: rat) \<le> 100" by simp_all
  from turn_left_turn_right_mirrored [OF i h2 h3 h4 h5, of w1] i h2 h3 h4 h5
  show ?thesis by blast
qed

theorem motion_call_duration_witness:
  "\<exists>t w1. TankController_init (Some 12, Some 5, Some 6, Some 13, Some 19, Some 26)
       (Some 16, Some 20, Some 21, Some 23, Some 24, Some 25) (Some 17, Some 18, Some 27, Some 22)
       200 (fresh_world True False 1000) = (Inr t, w1) \<and>
     (truthy (Some 13) \<and> truthy (Some 19) \<and> truthy (Some 26) \<and>
      truthy (Some 23) \<and> truthy (Some 24) \<and> truthy (Some 25)) \<and>
     distinct [Some 5, Some 6, Some 13, Some 19, Some 20, Some 21, Some 23, Some (24 :: int)] \<and>
     (0 :: rat) \<le> 50 \<and> (50 :: rat) \<le> 100 \<and> (0 :: rat) < 2 \<and> 2 \<le> max_sleep w1 \<and>
     (\<exists>w'. motion_call t Move_forward 50 (Some 2) w1 = (None, w') \<and>
            sleeps_of w' = sleeps_of w1 @ [2] \<and>
            (\<forall>ch \<in> {channel_a (left_controller t) w', channel_b (left_controller t) w',
                      channel_a (right_controller t) w', channel_b (right_controller t) w'}.
               ch = (Some Stopped, Some 0)))"
proof -
  from TankController_init_result [of "Some 12" "Some 5" "Some 6" "Some 13" "Some 19" "Some 26"
      "Some 16" "Some 20" "Some 21" "Some 23" "Some 24" "Some 25" "Some 17" "Some 18" "Some 27"
      "Some 22" 200 "fresh_world True False 1000"]
  obtain t w1 where i: "TankController_init (Some 12, Some 5, Some 6, Some 13, Some 19, Some 26)
       (Some 16, Some 20, Some 21, Some 23, Some 24, Some 25) (Some 17, Some 18, Some 27, Some 22)
       200 (fresh_world True False 1000) = (Inr t, w1)"
    and m: "max_sleep w1 = max_sleep (fresh_world True False 1000)" by blast
  have h2: "truthy (Some 13) \<and> truthy (Some 19) \<and> truthy (Some 26) \<and>
      truthy (Some 23) \<and> truthy (Some 24) \<and> truthy (Some 25)" by (simp add: truthy_def)
  have h3: "distinct [Some 5, Some 6, Some 13, Some 19, Some 20, Some 21, Some 23, Some (24 :: int)]"
    by simp
  have h4: "(0 :: rat) \<le> 50" and h5: "(50 :: rat) \<le> 100" and h6: "(0 :: rat) < 2" by simp_all
  have h7: "2 \<le> max_sleep w1" by (simp add: m fresh_world_def)
  from motion_call_duration [OF i h2 h3 h4 h5 h6 h7, of Move_forward] i h2 h3 h4 h5 h6 h7
  show ?thesis by blast
qed

text \<open>
  The claim fails for a duration of 0: it is given, yet \<^verbatim>\<open>move_forward(50, 0)\<close> on the
  simulation backend returns without a pause and without a stop, the left bank's
  channel A still forward at duty 50.
\<close>

theorem move_forward_zero_duration_counterexample:
  "fst (TankController_init (Some 12, Some 5, Some 6, Some 13, Some 19, Some 26)
       (Some 16, Some 20, Some 21, Some 23, Some 24, Some 25) (Some 17, Some 18, Some 27, Some 22)
       200 (fresh_world False False 1000)) =
     Inr \<lparr>left_controller = \<lparr>ena_pin = Some 12, in1_pin = Some 5, in2_pin = Some 6,
            in3_pin = Some 13, in4_pin = Some 19, enb_pin = Some 26, pwm_a = 0, pwm_b = Some 1\<rparr>,
          right_controller = \<lparr>ena_pin = Some 16, in1_pin = Some 20, in2_pin = Some 21,
            in3_pin = Some 23, in4_pin = Some 24, enb_pin = Some 25, pwm_a = 2, pwm_b = Some 3\<rparr>,
          gimbal = \<lparr>pins = [Some 17, Some 18, Some 27, Some 22], steps_per_rev = 200,
            current_step = 0\<rparr>\<rparr> \<and>
   fst (move_forward \<lparr>left_controller = \<lparr>ena_pin = Some 12, in1_pin = Some 5, in2_pin = Some 6,
            in3_pin = Some 13, in4_pin = Some 19, enb_pin = Some 26, pwm_a = 0, pwm_b = Some 1\<rparr>,
          right_controller = \<lparr>ena_pin = Some 16, in1_pin = Some 20, in2_pin = Some 21,
            in3_pin = Some 23, in4_pin = Some 24, enb_pin = Some 25, pwm_a = 2, pwm_b = Some 3\<rparr>,
          gimbal = \<lparr>pins = [Some 17, Some 18, Some 27, Some 22], steps_per_rev = 200,
            current_step = 0\<rparr>\<rparr> 50 (Some 0)
        (snd (TankController_init (Some 12, Some 5, Some 6, Some 13, Some 19, Some 26)
          (Some 16, Some 20, Some 21, Some 23, Some 24, Some 25)
          (Some 17, Some 18, Some 27, Some 22) 200 (fresh_world False False 1000)))) = None \<and>
   sleeps_of (snd (move_forward \<lparr>left_controller = \<lparr>ena_pin = Some 12, in1_pin = Some 5,
            in2_pin = Some 6, in3_pin = Some 13, in4_pin = Some 19, enb_pin = Some 26, pwm_a = 0,
            pwm_b = Some 1\<rparr>,
          right_controller = \<lparr>ena_pin = Some 16, in1_pin = Some 20, in2_pin = Some 21,
            in3_pin = Some 23, in4_pin = Some 24, enb_pin = Some 25, pwm_a = 2, pwm_b = Some 3\<rparr>,
          gimbal = \<lparr>pins = [Some 17, Some 18, Some 27, Some 22], steps_per_rev = 200,
            current_step = 0\<rparr>\<rparr> 50 (Some 0)
        (snd (TankController_init (Some 12, Some 5, Some 6, Some 13, Some 19, Some 26)
          (Some 16, Some 20, Some 21, Some 23, Some 24, Some 25)
          (Some 17, Some 18, Some 27, Some 22) 200 (fresh_world False False 1000))))) = [] \<and>
   channel_a \<lparr>ena_pin = Some 12, in1_pin = Some 5, in2_pin = Some 6,
            in3_pin = Some 13, in4_pin = Some 19, enb_pin = Some 26, pwm_a = 0, pwm_b = Some 1\<rparr>
     (snd (move_forward \<lparr>left_controller = \<lparr>ena_pin = Some 12, in1_pin = Some 5,
            in2_pin = Some 6, in3_pin = Some 13, in4_pin = Some 19, enb_pin = Some 26, pwm_a = 0,
            pwm_b = Some 1\<rparr>,
          right_controller = \<lparr>ena_pin = Some 16, in1_pin = Some 20, in2_pin = Some 21,
            in3_pin = Some 23, in4_pin = Some 24, enb_pin = Some 25, pwm_a = 2, pwm_b = Some 3\<rparr>,
          gimbal = \<lparr>pins = [Some 17, Some 18, Some 27, Some 22], steps_per_rev = 200,
            current_step = 0\<rparr>\<rparr> 50 (Some 0)
        (snd (TankController_init (Some 12, Some 5, Some 6, Some 13, Some 19, Some 26)
          (Some 16, Some 20, Some 21, Some 23, Some 24, Some 25)
          (Some 17, Some 18, Some 27, Some 22) 200 (fresh_world False False 1000))))) =
     (Some Forward, Some 50)"
  by code_simp

section \<open>The drive coordinator: calls after release\<close>

lemma settled_refl: "settled w w"
  by (simp add: settled_def)

lemma settled_trans: "settled a b \<Longrightarrow> settled b c \<Longrightarrow> settled a c"
  by (auto simp: settled_def)

lemma settles_block: "list_all settles ms \<Longrightarrow> settles (block ms)"
proof (induction ms)
  case Nil
  then show ?case by (simp add: settles_def settled_refl)
next
  case (Cons m ms)
  then have m: "settles m" and ms: "settles (block ms)" by simp_all
  show ?case unfolding settles_def
  proof
    fix w
    obtain e w1 where 1: "m w = (e, w1)" by (metis surj_pair)
    with m have s1: "settled w w1" by (metis settles_def snd_conv)
    show "settled w (snd (block (m # ms) w))"
    proof (cases e)
      case None
      with 1 have "snd (block (m # ms) w) = snd (block ms w1)" by simp
      with ms s1 show ?thesis by (metis settled_trans settles_def)
    next
      case (Some err)
      with 1 s1 show ?thesis by simp
    qed
  qed
qed

lemma returns_block: "list_all returns ms \<Longrightarrow> returns (block ms)"
proof (induction ms)
  case Nil
  then show ?case by (simp add: returns_def)
next
  case (Cons m ms)
  then have m: "returns m" and ms: "returns (block ms)" by simp_all
  show ?case unfolding returns_def
  proof
    fix w
    obtain e w1 where 1: "m w = (e, w1)" by (metis surj_pair)
    with m have "e = None" by (metis returns_def fst_conv)
    with 1 ms show "fst (block (m # ms) w) = None" by (simp add: returns_def)
  qed
qed

lemma settles_GPIO_output: "settles (GPIO_output p v)"
  by (simp add: settles_def GPIO_output_emit emit_def settled_def)

lemma returns_GPIO_output: "returns (GPIO_output p v)"
  by (simp add: returns_def GPIO_output_emit emit_def)

lemma settles_pwm_ChangeDutyCycle: "settles (pwm_ChangeDutyCycle r d)"
  unfolding settles_def
proof
  fix w
  obtain e w' where c: "pwm_ChangeDutyCycle r d w = (e, w')" by (metis surj_pair)
  then show "settled w (snd (pwm_ChangeDutyCycle r d w))"
    by (cases "heap w r")
       (auto simp: pwm_ChangeDutyCycle_def Let_def emit_def settled_def
          split: bool.splits option.splits sum.splits if_splits)
qed

lemma returns_pwm_ChangeDutyCycle_zero: "returns (pwm_ChangeDutyCycle r 0)"
  unfolding returns_def
  by (metis pwm_ChangeDutyCycle_returns duty_lgpio_zero surj_pair fst_conv)

lemma settles_pwm_stop: "settles (pwm_stop r)"
  unfolding settles_def
proof
  fix w
  show "settled w (snd (pwm_stop r w))"
    by (cases "heap w r")
       (auto simp: pwm_stop_def Let_def emit_def settled_def split: option.splits if_splits)
qed

lemma returns_pwm_stop: "returns (pwm_stop r)"
  unfolding returns_def
proof
  fix w
  show "fst (pwm_stop r w) = None"
    by (cases "heap w r") (auto simp: pwm_stop_def Let_def emit_def split: option.splits)
qed

lemma settles_raise: "settles (raise e)"
  by (simp add: settles_def raise_def settled_refl)

lemma settles_if_then: "settles m \<Longrightarrow> settles (if_then c m)"
  by (simp add: settles_def if_then_def settled_refl)

lemma returns_if_then: "returns m \<Longrightarrow> returns (if_then c m)"
  by (simp add: returns_def if_then_def)

lemma settles_on_pwm_b: "settles (on_pwm_b c (\<lambda>r. pwm_ChangeDutyCycle r d))"
  by (simp add: on_pwm_b_def settles_raise settles_pwm_ChangeDutyCycle split: option.splits)

lemma settles_GPIO_cleanup: "settles GPIO_cleanup"
  unfolding settles_def
proof
  fix w :: world
  have "list_all settles (map (\<lambda>(k, r). pwm_stop r) (pwm_instances w))"
    by (simp add: list_all_iff settles_pwm_stop split: prod.splits)
  then have "settled w (snd (block (map (\<lambda>(k, r). pwm_stop r) (pwm_instances w)) w))"
    using settles_block by (simp add: settles_def)
  then show "settled w (snd (GPIO_cleanup w))"
    by (auto simp: GPIO_cleanup_def emit_def if_then_def settled_def
        split: prod.splits option.splits bool.splits)
qed

lemma returns_GPIO_cleanup: "returns GPIO_cleanup"
  unfolding returns_def
proof
  fix w :: world
  have "list_all returns (map (\<lambda>(k, r). pwm_stop r) (pwm_instances w))"
    by (simp add: list_all_iff returns_pwm_stop split: prod.splits)
  then have "fst (block (map (\<lambda>(k, r). pwm_stop r) (pwm_instances w)) w) = None"
    using returns_block by (simp add: returns_def)
  then show "fst (GPIO_cleanup w) = None"
    by (auto simp: GPIO_cleanup_def emit_def if_then_def
        split: prod.splits option.splits bool.splits)
qed

lemma settles_stop_all: "settles (stop_all c)"
  unfolding stop_all_def stop_motor_a_def stop_motor_b_def
  by (intro settles_block settles_if_then)
     (simp add: settles_GPIO_output settles_pwm_ChangeDutyCycle settles_if_then settles_on_pwm_b
        settles_block)

lemma returns_stop_all:
  assumes "built c"
  shows "returns (stop_all c)"
  unfolding returns_def
proof
  fix w
  from assms have "truthy (enb_pin c) \<longrightarrow> pwm_b c \<noteq> None" by (simp add: built_def)
  from stop_all_post [OF this, of w] obtain w' where "stop_all c w = (None, w')" by blast
  then show "fst (stop_all c w) = None" by simp
qed

lemma settles_cleanup: "settles (cleanup c)"
  unfolding cleanup_def
  by (intro settles_block)
     (simp add: settles_stop_all settles_pwm_stop settles_GPIO_cleanup settles_block
        split: option.splits)

lemma returns_cleanup: "built c \<Longrightarrow> returns (cleanup c)"
  unfolding cleanup_def
  by (intro returns_block)
     (simp add: returns_stop_all returns_pwm_stop returns_GPIO_cleanup returns_block
        split: option.splits)

lemma returns_stepper_stop: "returns (stepper_stop g)"
  unfolding stepper_stop_def
  by (intro returns_block) (simp add: list_all_iff returns_GPIO_output)

lemma settles_stepper_stop: "settles (stepper_stop g)"
  unfolding stepper_stop_def
  by (intro settles_block) (simp add: list_all_iff settles_GPIO_output)

lemma pwm_a_tank_pwms:
  "c = left_controller t \<or> c = right_controller t \<Longrightarrow> pwm_a c \<in> set (tank_pwms t)"
  by (auto simp: tank_pwms_def controller_pwms_def)

lemma pwm_b_tank_pwms:
  "c = left_controller t \<or> c = right_controller t \<Longrightarrow> pwm_b c = Some r \<Longrightarrow>
   r \<in> set (tank_pwms t)"
  by (auto simp: tank_pwms_def controller_pwms_def)

lemma pwm_stop_stopped: "stopped (heap (snd (pwm_stop r w)) r)"
  by (cases "heap w r") (auto simp: pwm_stop_def Let_def emit_def split: option.splits)

lemma GPIO_cleanup_handle:
  assumes "PI5_AVAILABLE w"
  shows "handle (snd (GPIO_cleanup w)) = None"
proof -
  have "list_all returns (map (\<lambda>(k, r). pwm_stop r) (pwm_instances w))"
    by (simp add: list_all_iff returns_pwm_stop split: prod.splits)
  then have "fst (block (map (\<lambda>(k, r). pwm_stop r) (pwm_instances w)) w) = None"
    using returns_block by (simp add: returns_def)
  with assms show ?thesis
    by (auto simp: GPIO_cleanup_def emit_def if_then_def
        split: prod.splits option.splits bool.splits)
qed

lemma settled_stopped: "settled w w' \<Longrightarrow> stopped (heap w r) \<Longrightarrow> stopped (heap w' r)"
  by (simp add: settled_def)

lemma cleanup_stopped:
  assumes "built c"
  shows "\<exists>w'. cleanup c w = (None, w') \<and> settled w w' \<and>
     list_all (\<lambda>r. stopped (heap w' r)) (controller_pwms c)"
proof -
  obtain e1 w1 where 1: "stop_all c w = (e1, w1)" by (metis surj_pair)
  with returns_stop_all [OF assms] have e1: "e1 = None" by (metis returns_def fst_conv)
  from settles_stop_all 1 have s1: "settled w w1" by (metis settles_def snd_conv)
  obtain e2 w2 where 2: "pwm_stop (pwm_a c) w1 = (e2, w2)" by (metis surj_pair)
  with returns_pwm_stop have e2: "e2 = None" by (metis returns_def fst_conv)
  from settles_pwm_stop 2 have s2: "settled w1 w2" by (metis settles_def snd_conv)
  from pwm_stop_stopped [of "pwm_a c" w1] 2 have i2: "stopped (heap w2 (pwm_a c))" by simp
  let ?m3 = "case pwm_b c of None \<Rightarrow> block [] | Some r \<Rightarrow> pwm_stop r"
  obtain e3 w3 where 3: "?m3 w2 = (e3, w3)" by (metis surj_pair)
  have e3: "e3 = None"
  proof (cases "pwm_b c")
    case None
    with 3 show ?thesis by simp
  next
    case (Some r)
    with 3 returns_pwm_stop [of r] show ?thesis by (metis returns_def fst_conv option.simps(5))
  qed
  have s3: "settled w2 w3"
  proof (cases "pwm_b c")
    case None
    with 3 show ?thesis by (simp add: settled_refl)
  next
    case (Some r)
    with 3 settles_pwm_stop [of r] show ?thesis by (metis settles_def snd_conv option.simps(5))
  qed
  have i3: "list_all (\<lambda>r. stopped (heap w3 r)) (controller_pwms c)"
  proof (cases "pwm_b c")
    case None
    with 3 i2 show ?thesis by (simp add: controller_pwms_def)
  next
    case (Some r)
    with 3 have "w3 = snd (pwm_stop r w2)" by simp
    with pwm_stop_stopped [of r w2] have "stopped (heap w3 r)" by simp
    with settled_stopped [OF s3 i2] Some show ?thesis by (simp add: controller_pwms_def)
  qed
  obtain e4 w4 where 4: "GPIO_cleanup w3 = (e4, w4)" by (metis surj_pair)
  with returns_GPIO_cleanup have e4: "e4 = None" by (metis returns_def fst_conv)
  from settles_GPIO_cleanup 4 have s4: "settled w3 w4" by (metis settles_def snd_conv)
  have i4: "list_all (\<lambda>r. stopped (heap w4 r)) (controller_pwms c)"
    using i3 s4 by (auto simp: list_all_iff intro: settled_stopped)
  have "cleanup c w = (None, w4)"
    using 1 2 3 4 e1 e2 e3 e4 by (simp add: cleanup_def)
  moreover have "settled w w4" using s1 s2 s3 s4 by (blast intro: settled_trans)
  ultimately show ?thesis using i4 by blast
qed

lemma tank_cleanup_released:
  assumes bl: "built (left_controller t)" and br: "built (right_controller t)"
  shows "\<exists>w'. tank_cleanup t w = (None, w') \<and> released t w'"
proof -
  from cleanup_stopped [OF bl] obtain wa where
    a: "cleanup (left_controller t) w = (None, wa)" "settled w wa"
    "list_all (\<lambda>r. stopped (heap wa r)) (controller_pwms (left_controller t))" by blast
  from cleanup_stopped [OF br] obtain wb where
    b: "cleanup (right_controller t) wa = (None, wb)" "settled wa wb"
    "list_all (\<lambda>r. stopped (heap wb r)) (controller_pwms (right_controller t))" by blast
  obtain ec wc where c: "stepper_stop (gimbal t) wb = (ec, wc)" by (metis surj_pair)
  with returns_stepper_stop have ec: "ec = None" by (metis returns_def fst_conv)
  from settles_stepper_stop c have sc: "settled wb wc" by (metis settles_def snd_conv)
  obtain ed wd where d: "GPIO_cleanup wc = (ed, wd)" by (metis surj_pair)
  with returns_GPIO_cleanup have ed: "ed = None" by (metis returns_def fst_conv)
  from settles_GPIO_cleanup d have sd: "settled wc wd" by (metis settles_def snd_conv)
  have s_all: "settled wa wd" using b(2) sc sd by (blast intro: settled_trans)
  have s_b: "settled wb wd" using sc sd by (blast intro: settled_trans)
  have h: "PI5_AVAILABLE wd \<longrightarrow> handle wd = None"
    using GPIO_cleanup_handle [of wc] d sd by (auto simp: settled_def)
  have il: "list_all (\<lambda>r. stopped (heap wd r)) (controller_pwms (left_controller t))"
    using a(3) s_all by (auto simp: list_all_iff intro: settled_stopped)
  have ir: "list_all (\<lambda>r. stopped (heap wd r)) (controller_pwms (right_controller t))"
    using b(3) s_b by (auto simp: list_all_iff intro: settled_stopped)
  have "released t wd"
    using h il ir by (simp add: released_def tank_pwms_def)
  moreover have "tank_cleanup t w = (None, wd)"
    using a(1) b(1) c d ec ed by (simp add: tank_cleanup_def)
  ultimately show ?thesis by blast
qed

lemma kept_effects: "kept t n b (w\<lparr>effects := es\<rparr>) = kept t n b w"
  by (simp add: kept_def released_def legacy_backend_def)

lemma kept_frame:
  assumes "left_controller t' = left_controller t" and "right_controller t' = right_controller t"
  shows "kept t' n b w = kept t n b w"
  using assms by (simp add: kept_def released_def legacy_backend_def tank_pwms_def)

lemma harmless_block: "list_all (harmless t n b) ms \<Longrightarrow> harmless t n b (block ms)"
proof (induction ms)
  case Nil
  then show ?case by (simp add: harmless_def)
next
  case (Cons m ms)
  then have m: "harmless t n b m" and ms: "harmless t n b (block ms)" by simp_all
  show ?case unfolding harmless_def
  proof (intro allI impI)
    fix w
    assume "kept t n b w"
    with m obtain w1 xs where 1: "m w = (None, w1)" "kept t n b w1"
      "effects w1 = xs @ effects w" "list_all (after_release_effect n) xs"
      unfolding harmless_def by blast
    from ms 1(2) obtain w2 ys where 2: "block ms w1 = (None, w2)" "kept t n b w2"
      "effects w2 = ys @ effects w1" "list_all (after_release_effect n) ys"
      unfolding harmless_def by blast
    from 1 2 have "block (m # ms) w = (None, w2)" "effects w2 = (ys @ xs) @ effects w"
      "list_all (after_release_effect n) (ys @ xs)" by simp_all
    with 2(2) show "\<exists>w' xs. block (m # ms) w = (None, w') \<and> kept t n b w' \<and>
        effects w' = xs @ effects w \<and> list_all (after_release_effect n) xs" by blast
  qed
qed

lemma harmless_GPIO_output: "harmless t n b (GPIO_output p v)"
  unfolding harmless_def
proof (intro allI impI)
  fix w
  assume k: "kept t n b w"
  let ?x = "write_effect w p v"
  let ?w' = "w\<lparr>effects := [?x] @ effects w\<rparr>"
  from k have "?x = (if RPI_GPIO_AVAILABLE w then RPI_output p v else print (Setting_pin p v))"
    by (auto simp: kept_def released_def write_effect_def split: option.splits bool.splits)
  moreover from k have "RPI_GPIO_AVAILABLE w \<longrightarrow> n"
    by (simp add: kept_def legacy_backend_def)
  ultimately have x: "after_release_effect n ?x"
    by (simp add: after_release_effect_def)
  have "GPIO_output p v w = (None, ?w')"
    by (simp add: GPIO_output_emit emit_def)
  moreover from k have "kept t n b ?w'" by (simp add: kept_effects)
  ultimately show "\<exists>w' xs. GPIO_output p v w = (None, w') \<and> kept t n b w' \<and>
      effects w' = xs @ effects w \<and> list_all (after_release_effect n) xs"
    using x by (intro exI [of _ ?w'] exI [of _ "[?x]"]) simp
qed

lemma harmless_time_sleep:
  assumes "0 \<le> d" and "d \<le> b"
  shows "harmless t n b (time_sleep (Finite d))"
  unfolding harmless_def
proof (intro allI impI)
  fix w
  assume k: "kept t n b w"
  let ?w' = "w\<lparr>effects := [sleep d] @ effects w\<rparr>"
  from k have "max_sleep w = b" by (simp add: kept_def)
  with assms have "time_sleep (Finite d) w = (None, ?w')"
    by (simp add: time_sleep_def emit_def)
  moreover from k have "kept t n b ?w'" by (simp add: kept_effects)
  ultimately show "\<exists>w' xs. time_sleep (Finite d) w = (None, w') \<and> kept t n b w' \<and>
      effects w' = xs @ effects w \<and> list_all (after_release_effect n) xs"
    by (intro exI [of _ ?w'] exI [of _ "[sleep d]"]) (simp add: after_release_effect_def)
qed

lemma harmless_pwm_ChangeDutyCycle:
  assumes "r \<in> set (tank_pwms t)"
  shows "harmless t n b (pwm_ChangeDutyCycle r d)"
  unfolding harmless_def
proof (intro allI impI)
  fix w
  assume k: "kept t n b w"
  with assms have i: "stopped (heap w r)" by (auto simp: kept_def released_def list_all_iff)
  show "\<exists>w' xs. pwm_ChangeDutyCycle r d w = (None, w') \<and> kept t n b w' \<and>
      effects w' = xs @ effects w \<and> list_all (after_release_effect n) xs"
  proof (cases "heap w r")
    case (LgpioPWM h p f d0 run)
    with i have run: "\<not> run" by simp
    let ?w' = "w\<lparr>heap := (heap w)(r := LgpioPWM h p f d False)\<rparr>"
    from LgpioPWM run have "pwm_ChangeDutyCycle r d w = (None, ?w')"
      by (simp add: pwm_ChangeDutyCycle_def Let_def)
    moreover from k LgpioPWM have "kept t n b ?w'"
      by (auto simp: kept_def released_def legacy_backend_def list_all_iff list_ex_iff)
    ultimately show ?thesis by (intro exI [of _ ?w'] exI [of _ "[]"]) simp
  next
    case (SimulatedPWM p f d0)
    let ?w' = "w\<lparr>heap := (heap w)(r := SimulatedPWM p f d),
                   effects := [print (PWM_changed p d)] @ effects w\<rparr>"
    from SimulatedPWM have "pwm_ChangeDutyCycle r d w = (None, ?w')"
      by (simp add: pwm_ChangeDutyCycle_def emit_def)
    moreover from k SimulatedPWM have "kept t n b ?w'"
      by (auto simp: kept_def released_def legacy_backend_def list_all_iff list_ex_iff)
    ultimately show ?thesis
      by (intro exI [of _ ?w'] exI [of _ "[print (PWM_changed p d)]"])
         (simp add: after_release_effect_def)
  next
    case (RPiPWM p f d0)
    let ?w' = "w\<lparr>heap := (heap w)(r := RPiPWM p f d),
                   effects := [RPI_PWM_ChangeDutyCycle r d] @ effects w\<rparr>"
    from RPiPWM have "is_legacy (heap w r)" by simp
    with assms have "legacy_backend t w"
      by (auto simp: legacy_backend_def list_ex_iff)
    with k have n: n by (simp add: kept_def)
    from RPiPWM have "pwm_ChangeDutyCycle r d w = (None, ?w')"
      by (simp add: pwm_ChangeDutyCycle_def emit_def)
    moreover from k n have "kept t n b ?w'"
      by (auto simp: kept_def released_def list_all_iff)
    ultimately show ?thesis using n
      by (intro exI [of _ ?w'] exI [of _ "[RPI_PWM_ChangeDutyCycle r d]"])
         (simp add: after_release_effect_def)
  qed
qed

lemma harmless_skip: "harmless t n b (block [])"
  by (rule harmless_block) simp

lemma harmless_drive:
  "r \<in> set (tank_pwms t) \<Longrightarrow> harmless t n b (drive p q u v r d)"
  unfolding drive_def
  by (rule harmless_block) (simp add: harmless_GPIO_output harmless_pwm_ChangeDutyCycle)

lemma harmless_call_a:
  assumes "c = left_controller t \<or> c = right_controller t"
  shows "harmless t n b (call_a c call)"
  using harmless_drive [OF pwm_a_tank_pwms [OF assms]]
  by (cases call) (simp_all add: motor_a_drive)

lemma harmless_on_pwm_b:
  assumes "c = left_controller t \<or> c = right_controller t" and "built c" and "truthy (enb_pin c)"
  shows "harmless t n b (on_pwm_b c (\<lambda>r. pwm_ChangeDutyCycle r d))"
proof -
  from assms(2,3) obtain r where r: "pwm_b c = Some r" by (auto simp: built_def)
  from harmless_pwm_ChangeDutyCycle [OF pwm_b_tank_pwms [OF assms(1) r]] r
  show ?thesis by (simp add: on_pwm_b_def)
qed

lemma harmless_if_then: "(c \<Longrightarrow> harmless t n b m) \<Longrightarrow> harmless t n b (if_then c m)"
  by (cases c) (simp_all add: if_then_True if_then_False harmless_skip)

lemma harmless_call_b:
  assumes c: "c = left_controller t \<or> c = right_controller t" and b: "built c"
  shows "harmless t n b (call_b c call)"
proof (cases call)
  case (Call_forward s)
  show ?thesis unfolding Call_forward call_b.simps motor_b_forward_def
    by (intro harmless_if_then harmless_block)
       (simp add: harmless_GPIO_output harmless_on_pwm_b [OF c b])
next
  case (Call_backward s)
  show ?thesis unfolding Call_backward call_b.simps motor_b_backward_def
    by (intro harmless_if_then harmless_block)
       (simp add: harmless_GPIO_output harmless_on_pwm_b [OF c b])
next
  case Call_stop
  show ?thesis unfolding Call_stop call_b.simps stop_motor_b_def
    by (intro harmless_if_then harmless_block)
       (simp add: harmless_GPIO_output harmless_if_then harmless_on_pwm_b [OF c b])
qed

lemma harmless_tank_stop_all:
  assumes bl: "built (left_controller t)" and br: "built (right_controller t)"
  shows "harmless t n b (tank_stop_all t)"
  unfolding tank_stop_all_def stop_all_def
  using harmless_call_a [of "left_controller t" t n b Call_stop]
    harmless_call_a [of "right_controller t" t n b Call_stop]
    harmless_call_b [OF _ bl, of t n b Call_stop] harmless_call_b [OF _ br, of t n b Call_stop]
  by (intro harmless_block) (simp add: harmless_block)

lemma harmless_pause_then_stop:
  assumes bl: "built (left_controller t)" and br: "built (right_controller t)"
    and d: "case duration of None \<Rightarrow> True | Some d \<Rightarrow> 0 \<le> d \<and> d \<le> b"
  shows "harmless t n b (case duration of
       None \<Rightarrow> block []
     | Some d \<Rightarrow> if_then (d \<noteq> 0) (block [time_sleep (Finite d), tank_stop_all t]))"
proof (cases duration)
  case None
  then show ?thesis by (simp add: harmless_skip)
next
  case (Some x)
  with d have "0 \<le> x" "x \<le> b" by simp_all
  then have "harmless t n b (block [time_sleep (Finite x), tank_stop_all t])"
    by (intro harmless_block) (simp add: harmless_time_sleep harmless_tank_stop_all [OF bl br])
  with Some show ?thesis by (simp add: harmless_if_then)
qed

lemma harmless_motion_call:
  assumes bl: "built (left_controller t)" and br: "built (right_controller t)"
    and d: "case duration of None \<Rightarrow> True | Some d \<Rightarrow> 0 \<le> d \<and> d \<le> b"
  shows "harmless t n b (motion_call t m s duration)"
proof -
  have a: "harmless t n b (call_a (left_controller t) x)"
    "harmless t n b (call_a (right_controller t) x)" for x
    by (simp_all add: harmless_call_a)
  have c: "harmless t n b (call_b (left_controller t) x)"
    "harmless t n b (call_b (right_controller t) x)" for x
    by (simp_all add: harmless_call_b bl br)
  note p = harmless_pause_then_stop [OF bl br d]
  show ?thesis
    using a(1) [of "Call_forward s"] a(2) [of "Call_forward s"] c(1) [of "Call_forward s"]
      c(2) [of "Call_forward s"] a(1) [of "Call_backward s"] a(2) [of "Call_backward s"]
      c(1) [of "Call_backward s"] c(2) [of "Call_backward s"] p
    by (cases m)
       (simp_all add: move_forward_def move_backward_def turn_left_def turn_right_def
          harmless_block)
qed

lemma harmless_stepper_stop: "harmless t n b (stepper_stop g)"
  unfolding stepper_stop_def
  by (intro harmless_block) (simp add: list_all_iff harmless_GPIO_output)

lemma harmless_outputs:
  assumes "k + length ps \<le> length sq"
  shows "list_all (harmless t n b) (map (output_indexed sq) (enumerate k ps))"
proof -
  have "harmless t n b (output_indexed sq x)" if "x \<in> set (enumerate k ps)" for x
  proof -
    obtain i p where x: "x = (i, p)" by (cases x)
    with that assms have "i < length sq" by (auto simp: in_set_enumerate_eq)
    with x show ?thesis by (simp add: output_indexed_def harmless_GPIO_output)
  qed
  then show ?thesis by (simp add: list_all_iff)
qed

lemma harmless_step_motor:
  assumes "length (pins s) = 4" and "0 \<le> delay" and "delay \<le> b"
  shows "harmless_stepper t n b s (step_motor d (Finite delay))"
  unfolding harmless_stepper_def
proof (intro allI impI)
  fix w
  assume kw: "kept t n b w"
  define k where "k = (if d > 0 then (current_step s + 1) mod 4 else (current_step s - 1) mod 4)"
  define s1 where "s1 = s\<lparr>current_step := k\<rparr>"
  let ?body = "block (map (output_indexed (step_sequence ! nat k)) (enumerate 0 (pins s)) @
                      [time_sleep (Finite delay)])"
  have "0 \<le> k" "k < 4" unfolding k_def by auto
  then have "nat k \<in> {0, 1, 2, 3}" by auto
  then have len: "length (step_sequence ! nat k) = 4"
    by (auto simp: step_sequence_def)
  with assms(1) have "0 + length (pins s) \<le> length (step_sequence ! nat k)" by simp
  from harmless_outputs [OF this, of t n b] assms(2,3)
  have "harmless t n b ?body"
    by (intro harmless_block) (simp add: harmless_time_sleep)
  with kw obtain w' xs where b: "?body w = (None, w')" "kept t n b w'"
    "effects w' = xs @ effects w" "list_all (after_release_effect n) xs"
    unfolding harmless_def by blast
  have "step_motor d (Finite delay) (s, w) = (case ?body w of (e, w2) \<Rightarrow> (e, (s1, w2)))"
    by (simp add: step_motor_def Let_def on_world_def k_def s1_def)
  with b show "\<exists>s' w' xs. step_motor d (Finite delay) (s, w) = (None, (s', w')) \<and>
      pins s' = pins s \<and> steps_per_rev s' = steps_per_rev s \<and> kept t n b w' \<and>
      effects w' = xs @ effects w \<and> list_all (after_release_effect n) xs"
    by (simp add: s1_def)
qed

lemma harmless_repeat_step_motor:
  assumes "length (pins s) = 4" and "0 \<le> delay" and "delay \<le> b"
  shows "harmless_stepper t n b s (block (replicate k (step_motor d (Finite delay))))"
  using assms(1)
proof (induction k arbitrary: s)
  case 0
  then show ?case by (simp add: harmless_stepper_def)
next
  case (Suc k)
  show ?case unfolding harmless_stepper_def
  proof (intro allI impI)
    fix w
    assume "kept t n b w"
    with harmless_step_motor [OF Suc.prems assms(2,3), of t n d] obtain s1 w1 xs where
      1: "step_motor d (Finite delay) (s, w) = (None, (s1, w1))" "pins s1 = pins s"
      "steps_per_rev s1 = steps_per_rev s" "kept t n b w1"
      "effects w1 = xs @ effects w" "list_all (after_release_effect n) xs"
      unfolding harmless_stepper_def by blast
    from 1(2) Suc.prems have "length (pins s1) = 4" by simp
    from Suc.IH [OF this] 1(4) obtain s2 w2 ys where
      2: "block (replicate k (step_motor d (Finite delay))) (s1, w1) = (None, (s2, w2))"
      "pins s2 = pins s1" "steps_per_rev s2 = steps_per_rev s1" "kept t n b w2"
      "effects w2 = ys @ effects w1" "list_all (after_release_effect n) ys"
      unfolding harmless_stepper_def by blast
    from 1 2 have "block (replicate (Suc k) (step_motor d (Finite delay))) (s, w) = (None, (s2, w2))"
      "pins s2 = pins s" "steps_per_rev s2 = steps_per_rev s"
      "effects w2 = (ys @ xs) @ effects w" "list_all (after_release_effect n) (ys @ xs)"
      by simp_all
    with 2(4) show "\<exists>s' w' xs.
        block (replicate (Suc k) (step_motor d (Finite delay))) (s, w) = (None, (s', w')) \<and>
        pins s' = pins s \<and> steps_per_rev s' = steps_per_rev s \<and> kept t n b w' \<and>
        effects w' = xs @ effects w \<and> list_all (after_release_effect n) xs" by blast
  qed
qed

lemma harmless_rotate_degrees:
  assumes "length (pins s) = 4" and "max_sleep w0 = b" and "can_rotate s w0 degrees speed"
  shows "harmless_stepper t n b s (rotate_degrees degrees speed)"
proof -
  from assms(2,3) obtain k delay where c: "0 < speed"
    "rotate_steps degrees (steps_per_rev s) = Inr k" "rotate_delay speed = Inr (Finite delay)"
    "delay \<le> b"
    by (auto simp: can_rotate_def split: sum.splits pyfloat.splits)
  from rotate_delay_nonneg [OF c(1,3)] have d: "0 \<le> delay" .
  from c(2,3) have "rotate_degrees degrees speed (s, w) =
      block (replicate (nat k) (step_motor (if degrees > 0 then 1 else - 1) (Finite delay))) (s, w)"
    for w
    by (simp add: rotate_degrees_def Let_def)
  with harmless_repeat_step_motor [OF assms(1) d c(4), of t n "nat k"
      "if degrees > 0 then 1 else - 1"]
  show ?thesis by (simp add: harmless_stepper_def)
qed

lemma admissible_frame:
  assumes "steps_per_rev (gimbal t') = steps_per_rev (gimbal t)" and "max_sleep w' = max_sleep w"
  shows "admissible t' w' call = admissible t w call"
  using assms
  by (cases call) (simp_all add: can_rotate_def split: option.splits sum.splits pyfloat.splits)

lemma perform_on_self:
  assumes "after_release t n b w" and "harmless t n b (m t)"
  shows "\<exists>t' w' xs. on_self m (t, w) = (None, (t', w')) \<and> after_release t' n b w' \<and>
     steps_per_rev (gimbal t') = steps_per_rev (gimbal t) \<and>
     effects w' = xs @ effects w \<and> list_all (after_release_effect n) xs"
proof -
  from assms obtain w' xs where "m t w = (None, w')" "kept t n b w'"
    "effects w' = xs @ effects w" "list_all (after_release_effect n) xs"
    unfolding harmless_def after_release_def by blast
  with assms(1) show ?thesis by (auto simp: on_self_def after_release_def)
qed

lemma perform_on_gimbal:
  assumes "after_release t n b w" and "harmless_stepper t n b (gimbal t) m"
  shows "\<exists>t' w' xs. on_gimbal m (t, w) = (None, (t', w')) \<and> after_release t' n b w' \<and>
     steps_per_rev (gimbal t') = steps_per_rev (gimbal t) \<and>
     effects w' = xs @ effects w \<and> list_all (after_release_effect n) xs"
proof -
  from assms obtain s' w' xs where m: "m (gimbal t, w) = (None, (s', w'))"
    "pins s' = pins (gimbal t)" "steps_per_rev s' = steps_per_rev (gimbal t)"
    "kept t n b w'" "effects w' = xs @ effects w"
    "list_all (after_release_effect n) xs"
    unfolding harmless_stepper_def after_release_def by blast
  let ?t' = "t\<lparr>gimbal := s'\<rparr>"
  from m(4) have "kept ?t' n b w'" by (simp add: kept_frame [of ?t' t])
  with assms(1) m(2) have "after_release ?t' n b w'" by (simp add: after_release_def)
  moreover from m(1) have "on_gimbal m (t, w) = (None, (?t', w'))" by (simp add: on_gimbal_def)
  ultimately show ?thesis using m(3,5,6)
    by (intro exI [of _ ?t'] exI [of _ w'] exI [of _ xs]) simp
qed

lemma pan_camera_on_gimbal: "pan_camera degrees = on_gimbal (rotate_degrees degrees 500)"
  by (simp add: pan_camera_def on_gimbal_def)

lemma perform_after_release:
  assumes r: "after_release t n b w" and a: "admissible t w call"
  shows "\<exists>t' w' xs. perform call (t, w) = (None, (t', w')) \<and> after_release t' n b w' \<and>
     steps_per_rev (gimbal t') = steps_per_rev (gimbal t) \<and>
     effects w' = xs @ effects w \<and> list_all (after_release_effect n) xs"
proof -
  from r have bl: "built (left_controller t)" and br: "built (right_controller t)"
    and g: "length (pins (gimbal t)) = 4" and b: "max_sleep w = b"
    by (simp_all add: after_release_def kept_def)
  show ?thesis
  proof (cases call)
    case (Motion m s duration)
    with a b have "case duration of None \<Rightarrow> True | Some d \<Rightarrow> 0 \<le> d \<and> d \<le> b"
      by (cases duration) simp_all
    from perform_on_self [OF r, of "\<lambda>self. motion_call self m s duration",
        OF harmless_motion_call [OF bl br this]] Motion
    show ?thesis by simp
  next
    case Tank_stop_all
    from perform_on_self [OF r, of tank_stop_all, OF harmless_tank_stop_all [OF bl br]]
      Tank_stop_all
    show ?thesis by simp
  next
    case (Pan degrees)
    with a have "can_rotate (gimbal t) w degrees 500" by simp
    from perform_on_gimbal [OF r harmless_rotate_degrees [OF g b this]] Pan
    show ?thesis by (simp add: pan_camera_on_gimbal)
  next
    case (Left_a x)
    from perform_on_self [OF r, of "\<lambda>self. call_a (left_controller self) x",
        OF harmless_call_a] Left_a
    show ?thesis by simp
  next
    case (Left_b x)
    from perform_on_self [OF r, of "\<lambda>self. call_b (left_controller self) x",
        OF harmless_call_b [OF _ bl]] Left_b
    show ?thesis by simp
  next
    case (Right_a x)
    from perform_on_self [OF r, of "\<lambda>self. call_a (right_controller self) x",
        OF harmless_call_a] Right_a
    show ?thesis by simp
  next
    case (Right_b x)
    from perform_on_self [OF r, of "\<lambda>self. call_b (right_controller self) x",
        OF harmless_call_b [OF _ br]] Right_b
    show ?thesis by simp
  next
    case (Gimbal_step d delay)
    with a b have "0 \<le> delay" "delay \<le> b" by simp_all
    from perform_on_gimbal [OF r harmless_step_motor [OF g this]] Gimbal_step
    show ?thesis by simp
  next
    case (Gimbal_rotate degrees speed)
    with a have "can_rotate (gimbal t) w degrees speed" by simp
    from perform_on_gimbal [OF r harmless_rotate_degrees [OF g b this]] Gimbal_rotate
    show ?thesis by simp
  next
    case Gimbal_stop
    from perform_on_self [OF r, of "\<lambda>self. stepper_stop (gimbal self)",
        OF harmless_stepper_stop] Gimbal_stop
    show ?thesis by simp
  qed
qed

lemma perform_sequence:
  assumes "after_release t n b w" and "list_all (admissible t w) calls"
  shows "\<exists>t' w' xs. block (map perform calls) (t, w) = (None, (t', w')) \<and>
     effects w' = xs @ effects w \<and> list_all (after_release_effect n) xs"
  using assms
proof (induction calls arbitrary: t w)
  case Nil
  then show ?case by simp
next
  case (Cons c calls)
  from Cons.prems(2) have a: "admissible t w c" and as: "list_all (admissible t w) calls"
    by simp_all
  from perform_after_release [OF Cons.prems(1) a] obtain t1 w1 xs where
    1: "perform c (t, w) = (None, (t1, w1))" "after_release t1 n b w1"
    "steps_per_rev (gimbal t1) = steps_per_rev (gimbal t)"
    "effects w1 = xs @ effects w" "list_all (after_release_effect n) xs" by blast
  from Cons.prems(1) 1(2) have "max_sleep w1 = max_sleep w"
    by (simp add: after_release_def kept_def)
  with as have "list_all (admissible t1 w1) calls"
    by (simp add: list_all_iff admissible_frame [OF 1(3)])
  from Cons.IH [OF 1(2) this] obtain t2 w2 ys where
    2: "block (map perform calls) (t1, w1) = (None, (t2, w2))"
    "effects w2 = ys @ effects w1" "list_all (after_release_effect n) ys" by blast
  from 1 2 have "block (map perform (c # calls)) (t, w) = (None, (t2, w2))"
    "effects w2 = (ys @ xs) @ effects w" "list_all (after_release_effect n) (ys @ xs)"
    by simp_all
  then show ?case by blast
qed

lemma TankController_init_built:
  assumes "TankController_init (lena, lin1, lin2, lin3, lin4, lenb)
       (rena, rin1, rin2, rin3, rin4, renb) (g1, g2, g3, g4) spr w0 = (Inr t, w1)"
  shows "built (left_controller t) \<and> built (right_controller t) \<and> length (pins (gimbal t)) = 4"
  using TankController_init_result [of lena lin1 lin2 lin3 lin4 lenb rena rin1 rin2 rin3 rin4
      renb g1 g2 g3 g4 spr w0] assms
  by (auto simp: built_def)

text \<open>
  C2, as the code has it. No method looks at whether the tank was released, and none
  raises for it. For a tank the constructor returned, on every platform and from every
  state of the backend: \<^verbatim>\<open>cleanup\<close> returns, and after it every sequence of public calls
  (the four motions with or without a duration, stop, pan, the channel methods of each
  bank, the methods of the gimbal's stepper) returns without raising. Each call runs
  its body as before release: with \<^verbatim>\<open>RPi.GPIO\<close> behind the tank it hands its pin writes
  and duty changes to that library, so that an error can only come from the library;
  without it the call succeeds silently and does nothing but print and pause. No call
  is made on \<^verbatim>\<open>lgpio\<close>. The arguments are such that the call would not raise before
  release either (a pause the platform can sleep for, an angle whose step count can be
  computed).
\<close>

theorem calls_after_release_return:
  assumes "TankController_init (lena, lin1, lin2, lin3, lin4, lenb)
       (rena, rin1, rin2, rin3, rin4, renb) (g1, g2, g3, g4) spr w0 = (Inr t, w1)"
    and "tank_cleanup t w = (e, w')"
    and "list_all (admissible t w') calls"
  shows "e = None \<and>
         (\<exists>t'' w'' xs. block (map perform calls) (t, w') = (None, (t'', w'')) \<and>
            effects w'' = xs @ effects w' \<and>
            list_all (after_release_effect (legacy_backend t w')) xs)"
proof -
  from TankController_init_built [OF assms(1)]
  have bl: "built (left_controller t)" and br: "built (right_controller t)"
    and g: "length (pins (gimbal t)) = 4" by simp_all
  from tank_cleanup_released [OF bl br, of w] assms(2)
  have e: "e = None" and rel: "released t w'" by simp_all
  from bl br g rel have "after_release t (legacy_backend t w') (max_sleep w') w'"
    by (simp add: after_release_def kept_def)
  from perform_sequence [OF this assms(3)] e show ?thesis by simp
qed

theorem calls_after_release_return_witness:
  "\<exists>t w1 w'. TankController_init (Some 12, Some 5, Some 6, Some 13, Some 19, Some 26)
       (Some 16, Some 20, Some 21, Some 23, Some 24, Some 25) (Some 17, Some 18, Some 27, Some 22)
       200 (fresh_world False True 1000) = (Inr t, w1) \<and>
     tank_cleanup t w1 = (None, w') \<and>
     list_all (admissible t w')
       [Motion Move_forward 50 (Some 2), Pan 90, Left_b (Call_backward 30),
        Gimbal_step (- 1) (1 / 500), Tank_stop_all] \<and>
     (\<exists>t'' w'' xs. block (map perform
          [Motion Move_forward 50 (Some 2), Pan 90, Left_b (Call_backward 30),
           Gimbal_step (- 1) (1 / 500), Tank_stop_all]) (t, w') = (None, (t'', w'')) \<and>
        effects w'' = xs @ effects w' \<and>
        list_all (after_release_effect (legacy_backend t w')) xs)"
proof -
  let ?i = "TankController_init (Some 12, Some 5, Some 6, Some 13, Some 19, Some 26)
       (Some 16, Some 20, Some 21, Some 23, Some 24, Some 25) (Some 17, Some 18, Some 27, Some 22)
       200 (fresh_world False True 1000)"
  let ?t = "\<lparr>left_controller = \<lparr>ena_pin = Some 12, in1_pin = Some 5, in2_pin = Some 6,
            in3_pin = Some 13, in4_pin = Some 19, enb_pin = Some 26, pwm_a = 0, pwm_b = Some 1\<rparr>,
          right_controller = \<lparr>ena_pin = Some 16, in1_pin = Some 20, in2_pin = Some 21,
            in3_pin = Some 23, in4_pin = Some 24, enb_pin = Some 25, pwm_a = 2, pwm_b = Some 3\<rparr>,
          gimbal = \<lparr>pins = [Some 17, Some 18, Some 27, Some 22], steps_per_rev = 200,
            current_step = 0\<rparr>\<rparr>"
  let ?calls = "[Motion Move_forward 50 (Some 2), Pan 90, Left_b (Call_backward 30),
        Gimbal_step (- 1) (1 / 500), Tank_stop_all]"
  have "fst ?i = Inr ?t" by code_simp
  then have i: "?i = (Inr ?t, snd ?i)" by (simp add: prod_eq_iff)
  obtain e w' where c: "tank_cleanup ?t (snd ?i) = (e, w')" by (metis surj_pair)
  have "max_sleep (snd (tank_cleanup ?t (snd ?i))) = 1000" by code_simp
  with c have m: "max_sleep w' = 1000" by simp
  have s: "rotate_steps 90 200 = Inr 50" by code_simp
  have d: "rotate_delay 500 = Inr (Finite (1152921504606847 / 576460752303423488))" by code_simp
  have a: "list_all (admissible ?t w') ?calls"
    by (simp add: can_rotate_def m s d)
  from calls_after_release_return [OF i c a] i c a
  show ?thesis by blast
qed

text \<open>
  The claim fails where \<^verbatim>\<open>RPi.GPIO\<close> is the backend, as \<^verbatim>\<open>motor_control.py\<close> imports it:
  after \<^verbatim>\<open>cleanup\<close> has returned, \<^verbatim>\<open>move_forward(50)\<close> raises nothing. It hands its
  eight pin writes and four duty changes to the library as if nothing had been released.
  It fails in the simulation of \<^verbatim>\<open>gpio_compat.py\<close> too, where no library is involved: there
  the same call returns after printing twelve lines.
\<close>

theorem move_forward_after_release_counterexample:
  "fst (TankController_init (Some 12, Some 5, Some 6, Some 13, Some 19, Some 26)
       (Some 16, Some 20, Some 21, Some 23, Some 24, Some 25) (Some 17, Some 18, Some 27, Some 22)
       200 (fresh_world False True 1000)) =
     Inr \<lparr>left_controller = \<lparr>ena_pin = Some 12, in1_pin = Some 5, in2_pin = Some 6,
            in3_pin = Some 13, in4_pin = Some 19, enb_pin = Some 26, pwm_a = 0, pwm_b = Some 1\<rparr>,
          right_controller = \<lparr>ena_pin = Some 16, in1_pin = Some 20, in2_pin = Some 21,
            in3_pin = Some 23, in4_pin = Some 24, enb_pin = Some 25, pwm_a = 2, pwm_b = Some 3\<rparr>,
          gimbal = \<lparr>pins = [Some 17, Some 18, Some 27, Some 22], steps_per_rev = 200,
            current_step = 0\<rparr>\<rparr> \<and>
   fst (block
     [tank_cleanup \<lparr>left_controller = \<lparr>ena_pin = Some 12, in1_pin = Some 5, in2_pin = Some 6,
            in3_pin = Some 13, in4_pin = Some 19, enb_pin = Some 26, pwm_a = 0, pwm_b = Some 1\<rparr>,
          right_controller = \<lparr>ena_pin = Some 16, in1_pin = Some 20, in2_pin = Some 21,
            in3_pin = Some 23, in4_pin = Some 24, enb_pin = Some 25, pwm_a = 2, pwm_b = Some 3\<rparr>,
          gimbal = \<lparr>pins = [Some 17, Some 18, Some 27, Some 22], steps_per_rev = 200,
            current_step = 0\<rparr>\<rparr>,
      move_forward \<lparr>left_controller = \<lparr>ena_pin = Some 12, in1_pin = Some 5, in2_pin = Some 6,
            in3_pin = Some 13, in4_pin = Some 19, enb_pin = Some 26, pwm_a = 0, pwm_b = Some 1\<rparr>,
          right_controller = \<lparr>ena_pin = Some 16, in1_pin = Some 20, in2_pin = Some 21,
            in3_pin = Some 23, in4_pin = Some 24, enb_pin = Some 25, pwm_a = 2, pwm_b = Some 3\<rparr>,
          gimbal = \<lparr>pins = [Some 17, Some 18, Some 27, Some 22], steps_per_rev = 200,
            current_step = 0\<rparr>\<rparr> 50 None]
     (snd (TankController_init (Some 12, Some 5, Some 6, Some 13, Some 19, Some 26)
       (Some 16, Some 20, Some 21, Some 23, Some 24, Some 25) (Some 17, Some 18, Some 27, Some 22)
       200 (fresh_world False True 1000)))) = None \<and>
   take 12 (effects (snd (block
     [tank_cleanup \<lparr>left_controller = \<lparr>ena_pin = Some 12, in1_pin = Some 5, in2_pin = Some 6,
            in3_pin = Some 13, in4_pin = Some 19, enb_pin = Some 26, pwm_a = 0, pwm_b = Some 1\<rparr>,
          right_controller = \<lparr>ena_pin = Some 16, in1_pin = Some 20, in2_pin = Some 21,
            in3_pin = Some 23, in4_pin = Some 24, enb_pin = Some 25, pwm_a = 2, pwm_b = Some 3\<rparr>,
          gimbal = \<lparr>pins = [Some 17, Some 18, Some 27, Some 22], steps_per_rev = 200,
            current_step = 0\<rparr>\<rparr>,
      move_forward \<lparr>left_controller = \<lparr>ena_pin = Some 12, in1_pin = Some 5, in2_pin = Some 6,
            in3_pin = Some 13, in4_pin = Some 19, enb_pin = Some 26, pwm_a = 0, pwm_b = Some 1\<rparr>,
          right_controller = \<lparr>ena_pin = Some 16, in1_pin = Some 20, in2_pin = Some 21,
            in3_pin = Some 23, in4_pin = Some 24, enb_pin = Some 25, pwm_a = 2, pwm_b = Some 3\<rparr>,
          gimbal = \<lparr>pins = [Some 17, Some 18, Some 27, Some 22], steps_per_rev = 200,
            current_step = 0\<rparr>\<rparr> 50 None]
     (snd (TankController_init (Some 12, Some 5, Some 6, Some 13, Some 19, Some 26)
       (Some 16, Some 20, Some 21, Some 23, Some 24, Some 25) (Some 17, Some 18, Some 27, Some 22)
       200 (fresh_world False True 1000)))))) =
     [RPI_PWM_ChangeDutyCycle 3 50, RPI_output (Some 24) 0, RPI_output (Some 23) 1,
      RPI_PWM_ChangeDutyCycle 2 50, RPI_output (Some 21) 0, RPI_output (Some 20) 1,
      RPI_PWM_ChangeDutyCycle 1 50, RPI_output (Some 19) 0, RPI_output (Some 13) 1,
      RPI_PWM_ChangeDutyCycle 0 50, RPI_output (Some 6) 0, RPI_output (Some 5) 1] \<and>
   fst (TankController_init (Some 12, Some 5, Some 6, Some 13, Some 19, Some 26)
       (Some 16, Some 20, Some 21, Some 23, Some 24, Some 25) (Some 17, Some 18, Some 27, Some 22)
       200 (fresh_world False False 1000)) =
     Inr \<lparr>left_controller = \<lparr>ena_pin = Some 12, in1_pin = Some 5, in2_pin = Some 6,
            in3_pin = Some 13, in4_pin = Some 19, enb_pin = Some 26, pwm_a = 0, pwm_b = Some 1\<rparr>,
          right_controller = \<lparr>ena_pin = Some 16, in1_pin = Some 20, in2_pin = Some 21,
            in3_pin = Some 23, in4_pin = Some 24, enb_pin = Some 25, pwm_a = 2, pwm_b = Some 3\<rparr>,
          gimbal = \<lparr>pins = [Some 17, Some 18, Some 27, Some 22], steps_per_rev = 200,
            current_step = 0\<rparr>\<rparr> \<and>
   fst (block
     [tank_cleanup \<lparr>left_controller = \<lparr>ena_pin = Some 12, in1_pin = Some 5, in2_pin = Some 6,
            in3_pin = Some 13, in4_pin = Some 19, enb_pin = Some 26, pwm_a = 0, pwm_b = Some 1\<rparr>,
          right_controller = \<lparr>ena_pin = Some 16, in1_pin = Some 20, in2_pin = Some 21,
            in3_pin = Some 23, in4_pin = Some 24, enb_pin = Some 25, pwm_a = 2, pwm_b = Some 3\<rparr>,
          gimbal = \<lparr>pins = [Some 17, Some 18, Some 27, Some 22], steps_per_rev = 200,
            current_step = 0\<rparr>\<rparr>,
      move_forward \<lparr>left_controller = \<lparr>ena_pin = Some 12, in1_pin = Some 5, in2_pin = Some 6,
            in3_pin = Some 13, in4_pin = Some 19, enb_pin = Some 26, pwm_a = 0, pwm_b = Some 1\<rparr>,
          right_controller = \<lparr>ena_pin = Some 16, in1_pin = Some 20, in2_pin = Some 21,
            in3_pin = Some 23, in4_pin = Some 24, enb_pin = Some 25, pwm_a = 2, pwm_b = Some 3\<rparr>,
          gimbal = \<lparr>pins = [Some 17, Some 18, Some 27, Some 22], steps_per_rev = 200,
            current_step = 0\<rparr>\<rparr> 50 None]
     (snd (TankController_init (Some 12, Some 5, Some 6, Some 13, Some 19, Some 26)
       (Some 16, Some 20, Some 21, Some 23, Some 24, Some 25) (Some 17, Some 18, Some 27, Some 22)
       200 (fresh_world False False 1000)))) = None \<and>
   take 12 (effects (snd (block
     [tank_cleanup \<lparr>left_controller = \<lparr>ena_pin = Some 12, in1_pin = Some 5, in2_pin = Some 6,
            in3_pin = Some 13, in4_pin = Some 19, enb_pin = Some 26, pwm_a = 0, pwm_b = Some 1\<rparr>,
          right_controller = \<lparr>ena_pin = Some 16, in1_pin = Some 20, in2_pin = Some 21,
            in3_pin = Some 23, in4_pin = Some 24, enb_pin = Some 25, pwm_a = 2, pwm_b = Some 3\<rparr>,
          gimbal = \<lparr>pins = [Some 17, Some 18, Some 27, Some 22], steps_per_rev = 200,
            current_step = 0\<rparr>\<rparr>,
      move_forward \<lparr>left_controller = \<lparr>ena_pin = Some 12, in1_pin = Some 5, in2_pin = Some 6,
            in3_pin = Some 13, in4_pin = Some 19, enb_pin = Some 26, pwm_a = 0, pwm_b = Some 1\<rparr>,
          right_controller = \<lparr>ena_pin = Some 16, in1_pin = Some 20, in2_pin = Some 21,
            in3_pin = Some 23, in4_pin = Some 24, enb_pin = Some 25, pwm_a = 2, pwm_b = Some 3\<rparr>,
          gimbal = \<lparr>pins = [Some 17, Some 18, Some 27, Some 22], steps_per_rev = 200,
            current_step = 0\<rparr>\<rparr> 50 None]
     (snd (TankController_init (Some 12, Some 5, Some 6, Some 13, Some 19, Some 26)
       (Some 16, Some 20, Some 21, Some 23, Some 24, Some 25) (Some 17, Some 18, Some 27, Some 22)
       200 (fresh_world False False 1000)))))) =
     [print (PWM_changed (Some 25) 50), print (Setting_pin (Some 24) 0),
      print (Setting_pin (Some 23) 1),
      print (PWM_changed (Some 16) 50), print (Setting_pin (Some 21) 0),
      print (Setting_pin (Some 20) 1),
      print (PWM_changed (Some 26) 50), print (Setting_pin (Some 19) 0),
      print (Setting_pin (Some 13) 1),
      print (PWM_changed (Some 12) 50), print (Setting_pin (Some 6) 0),
      print (Setting_pin (Some 5) 1)]"
  by code_simp

end
